(* ===== verification/Prelude.thy ===== *)
theory Prelude
  imports
    Main
    "HOL-Library.Word"
    "HOL-Library.AList"
    "HOL-Library.Monad_Syntax"
    "HOL-Library.Char_ord"
    "HOL-Library.List_Lexorder"
begin

text \<open>
  What every theory of the development shares: how the values of the Go program are
  represented, the outcome type of a Go call, the Go maps, and the generic facts about
  them that the component proofs use.

  \<^item> A Go \<^verbatim>\<open>string\<close> or a \<^verbatim>\<open>[]byte\<close> that carries text is a HOL \<open>string\<close>:
    \<open>char\<close> is an 8-bit byte, the order on strings is the bytewise lexicographic one of Go.
  \<^item> \<^verbatim>\<open>uint64\<close>, \<^verbatim>\<open>uint16\<close> and \<^verbatim>\<open>uint8\<close> are words. \<^verbatim>\<open>int64\<close> values are integers;
    \<open>i64\<close> is the wrap-around of an arithmetic result that may leave the range.
    \<^verbatim>\<open>int\<close> lengths and counters that are bounded by a slice in memory are plain integers.
  \<^item> A Go call returns \<open>Some r\<close>, or it never returns to its caller: \<open>None\<close> stands for a
    panic (an index or slice out of range, a failed type assertion) and for an unbounded
    recursion.
  \<^item> A Go map is an association list with distinct keys. The order of the list is the order
    in which \<^verbatim>\<open>range\<close> visits the map; Go leaves it open, and so do the theorems, which hold
    for every such list.
\<close>

named_theorems go_map \<open>lookup, insertion and deletion in a Go map\<close>
named_theorems go_run \<open>evaluation of Go calls on concrete inputs\<close>

section \<open>Outcomes and errors\<close>

type_synonym 'a go = "'a option"

text \<open>The error values the modelled functions return (\<^verbatim>\<open>pkg/errors/errors.go\<close>,
  \<^verbatim>\<open>ringbuf.go\<close>, \<^verbatim>\<open>engine.go\<close>); \<open>ErrMsg\<close> is an error built by \<^verbatim>\<open>fmt.Errorf\<close>.\<close>

datatype go_error =
    ErrKeyNotFound
  | ErrWrongType
  | ErrNotInteger
  | ErrInvalidArgs
  | ErrNotSupported
  | ErrEntryTooLarge
  | ErrInvalidOffset
  | ErrMsg string

type_synonym 'a res = "go_error + 'a"

section \<open>64-bit signed integers\<close>

definition i64 :: "int \<Rightarrow> int" where
  "i64 x = (x + 2 ^ 63) mod 2 ^ 64 - 2 ^ 63"

definition is_i64 :: "int \<Rightarrow> bool" where
  "is_i64 x \<longleftrightarrow> - (2 ^ 63) \<le> x \<and> x < 2 ^ 63"

lemma i64_id [simp]: "is_i64 x \<Longrightarrow> i64 x = x"
  by (simp add: i64_def is_i64_def)

lemma is_i64_0 [simp]: "is_i64 0"
  by (simp add: is_i64_def)

lemma is_i64_i64 [simp]: "is_i64 (i64 x)"
proof -
  have "0 \<le> (x + 2 ^ 63) mod 2 ^ 64" "(x + 2 ^ 63) mod 2 ^ 64 < 2 ^ 64"
    by (rule pos_mod_sign pos_mod_bound; simp)+
  then show ?thesis by (simp add: i64_def is_i64_def)
qed

lemma sint_word_of_int_64 [simp]:
  "is_i64 x \<Longrightarrow> sint (word_of_int x :: 64 word) = x"
  by (simp add: is_i64_def sint_sbintrunc' signed_take_bit_int_eq_self)

section \<open>Slices\<close>

text \<open>\<^verbatim>\<open>xs[i:]\<close> panics when the index is outside the slice; \<^verbatim>\<open>copy(xs[i:], src)\<close> writes as
  much of \<^verbatim>\<open>src\<close> as fits.\<close>

definition slice_from :: "'a list \<Rightarrow> int \<Rightarrow> 'a list go" where
  "slice_from xs i =
     (if 0 \<le> i \<and> i \<le> int (length xs) then Some (drop (nat i) xs) else None)"

definition copy_at :: "'a list \<Rightarrow> int \<Rightarrow> 'a list \<Rightarrow> 'a list go" where
  "copy_at xs i src =
     (if 0 \<le> i \<and> i \<le> int (length xs)
      then Some (take (nat i) xs @ take (length xs - nat i) src @ drop (nat i + length src) xs)
      else None)"

lemma slice_from_Some [simp]:
  "0 \<le> i \<Longrightarrow> i \<le> int (length xs) \<Longrightarrow> slice_from xs i = Some (drop (nat i) xs)"
  by (simp add: slice_from_def)

lemma copy_at_fits:
  "0 \<le> i \<Longrightarrow> i + int (length src) \<le> int (length xs) \<Longrightarrow>
     copy_at xs i src = Some (take (nat i) xs @ src @ drop (nat i + length src) xs)"
  by (simp add: copy_at_def nat_le_iff)

lemma copy_at_length: "copy_at xs i src = Some ys \<Longrightarrow> length ys = length xs"
  by (auto simp: copy_at_def nat_le_iff min_def split: if_splits)

lemma take_drop_mid:
  "length b = n \<Longrightarrow> take n (drop (length a) (a @ b @ c)) = b"
  by simp

section \<open>Go maps\<close>

type_synonym ('k, 'v) gomap = "('k \<times> 'v) list"

abbreviation mget :: "('k, 'v) gomap \<Rightarrow> 'k \<Rightarrow> 'v option" where
  "mget \<equiv> map_of"

definition mput :: "'k \<Rightarrow> 'v \<Rightarrow> ('k, 'v) gomap \<Rightarrow> ('k, 'v) gomap" where
  "mput k v m = AList.update k v m"

definition mdel :: "'k \<Rightarrow> ('k, 'v) gomap \<Rightarrow> ('k, 'v) gomap" where
  "mdel k m = AList.delete k m"

definition mkeys :: "('k, 'v) gomap \<Rightarrow> 'k list" where
  "mkeys m = map fst m"

definition mwf :: "('k, 'v) gomap \<Rightarrow> bool" where
  "mwf m \<longleftrightarrow> distinct (map fst m)"

lemma mget_mput [go_map]: "mget (mput k v m) = (mget m)(k \<mapsto> v)"
  by (simp add: mput_def update_conv')

lemma mget_mdel [go_map]: "mget (mdel k m) = (mget m)(k := None)"
  by (simp add: mdel_def delete_conv')

lemma mwf_Nil [simp]: "mwf []"
  by (simp add: mwf_def)

lemma mwf_mput [simp]: "mwf m \<Longrightarrow> mwf (mput k v m)"
  by (simp add: mwf_def mput_def distinct_update)

lemma mwf_mdel [simp]: "mwf m \<Longrightarrow> mwf (mdel k m)"
  by (simp add: mwf_def mdel_def distinct_delete)

lemma mput_simps [simp, go_run]:
  "mput k v [] = [(k, v)]"
  "mput k v ((k', v') # m) = (if k' = k then (k, v) # m else (k', v') # mput k v m)"
  by (simp_all add: mput_def)

lemma mdel_simps [simp, go_run]:
  "mdel k [] = []"
  "mdel k ((k', v') # m) = (if k' = k then mdel k m else (k', v') # mdel k m)"
  by (auto simp: mdel_def)

lemma set_mkeys: "set (mkeys m) = dom (mget m)"
  by (simp add: mkeys_def dom_map_of_conv_image_fst)

lemma mget_None_iff: "mget m k = None \<longleftrightarrow> k \<notin> set (mkeys m)"
  by (simp add: mkeys_def map_of_eq_None_iff)

lemma mkeys_mdel: "mkeys (mdel k m) = removeAll k (mkeys m)"
  by (simp add: mkeys_def mdel_def delete_keys)

lemma mkeys_mput: "mkeys (mput k v m) = (if k \<in> set (mkeys m) then mkeys m else mkeys m @ [k])"
  by (simp add: mkeys_def mput_def update_keys)

lemma mwf_card: "mwf m \<Longrightarrow> card (dom (mget m)) = length m"
  using distinct_card [of "map fst m"] by (simp add: mwf_def dom_map_of_conv_image_fst)

lemma mget_mem: "mwf m \<Longrightarrow> (k, v) \<in> set m \<longleftrightarrow> mget m k = Some v"
  by (simp add: mwf_def)

lemma mget_SomeD: "mget m k = Some v \<Longrightarrow> k \<in> set (mkeys m)"
  by (metis mget_None_iff option.distinct(1))

lemma mdel_absent: "k \<notin> set (mkeys m) \<Longrightarrow> mdel k m = m"
  by (simp add: mdel_def mkeys_def delete_idem)

lemma mput_same: "mget m k = Some v \<Longrightarrow> mput k v m = m"
  by (simp add: mput_def update_triv)

lemma mput_mput: "mput k v (mput k w m) = mput k v m"
  by (simp add: mput_def update_last)

lemma set_mkeys_mput: "set (mkeys (mput k v m)) = insert k (set (mkeys m))"
  by (auto simp: mkeys_mput)

lemma set_mkeys_mdel: "set (mkeys (mdel k m)) = set (mkeys m) - {k}"
  by (auto simp: mkeys_mdel)

section \<open>Lists\<close>

lemma distinct_concat_nth:
  assumes "\<And>i. i < length xss \<Longrightarrow> distinct (xss ! i)"
    "\<And>i j. i < j \<Longrightarrow> j < length xss \<Longrightarrow> set (xss ! i) \<inter> set (xss ! j) = {}"
  shows "distinct (concat xss)"
  using assms
proof (induction xss)
  case (Cons xs xss)
  have "distinct xs" using Cons.prems(1) [of 0] by simp
  moreover have "set xs \<inter> set ys = {}" if "ys \<in> set xss" for ys
  proof -
    from that obtain j where "j < length xss" "ys = xss ! j" by (auto simp: in_set_conv_nth)
    with Cons.prems(2) [of 0 "Suc j"] show ?thesis by simp
  qed
  moreover have "distinct (concat xss)"
    using Cons.prems(1) [of "Suc _"] Cons.prems(2) [of "Suc _" "Suc _"] by (intro Cons.IH) simp_all
  ultimately show ?case by auto
qed simp

lemma sum_list_lengths: "(\<Sum>xs \<leftarrow> xss. int (length xs)) = int (length (concat xss))"
  by (induction xss) simp_all

section \<open>The key-value contract\<close>

text \<open>
  The contract of a keyed container: what a lookup returns after an insertion or a deletion,
  under an invariant that both keep. Go maps satisfy it, and so does the sharded dictionary
  of the object store; what follows from the contract alone is proved once, here.
\<close>

locale kv_store =
  fixes lookup :: "'s \<Rightarrow> 'k \<Rightarrow> 'v option"
    and insert_kv :: "'k \<Rightarrow> 'v \<Rightarrow> 's \<Rightarrow> 's"
    and delete_kv :: "'k \<Rightarrow> 's \<Rightarrow> 's"
    and ok :: "'s \<Rightarrow> bool"
  assumes lookup_insert: "ok s \<Longrightarrow> lookup (insert_kv k v s) k' = (if k' = k then Some v else lookup s k')"
    and lookup_delete: "ok s \<Longrightarrow> lookup (delete_kv k s) k' = (if k' = k then None else lookup s k')"
    and inv_insert: "ok s \<Longrightarrow> ok (insert_kv k v s)"
    and inv_delete: "ok s \<Longrightarrow> ok (delete_kv k s)"
begin

lemma inv_insert_all: "ok s \<Longrightarrow> ok (fold (\<lambda>(k, v). insert_kv k v) kvs s)"
  by (induction kvs arbitrary: s) (auto simp: inv_insert)

lemma lookup_insert_all:
  "ok s \<Longrightarrow>
     lookup (fold (\<lambda>(k, v). insert_kv k v) kvs s) k =
     (case map_of (rev kvs) k of None \<Rightarrow> lookup s k | Some v \<Rightarrow> Some v)"
proof (induction kvs arbitrary: s)
  case (Cons kv kvs)
  obtain k' v' where "kv = (k', v')" by (cases kv)
  with Cons.IH [of "insert_kv k' v' s"] Cons.prems show ?case
    by (simp add: lookup_insert inv_insert map_add_def split: option.splits)
qed simp

lemma inv_delete_all: "ok s \<Longrightarrow> ok (fold delete_kv ks s)"
  by (induction ks arbitrary: s) (simp_all add: inv_delete)

lemma lookup_delete_all:
  "ok s \<Longrightarrow> lookup (fold delete_kv ks s) k = (if k \<in> set ks then None else lookup s k)"
  by (induction ks arbitrary: s) (simp_all add: inv_delete lookup_delete)

end

interpretation gm: kv_store mget mput mdel mwf
  by unfold_locales (simp_all add: go_map)

end
