(* ===== verification/RingBuf.thy ===== *)
theory RingBuf
  imports Prelude
begin

text \<open>
  The ring buffer of a cache shard, \<^verbatim>\<open>internal/engine/memory/ringbuf.go\<close>: the 24-byte entry
  header and its little-endian encoding, the append with eviction, the in-place update and
  the reads. \<open>MarshalTo\<close> and the slice expressions panic (\<open>None\<close>) on a buffer that is too
  short; the lemmas show that no operation does on a buffer that satisfies \<open>ring_inv\<close>.

  The second half relates the buffer to a log of entries: \<open>ring_log\<close> says that the bytes
  between head and tail are the entries of a list, oldest first.
\<close>

section \<open>Model\<close>

definition headerSize :: int where
  "headerSize = 24"

definition minRingBufferSize :: int where
  "minRingBufferSize = 2 ^ 20"

record EvictedEntry =
  ev_Hash :: "64 word"
  ev_Offset :: int

record EntryHeader =
  eh_ExpireAt :: int
  eh_Hash64 :: "64 word"
  eh_KeyLen :: "16 word"
  eh_ValLen :: "16 word"
  eh_ValCap :: "16 word"
  eh_Flags :: "16 word"

text \<open>The entry types, an \<^verbatim>\<open>iota\<close> block of \<^verbatim>\<open>uint16\<close> constants; only the first is used.\<close>

definition EntryTypeString :: "16 word" where
  "EntryTypeString = 0"

text \<open>\<^verbatim>\<open>binary.LittleEndian\<close>: the low byte first.\<close>

fun put_le :: "nat \<Rightarrow> nat \<Rightarrow> string" where
  "put_le 0 v = []"
| "put_le (Suc n) v = char_of (v mod 256) # put_le n (v div 256)"

fun get_le :: "string \<Rightarrow> nat" where
  "get_le [] = 0"
| "get_le (c # cs) = of_char c + 256 * get_le cs"

definition header_bytes :: "EntryHeader \<Rightarrow> string" where
  "header_bytes h =
     put_le 8 (unat (word_of_int (eh_ExpireAt h) :: 64 word)) @
     put_le 8 (unat (eh_Hash64 h)) @
     put_le 2 (unat (eh_KeyLen h)) @
     put_le 2 (unat (eh_ValLen h)) @
     put_le 2 (unat (eh_ValCap h)) @
     put_le 2 (unat (eh_Flags h))"

definition MarshalTo :: "EntryHeader \<Rightarrow> string \<Rightarrow> string go" where
  "MarshalTo h buf = (if length buf < 24 then None else Some (header_bytes h @ drop 24 buf))"

definition UnmarshalFrom :: "string \<Rightarrow> EntryHeader go" where
  "UnmarshalFrom buf =
     (if length buf < 24 then None
      else Some \<lparr> eh_ExpireAt = sint (of_nat (get_le (take 8 buf)) :: 64 word),
                  eh_Hash64 = of_nat (get_le (take 8 (drop 8 buf))),
                  eh_KeyLen = of_nat (get_le (take 2 (drop 16 buf))),
                  eh_ValLen = of_nat (get_le (take 2 (drop 18 buf))),
                  eh_ValCap = of_nat (get_le (take 2 (drop 20 buf))),
                  eh_Flags = of_nat (get_le (take 2 (drop 22 buf))) \<rparr>)"

record RingBuffer =
  rb_data :: string
  rb_capacity :: int
  rb_tail :: int
  rb_head :: int
  rb_used :: int
  rb_writeCount :: int
  rb_evictCount :: int

definition NewRingBuffer :: "int \<Rightarrow> RingBuffer" where
  "NewRingBuffer c =
     (let c' = (if c < minRingBufferSize then minRingBufferSize else c)
      in \<lparr> rb_data = replicate (nat c') (char_of (0::nat)), rb_capacity = c', rb_tail = 0, rb_head = 0,
           rb_used = 0, rb_writeCount = 0, rb_evictCount = 0 \<rparr>)"

definition headerEntrySize :: "EntryHeader \<Rightarrow> int" where
  "headerEntrySize h = headerSize + uint (eh_KeyLen h) + uint (eh_ValLen h)"

definition readHeaderAt :: "RingBuffer \<Rightarrow> int \<Rightarrow> EntryHeader res go" where
  "readHeaderAt rb offset =
     (if offset < 0 \<or> offset + headerSize > rb_capacity rb then Some (Inl ErrInvalidOffset)
      else do { buf \<leftarrow> slice_from (rb_data rb) offset;
                h \<leftarrow> UnmarshalFrom buf;
                Some (Inr h) })"

text \<open>The three stores of an entry: header, key and value, at \<^verbatim>\<open>offset\<close>.\<close>

definition writeEntryAt :: "string \<Rightarrow> int \<Rightarrow> EntryHeader \<Rightarrow> string \<Rightarrow> string \<Rightarrow> string go" where
  "writeEntryAt d offset h key val =
     do { buf \<leftarrow> slice_from d offset;
          buf' \<leftarrow> MarshalTo h buf;
          d1 \<leftarrow> copy_at d offset buf';
          d2 \<leftarrow> copy_at d1 (offset + headerSize) key;
          copy_at d2 (offset + headerSize + int (length key)) val }"

definition UpdateInPlace ::
    "RingBuffer \<Rightarrow> int \<Rightarrow> EntryHeader \<Rightarrow> string \<Rightarrow> string \<Rightarrow> (RingBuffer \<times> bool) go" where
  "UpdateInPlace rb offset h key val =
     (let newSize = headerSize + int (length key) + int (length val)
      in if offset < 0 \<or> offset + headerSize > rb_capacity rb then Some (rb, False)
         else do { buf \<leftarrow> slice_from (rb_data rb) offset;
                   oldHeader \<leftarrow> UnmarshalFrom buf;
                   if newSize > headerEntrySize oldHeader then Some (rb, False)
                   else do { d \<leftarrow> writeEntryAt (rb_data rb) offset h key val;
                             Some (rb\<lparr> rb_data := d, rb_writeCount := i64 (rb_writeCount rb + 1) \<rparr>,
                                   True) } })"

text \<open>
  The positions an append works on before it publishes them, \<^verbatim>\<open>head\<close>, \<^verbatim>\<open>tail\<close>, \<^verbatim>\<open>used\<close>, with
  the entries evicted so far and the eviction counter. \<open>evictStep\<close> is the common body of the
  two loops: it reads the header at \<^verbatim>\<open>head\<close> and drops that entry; \<open>Inl\<close> is the reset and the
  \<^verbatim>\<open>break\<close>, \<open>Inr\<close> the next iteration.
\<close>

record ring_pos =
  rp_head :: int
  rp_tail :: int
  rp_used :: int
  rp_evicted :: "EvictedEntry list"
  rp_evictCount :: int

definition evictReset :: "ring_pos \<Rightarrow> ring_pos" where
  "evictReset p = p\<lparr> rp_head := 0, rp_tail := 0, rp_used := 0, rp_evicted := [] \<rparr>"

definition evictStep :: "RingBuffer \<Rightarrow> ring_pos \<Rightarrow> (ring_pos + ring_pos) go" where
  "evictStep rb p =
     do { r \<leftarrow> readHeaderAt rb (rp_head p);
          case r of
            Inl _ \<Rightarrow> Some (Inl (evictReset p))
          | Inr h \<Rightarrow>
              (let itemSize = headerEntrySize h;
                   head' = rp_head p + itemSize
               in if itemSize \<le> 0 \<or> itemSize > rb_capacity rb then Some (Inl (evictReset p))
                  else Some (Inr (p\<lparr>
                    rp_evicted := rp_evicted p @ [\<lparr> ev_Hash = eh_Hash64 h, ev_Offset = rp_head p \<rparr>],
                    rp_head := (if head' \<ge> rb_capacity rb then 0 else head'),
                    rp_used := rp_used p - itemSize,
                    rp_evictCount := i64 (rp_evictCount p + 1) \<rparr>))) }"

lemma headerEntrySize_bounds: "24 \<le> headerEntrySize h" "headerEntrySize h \<le> 131094"
proof -
  have "0 \<le> uint (eh_KeyLen h)" "0 \<le> uint (eh_ValLen h)"
    by simp_all
  moreover have "uint (eh_KeyLen h) < 2 ^ 16" "uint (eh_ValLen h) < 2 ^ 16"
    using uint_lt2p [of "eh_KeyLen h"] uint_lt2p [of "eh_ValLen h"] by simp_all
  ultimately show "24 \<le> headerEntrySize h" "headerEntrySize h \<le> 131094"
    by (simp_all add: headerEntrySize_def headerSize_def)
qed

lemma evictStep_cases:
  assumes "evictStep rb p = Some r"
  obtains (reset) "r = Inl (evictReset p)"
  | (drop) h where "readHeaderAt rb (rp_head p) = Some (Inr h)"
      "headerEntrySize h \<le> rb_capacity rb"
      "r = Inr (p\<lparr> rp_evicted := rp_evicted p @ [\<lparr> ev_Hash = eh_Hash64 h, ev_Offset = rp_head p \<rparr>],
                  rp_head := (if rp_head p + headerEntrySize h \<ge> rb_capacity rb then 0
                              else rp_head p + headerEntrySize h),
                  rp_used := rp_used p - headerEntrySize h,
                  rp_evictCount := i64 (rp_evictCount p + 1) \<rparr>)"
  using assms
  by (auto simp: evictStep_def Let_def split: Option.bind_splits sum.splits if_splits)

lemma evictStep_used:
  assumes "evictStep rb p = Some (Inr q)"
  shows "rp_used q \<le> rp_used p - 24"
  using assms
proof (cases rule: evictStep_cases)
  case (drop h)
  then show ?thesis using headerEntrySize_bounds(1) [of h] by simp
qed simp

function evictForSpace :: "RingBuffer \<Rightarrow> int \<Rightarrow> ring_pos \<Rightarrow> ring_pos go" where
  "evictForSpace rb entrySize p =
     (if entrySize > rb_capacity rb - rp_used p
      then case evictStep rb p of
             None \<Rightarrow> None
           | Some (Inl q) \<Rightarrow> Some q
           | Some (Inr q) \<Rightarrow> evictForSpace rb entrySize q
      else Some p)"
  by pat_completeness auto
termination
  by (relation "measure (\<lambda>(rb, entrySize, p). nat (rp_used p + entrySize - rb_capacity rb))")
    (auto dest: evictStep_used)

function evictForWrap :: "RingBuffer \<Rightarrow> int \<Rightarrow> ring_pos \<Rightarrow> ring_pos go" where
  "evictForWrap rb entrySize p =
     (if rp_used p > 0 \<and> entrySize > rp_head p
      then case evictStep rb p of
             None \<Rightarrow> None
           | Some (Inl q) \<Rightarrow> Some q
           | Some (Inr q) \<Rightarrow> evictForWrap rb entrySize q
      else Some p)"
  by pat_completeness auto
termination
  by (relation "measure (\<lambda>(rb, entrySize, p). nat (rp_used p))") (auto dest: evictStep_used)

declare evictForSpace.simps [simp del] evictForWrap.simps [simp del]

text \<open>Code equations that evaluate the loop body only when the loop is entered.\<close>

lemma evictForSpace_code [code]:
  "evictForSpace rb n p =
     (case n > rb_capacity rb - rp_used p of
        True \<Rightarrow> (case evictStep rb p of
                   None \<Rightarrow> None
                 | Some (Inl q) \<Rightarrow> Some q
                 | Some (Inr q) \<Rightarrow> evictForSpace rb n q)
      | False \<Rightarrow> Some p)"
  by (simp add: evictForSpace.simps [of rb n p])

lemma evictForWrap_code [code]:
  "evictForWrap rb n p =
     (case rp_used p > 0 \<and> n > rp_head p of
        True \<Rightarrow> (case evictStep rb p of
                   None \<Rightarrow> None
                 | Some (Inl q) \<Rightarrow> Some q
                 | Some (Inr q) \<Rightarrow> evictForWrap rb n q)
      | False \<Rightarrow> Some p)"
  by (auto simp: evictForWrap.simps [of rb n p])

definition WriteWithEvict ::
    "RingBuffer \<Rightarrow> EntryHeader \<Rightarrow> string \<Rightarrow> string \<Rightarrow>
       (RingBuffer \<times> (int \<times> EvictedEntry list) res) go" where
  "WriteWithEvict rb h key val =
     (let entrySize = headerSize + int (length key) + int (length val)
      in if entrySize > rb_capacity rb then Some (rb, Inl ErrEntryTooLarge)
         else do {
           p1 \<leftarrow> evictForSpace rb entrySize
                  \<lparr> rp_head = rb_head rb, rp_tail = rb_tail rb, rp_used = rb_used rb,
                    rp_evicted = [], rp_evictCount = rb_evictCount rb \<rparr>;
           p2 \<leftarrow> (if rp_tail p1 + entrySize > rb_capacity rb
                   then evictForWrap rb entrySize (p1\<lparr> rp_tail := 0 \<rparr>)
                   else Some p1);
           d \<leftarrow> writeEntryAt (rb_data rb) (rp_tail p2) h key val;
           Some (rb\<lparr> rb_data := d, rb_head := rp_head p2, rb_tail := rp_tail p2 + entrySize,
                     rb_used := rp_used p2 + entrySize,
                     rb_writeCount := i64 (rb_writeCount rb + 1),
                     rb_evictCount := rp_evictCount p2 \<rparr>,
                 Inr (rp_tail p2, rp_evicted p2)) })"

definition Write :: "RingBuffer \<Rightarrow> EntryHeader \<Rightarrow> string \<Rightarrow> string \<Rightarrow> (RingBuffer \<times> int res) go" where
  "Write rb h key val =
     do { (rb', r) \<leftarrow> WriteWithEvict rb h key val;
          Some (rb', map_sum id fst r) }"

definition ReadAt :: "RingBuffer \<Rightarrow> int \<Rightarrow> (string \<times> string \<times> EntryHeader) res go" where
  "ReadAt rb offset =
     (if offset < 0 \<or> offset + headerSize > rb_capacity rb then Some (Inl ErrInvalidOffset)
      else do { buf \<leftarrow> slice_from (rb_data rb) offset;
                h \<leftarrow> UnmarshalFrom buf;
                let keyStart = offset + headerSize;
                    keyEnd = keyStart + uint (eh_KeyLen h);
                    valEnd = keyEnd + uint (eh_ValLen h)
                in if valEnd > rb_capacity rb then Some (Inl ErrInvalidOffset)
                   else do { k \<leftarrow> slice_from (rb_data rb) keyStart;
                             v \<leftarrow> slice_from (rb_data rb) keyEnd;
                             Some (Inr (take (unat (eh_KeyLen h)) k,
                                        take (unat (eh_ValLen h)) v, h)) } })"

text \<open>The copies of \<^verbatim>\<open>ReadAtCopy\<close> are equal to the views of \<^verbatim>\<open>ReadAt\<close>.\<close>

definition ReadAtCopy :: "RingBuffer \<Rightarrow> int \<Rightarrow> (string \<times> string \<times> EntryHeader) res go" where
  "ReadAtCopy rb offset =
     do { r \<leftarrow> ReadAt rb offset;
          case r of Inl e \<Rightarrow> Some (Inl e) | Inr (k, v, h) \<Rightarrow> Some (Inr (k, v, h)) }"

definition Reset :: "RingBuffer \<Rightarrow> RingBuffer" where
  "Reset rb = rb\<lparr> rb_tail := 0, rb_head := 0, rb_used := 0,
                   rb_writeCount := 0, rb_evictCount := 0 \<rparr>"

definition rb_Stats :: "RingBuffer \<Rightarrow> int \<times> int" where
  "rb_Stats rb = (rb_writeCount rb, rb_evictCount rb)"


section \<open>The header encoding\<close>

lemma length_put_le [simp]: "length (put_le n v) = n"
  by (induction n arbitrary: v) simp_all

lemma get_le_put_le: "get_le (put_le n v) = v mod 256 ^ n"
proof (induction n arbitrary: v)
  case (Suc n)
  have "get_le (put_le (Suc n) v) = v mod 256 + 256 * (v div 256 mod 256 ^ n)"
    by (simp add: Suc.IH)
  also have "\<dots> = v mod 256 ^ Suc n"
    by (simp add: mod_mult2_eq mult.commute)
  finally show ?case .
qed simp

lemma get_le_put_le_8 [simp]: "get_le (put_le 8 (unat (w :: 64 word))) = unat w"
proof -
  have "unat w < 256 ^ 8" by (rule less_le_trans [OF unsigned_less]) simp
  then show ?thesis by (simp add: get_le_put_le)
qed

lemma get_le_put_le_2 [simp]: "get_le (put_le 2 (unat (w :: 16 word))) = unat w"
proof -
  have "unat w < 256 ^ 2" by (rule less_le_trans [OF unsigned_less]) simp
  then show ?thesis by (simp add: get_le_put_le)
qed

lemma length_header_bytes [simp]: "length (header_bytes h) = 24"
  by (simp add: header_bytes_def)

lemma UnmarshalFrom_header_bytes:
  assumes "is_i64 (eh_ExpireAt h)"
  shows "UnmarshalFrom (header_bytes h @ rest) = Some h"
proof -
  let ?b = "header_bytes h @ rest"
  have "take 8 ?b = put_le 8 (unat (word_of_int (eh_ExpireAt h) :: 64 word))"
    "take 8 (drop 8 ?b) = put_le 8 (unat (eh_Hash64 h))"
    "take 2 (drop 16 ?b) = put_le 2 (unat (eh_KeyLen h))"
    "take 2 (drop 18 ?b) = put_le 2 (unat (eh_ValLen h))"
    "take 2 (drop 20 ?b) = put_le 2 (unat (eh_ValCap h))"
    "take 2 (drop 22 ?b) = put_le 2 (unat (eh_Flags h))"
    by (simp_all add: header_bytes_def)
  with assms show ?thesis by (simp add: UnmarshalFrom_def)
qed

lemma UnmarshalFrom_eq_Some: "24 \<le> length buf \<Longrightarrow> \<exists>h. UnmarshalFrom buf = Some h"
  by (simp add: UnmarshalFrom_def)

section \<open>Entries in the buffer\<close>

type_synonym entry = "EntryHeader \<times> string \<times> string"

definition entry_bytes :: "EntryHeader \<Rightarrow> string \<Rightarrow> string \<Rightarrow> string" where
  "entry_bytes h k v = header_bytes h @ k @ v"

definition esize :: "string \<Rightarrow> string \<Rightarrow> int" where
  "esize k v = 24 + int (length k) + int (length v)"

text \<open>A header that describes its key and value, as every caller of the append builds it,
  when both are shorter than \<open>2 ^ 16\<close> bytes.\<close>

definition entry_wf :: "EntryHeader \<Rightarrow> string \<Rightarrow> string \<Rightarrow> bool" where
  "entry_wf h k v \<longleftrightarrow>
     is_i64 (eh_ExpireAt h) \<and> length k < 65536 \<and> length v < 65536 \<and>
     eh_KeyLen h = of_nat (length k) \<and> eh_ValLen h = of_nat (length v)"

definition holds :: "string \<Rightarrow> int \<Rightarrow> EntryHeader \<Rightarrow> string \<Rightarrow> string \<Rightarrow> bool" where
  "holds d off h k v \<longleftrightarrow>
     0 \<le> off \<and> off + esize k v \<le> int (length d) \<and>
     take (nat (esize k v)) (drop (nat off) d) = entry_bytes h k v"

lemma length_entry_bytes [simp]: "length (entry_bytes h k v) = nat (esize k v)"
  by (simp add: entry_bytes_def esize_def)

lemma esize_ge [simp]: "24 \<le> esize k v"
  by (simp add: esize_def)

lemma esize_nonneg [simp]: "0 \<le> esize k v"
  by (simp add: esize_def)

lemma entry_wf_lens:
  assumes "entry_wf h k v"
  shows "uint (eh_KeyLen h) = int (length k)" "uint (eh_ValLen h) = int (length v)"
    "unat (eh_KeyLen h) = length k" "unat (eh_ValLen h) = length v"
    "headerEntrySize h = esize k v"
  using assms
  by (simp_all add: entry_wf_def headerEntrySize_def headerSize_def esize_def
      unsigned_of_nat take_bit_nat_eq_self take_bit_int_eq_self)

lemma holdsE:
  assumes "holds d off h k v"
  obtains a c where "d = a @ header_bytes h @ k @ v @ c" "length a = nat off"
proof
  let ?n = "nat (esize k v)"
  have "d = take (nat off) d @ take ?n (drop (nat off) d) @ drop ?n (drop (nat off) d)"
    by (simp only: append_take_drop_id)
  also have "take ?n (drop (nat off) d) = header_bytes h @ k @ v"
    using assms by (simp add: holds_def entry_bytes_def)
  finally show "d = take (nat off) d @ header_bytes h @ k @ v @ drop ?n (drop (nat off) d)"
    by simp
  show "length (take (nat off) d) = nat off"
    using assms by (auto simp: holds_def esize_def min_def)
qed

lemma readHeaderAt_holds:
  assumes "holds (rb_data rb) off h k v" "is_i64 (eh_ExpireAt h)"
    "rb_capacity rb = int (length (rb_data rb))"
  shows "readHeaderAt rb off = Some (Inr h)"
proof -
  from assms(1) obtain a c
    where "rb_data rb = a @ header_bytes h @ k @ v @ c" "length a = nat off"
    by (rule holdsE)
  then have "drop (nat off) (rb_data rb) = header_bytes h @ (k @ v @ c)"
    by simp
  with assms show ?thesis
    by (simp add: readHeaderAt_def holds_def esize_def headerSize_def UnmarshalFrom_header_bytes)
qed

lemma ReadAt_prefix:
  assumes "holds (rb_data rb) off h k v" "rb_capacity rb = int (length (rb_data rb))"
    "is_i64 (eh_ExpireAt h)" "unat (eh_KeyLen h) = length k" "unat (eh_ValLen h) \<le> length v"
  shows "ReadAt rb off = Some (Inr (k, take (unat (eh_ValLen h)) v, h))"
proof -
  from assms(1) obtain a c
    where d: "rb_data rb = a @ header_bytes h @ k @ v @ c" "length a = nat off"
    by (rule holdsE)
  have off: "0 \<le> off" "off + esize k v \<le> rb_capacity rb"
    using assms(1,2) by (simp_all add: holds_def)
  have lens: "uint (eh_KeyLen h) = int (length k)" "uint (eh_ValLen h) \<le> int (length v)"
    using assms(4,5) uint_ge_0 [of "eh_KeyLen h"] uint_ge_0 [of "eh_ValLen h"]
    unfolding unat_eq_nat_uint by linarith+
  have 1: "drop (nat off) (rb_data rb) = header_bytes h @ (k @ v @ c)"
    using d by simp
  have 2: "take (length k) (drop (nat (off + 24)) (rb_data rb)) = k"
    using d off by (simp add: nat_add_distrib)
  have 3: "take (unat (eh_ValLen h)) (drop (nat (off + 24 + int (length k))) (rb_data rb)) =
      take (unat (eh_ValLen h)) v"
    using d off assms(5) by (simp add: nat_add_distrib)
  have 4: "\<not> off + 24 + int (length k) + uint (eh_ValLen h) > rb_capacity rb"
    "\<not> off + 24 > rb_capacity rb" "off + 24 + int (length k) \<le> int (length (rb_data rb))"
    using off lens(2) assms(2) by (simp_all add: esize_def)
  show ?thesis
    using assms(2-4) off lens(1) 1 2 3 4
    by (simp add: ReadAt_def headerSize_def UnmarshalFrom_header_bytes)
qed

lemma ReadAt_holds:
  assumes "holds (rb_data rb) off h k v" "entry_wf h k v"
    "rb_capacity rb = int (length (rb_data rb))"
  shows "ReadAt rb off = Some (Inr (k, v, h))"
  using ReadAt_prefix [OF assms(1,3)] assms(2) entry_wf_lens(3,4) [OF assms(2)]
  by (simp add: entry_wf_def)

lemma ReadAtCopy_eq: "ReadAtCopy rb off = ReadAt rb off"
  by (auto simp: ReadAtCopy_def split: Option.bind_splits sum.splits)

lemma writeEntryAt_head:
  assumes "0 \<le> off" "off + 24 + int (length k) \<le> int (length d)"
  shows "writeEntryAt d off h k v =
    copy_at (take (nat off) d @ header_bytes h @ k @ drop (24 + nat off + length k) d)
      (off + headerSize + int (length k)) v"
proof -
  let ?n = "nat off"
  have n: "?n \<le> length d" "?n + 24 + length k \<le> length d"
    using assms by simp_all
  have 1: "slice_from d off = Some (drop ?n d)"
    using assms by simp
  have 2: "MarshalTo h (drop ?n d) = Some (header_bytes h @ drop (24 + ?n) d)"
    using n by (simp add: MarshalTo_def)
  have 3: "copy_at d off (header_bytes h @ drop (24 + ?n) d) =
      Some (take ?n d @ header_bytes h @ drop (24 + ?n) d)"
    using assms n by (simp add: copy_at_def)
  have 4: "copy_at (take ?n d @ header_bytes h @ drop (24 + ?n) d) (off + headerSize) k =
      Some (take ?n d @ header_bytes h @ k @ drop (24 + ?n + length k) d)"
    using assms n by (subst copy_at_fits)
      (simp_all add: headerSize_def nat_add_distrib add.commute add.left_commute)
  show ?thesis by (simp add: writeEntryAt_def 1 2 3 4)
qed

lemma writeEntryAt_fits:
  assumes "0 \<le> off" "off + esize k v \<le> int (length d)"
  shows "writeEntryAt d off h k v =
    Some (take (nat off) d @ entry_bytes h k v @ drop (nat (off + esize k v)) d)"
proof -
  let ?n = "nat off"
  have n: "?n + 24 + length k + length v \<le> length d" "off + 24 + int (length k) \<le> int (length d)"
    using assms by (simp_all add: esize_def)
  have "copy_at (take ?n d @ header_bytes h @ k @ drop (24 + ?n + length k) d)
        (off + headerSize + int (length k)) v =
      Some (take ?n d @ header_bytes h @ k @ v @ drop (24 + ?n + length k + length v) d)"
    using assms n by (subst copy_at_fits)
      (simp_all add: headerSize_def esize_def nat_add_distrib add.commute add.left_commute)
  moreover have "nat (off + esize k v) = 24 + ?n + length k + length v"
    using assms(1) by (simp add: esize_def nat_add_distrib)
  ultimately show ?thesis
    by (simp add: writeEntryAt_head [OF assms(1) n(2)] entry_bytes_def)
qed

text \<open>A value that runs past the end of the buffer is cut there.\<close>

lemma writeEntryAt_cut:
  assumes "0 \<le> off" "off + 24 + int (length k) \<le> int (length d)" "int (length d) < off + esize k v"
  shows "\<exists>v'. writeEntryAt d off h k v = Some (take (nat off) d @ header_bytes h @ k @ v') \<and>
    length v' = length d - (nat off + 24 + length k)"
proof -
  let ?n = "nat off"
  have n: "?n + 24 + length k \<le> length d" "length d - (?n + 24 + length k) \<le> length v"
    using assms by (simp_all add: esize_def)
  have "nat (off + headerSize + int (length k)) = ?n + 24 + length k"
    using assms(1) by (simp add: headerSize_def nat_add_distrib)
  then show ?thesis
    using assms n
    by (intro exI [of _ "take (length d - (?n + 24 + length k)) v"])
      (simp add: writeEntryAt_head copy_at_def headerSize_def min_absorb2 add.commute add.left_commute)
qed

text \<open>What a store of an entry does to the other entries: nothing, when the regions are
  disjoint.\<close>

lemma holds_writeEntryAt_same:
  assumes "writeEntryAt d off h k v = Some d'" "0 \<le> off" "off + esize k v \<le> int (length d)"
  shows "holds d' off h k v"
proof -
  have "min (length d) (nat off) = nat off"
    using assms(2,3) esize_nonneg [of k v] by linarith
  with assms show ?thesis by (auto simp: writeEntryAt_fits holds_def)
qed

lemma holds_writeEntryAt_other:
  assumes w: "writeEntryAt d off h k v = Some d'" "0 \<le> off" "off + esize k v \<le> int (length d)"
    and o: "holds d off' h' k' v'"
    and disj: "off + esize k v \<le> off' \<or> off' + esize k' v' \<le> off"
  shows "holds d' off' h' k' v'"
proof -
  from w have d': "d' = take (nat off) d @ entry_bytes h k v @ drop (nat (off + esize k v)) d"
    by (simp add: writeEntryAt_fits)
  from w d' have len: "length d' = length d"
    by (simp add: nat_add_distrib)
  let ?n = "nat (esize k' v')"
  have "take ?n (drop (nat off') d') = take ?n (drop (nat off') d)"
  proof (rule nth_equalityI)
    show "length (take ?n (drop (nat off') d')) = length (take ?n (drop (nat off') d))"
      by (simp add: len)
  next
    fix i assume "i < length (take ?n (drop (nat off') d'))"
    then have i: "i < ?n" "nat off' + i < length d" by (auto simp: len)
    let ?x = "nat off' + i" and ?m = "nat off + nat (esize k v)"
    have m: "?m \<le> length d" "nat (off + esize k v) = ?m"
      using w(2,3) esize_nonneg [of k v] by (linarith, simp add: nat_add_distrib)
    from disj have "d' ! ?x = d ! ?x"
    proof
      assume "off + esize k v \<le> off'"
      then have "?m \<le> ?x" using w(2) esize_nonneg [of k v] by linarith
      with m show ?thesis by (auto simp: d' nth_append)
    next
      assume "off' + esize k' v' \<le> off"
      then have "?x < nat off" using o i(1) by (simp add: holds_def) linarith
      with m show ?thesis by (simp add: d' nth_append)
    qed
    with i show "take ?n (drop (nat off') d') ! i = take ?n (drop (nat off') d) ! i"
      by (simp add: len)
  qed
  with o show ?thesis by (simp add: holds_def len)
qed

section \<open>The invariant of the buffer\<close>

definition ring_inv :: "RingBuffer \<Rightarrow> bool" where
  "ring_inv rb \<longleftrightarrow>
     rb_capacity rb = int (length (rb_data rb)) \<and>
     0 \<le> rb_head rb \<and> rb_head rb \<le> rb_capacity rb \<and>
     0 \<le> rb_tail rb \<and> rb_tail rb \<le> rb_capacity rb \<and>
     - 131094 \<le> rb_used rb \<and> rb_used rb \<le> rb_capacity rb"

definition pos_inv :: "RingBuffer \<Rightarrow> ring_pos \<Rightarrow> bool" where
  "pos_inv rb p \<longleftrightarrow>
     0 \<le> rp_head p \<and> rp_head p \<le> rb_capacity rb \<and>
     0 \<le> rp_tail p \<and> rp_tail p \<le> rb_capacity rb \<and>
     - 131094 \<le> rp_used p \<and> rp_used p \<le> rb_capacity rb"

lemma readHeaderAt_total:
  assumes "rb_capacity rb = int (length (rb_data rb))"
  shows "\<exists>r. readHeaderAt rb off = Some r"
proof (cases "off < 0 \<or> off + headerSize > rb_capacity rb")
  case True
  then show ?thesis by (auto simp: readHeaderAt_def)
next
  case False
  then have "0 \<le> off" "off + 24 \<le> int (length (rb_data rb))"
    using assms by (auto simp: headerSize_def)
  moreover from this obtain h where "UnmarshalFrom (drop (nat off) (rb_data rb)) = Some h"
    using UnmarshalFrom_eq_Some [of "drop (nat off) (rb_data rb)"] by force
  ultimately show ?thesis
    using False by (simp add: readHeaderAt_def)
qed

lemma evictStep_total:
  assumes "rb_capacity rb = int (length (rb_data rb))"
  shows "\<exists>r. evictStep rb p = Some r"
  using readHeaderAt_total [OF assms, of "rp_head p"]
  by (auto simp: evictStep_def Let_def split: sum.splits)

lemma evictStep_inv:
  assumes "evictStep rb p = Some r" "pos_inv rb p" "0 < rp_used p"
  shows "pos_inv rb (case r of Inl q \<Rightarrow> q | Inr q \<Rightarrow> q)"
  using assms(1)
proof (cases rule: evictStep_cases)
  case reset
  with assms(2) show ?thesis by (simp add: evictReset_def pos_inv_def)
next
  case (drop h)
  with assms(2,3) show ?thesis
    using headerEntrySize_bounds [of h] by (simp add: pos_inv_def)
qed

lemma evictForSpace_inv:
  assumes "rb_capacity rb = int (length (rb_data rb))" "pos_inv rb p"
    "0 \<le> n" "n \<le> rb_capacity rb"
  shows "\<exists>q. evictForSpace rb n p = Some q \<and> pos_inv rb q \<and> n \<le> rb_capacity rb - rp_used q"
  using assms
proof (induction rb n p rule: evictForSpace.induct)
  case (1 rb n p)
  show ?case
  proof (cases "n > rb_capacity rb - rp_used p")
    case True
    with "1.prems" have u: "0 < rp_used p" by simp
    obtain r where r: "evictStep rb p = Some r"
      using evictStep_total [OF "1.prems"(1)] by blast
    have inv: "pos_inv rb (case r of Inl q \<Rightarrow> q | Inr q \<Rightarrow> q)"
      by (rule evictStep_inv [OF r "1.prems"(2) u])
    show ?thesis
    proof (cases r)
      case (Inl q)
      with r have "q = evictReset p" by (auto elim: evictStep_cases)
      with Inl inv True r "1.prems" show ?thesis
        by (simp add: evictForSpace.simps [of rb n p] evictReset_def)
    next
      case (Inr q)
      with inv have "pos_inv rb q" by simp
      with "1.IH" [OF True r Inr] Inr True r "1.prems" show ?thesis
        by (simp add: evictForSpace.simps [of rb n p])
    qed
  next
    case False
    with "1.prems" show ?thesis by (simp add: evictForSpace.simps [of rb n p])
  qed
qed

lemma evictForWrap_inv:
  assumes "rb_capacity rb = int (length (rb_data rb))" "pos_inv rb p" "rp_tail p = 0"
  shows "\<exists>q. evictForWrap rb n p = Some q \<and> pos_inv rb q \<and> rp_tail q = 0 \<and>
    (rp_used q \<le> max 0 (rp_used p))"
  using assms
proof (induction rb n p rule: evictForWrap.induct)
  case (1 rb n p)
  show ?case
  proof (cases "rp_used p > 0 \<and> n > rp_head p")
    case True
    obtain r where r: "evictStep rb p = Some r"
      using evictStep_total [OF "1.prems"(1)] by blast
    have inv: "pos_inv rb (case r of Inl q \<Rightarrow> q | Inr q \<Rightarrow> q)"
      using True by (intro evictStep_inv [OF r "1.prems"(2)]) simp
    show ?thesis
    proof (cases r)
      case (Inl q)
      with r have "q = evictReset p" by (auto elim: evictStep_cases)
      with Inl inv True r "1.prems" show ?thesis
        by (simp add: evictForWrap.simps [of rb n p] evictReset_def)
    next
      case (Inr q)
      with r have "rp_tail q = rp_tail p" "rp_used q \<le> rp_used p - 24"
        by (auto elim: evictStep_cases dest: evictStep_used)
      with inv Inr "1.IH" [OF True r Inr] "1.prems" obtain q' where
        "evictForWrap rb n q = Some q'" "pos_inv rb q'" "rp_tail q' = 0"
        "rp_used q' \<le> max 0 (rp_used q)"
        by auto
      with Inr True r \<open>rp_used q \<le> _\<close> show ?thesis
        by (simp add: evictForWrap.simps [of rb n p] max_def split: if_splits)
    qed
  next
    case False
    with "1.prems" show ?thesis by (auto simp: evictForWrap.simps [of rb n p])
  qed
qed


text \<open>The append, opened: on a buffer that satisfies the invariant it never panics, it writes
  within the buffer, and it keeps the invariant.\<close>

lemma WriteWithEvict_ok:
  assumes inv: "ring_inv rb" and fits: "esize k v \<le> rb_capacity rb"
  obtains rb' off evs where
    "WriteWithEvict rb h k v = Some (rb', Inr (off, evs))"
    "ring_inv rb'" "rb_capacity rb' = rb_capacity rb"
    "0 \<le> off" "off + esize k v \<le> rb_capacity rb"
    "writeEntryAt (rb_data rb) off h k v = Some (rb_data rb')"
proof -
  let ?n = "esize k v"
  let ?p = "\<lparr> rp_head = rb_head rb, rp_tail = rb_tail rb, rp_used = rb_used rb,
              rp_evicted = [], rp_evictCount = rb_evictCount rb \<rparr>"
  have cap: "rb_capacity rb = int (length (rb_data rb))"
    and pinv: "pos_inv rb ?p"
    using inv by (simp_all add: ring_inv_def pos_inv_def)
  obtain p1 where p1: "evictForSpace rb ?n ?p = Some p1" "pos_inv rb p1"
    "?n \<le> rb_capacity rb - rp_used p1"
    using evictForSpace_inv [OF cap pinv _ fits] by auto
  obtain p2 where p2:
    "(if rp_tail p1 + ?n > rb_capacity rb then evictForWrap rb ?n (p1\<lparr> rp_tail := 0 \<rparr>)
      else Some p1) = Some p2"
    "pos_inv rb p2" "rp_tail p2 + ?n \<le> rb_capacity rb" "?n \<le> rb_capacity rb - rp_used p2"
  proof (cases "rp_tail p1 + ?n > rb_capacity rb")
    case True
    have "pos_inv rb (p1\<lparr> rp_tail := 0 \<rparr>)" using p1(2) by (simp add: pos_inv_def)
    from evictForWrap_inv [OF cap this, of ?n] obtain q where
      "evictForWrap rb ?n (p1\<lparr> rp_tail := 0 \<rparr>) = Some q" "pos_inv rb q" "rp_tail q = 0"
      "rp_used q \<le> max 0 (rp_used p1)"
      by auto
    with True fits p1(3) that show ?thesis by (simp add: max_def split: if_splits)
  next
    case False
    with p1 that show ?thesis by simp
  qed
  have tl: "0 \<le> rp_tail p2" using p2(2) by (simp add: pos_inv_def)
  from p2(3) cap obtain d where d: "writeEntryAt (rb_data rb) (rp_tail p2) h k v = Some d"
    "length d = length (rb_data rb)"
    using tl by (simp add: writeEntryAt_fits nat_add_distrib)
  let ?rb = "rb\<lparr> rb_data := d, rb_head := rp_head p2, rb_tail := rp_tail p2 + ?n,
                 rb_used := rp_used p2 + ?n, rb_writeCount := i64 (rb_writeCount rb + 1),
                 rb_evictCount := rp_evictCount p2 \<rparr>"
  have "WriteWithEvict rb h k v = Some (?rb, Inr (rp_tail p2, rp_evicted p2))"
    using fits p1(1) p2(1) d(1)
    by (simp add: WriteWithEvict_def Let_def headerSize_def esize_def [symmetric])
  moreover have "ring_inv ?rb"
    using p2(2,3,4) cap d(2)
    by (simp add: ring_inv_def pos_inv_def) (use esize_nonneg [of k v] in linarith)
  ultimately show thesis
    using that tl p2(3) d(1) by fastforce
qed

lemma WriteWithEvict_too_large:
  "esize k v > rb_capacity rb \<Longrightarrow> WriteWithEvict rb h k v = Some (rb, Inl ErrEntryTooLarge)"
  by (simp add: WriteWithEvict_def Let_def headerSize_def esize_def)

lemma ReadAt_total:
  assumes "ring_inv rb"
  shows "\<exists>r. ReadAt rb off = Some r"
proof (cases "off < 0 \<or> off + headerSize > rb_capacity rb")
  case True
  then show ?thesis by (auto simp: ReadAt_def)
next
  case False
  have cap: "rb_capacity rb = int (length (rb_data rb))" using assms by (simp add: ring_inv_def)
  with False have o: "0 \<le> off" "off + 24 \<le> int (length (rb_data rb))"
    by (auto simp: headerSize_def)
  then obtain h where h: "UnmarshalFrom (drop (nat off) (rb_data rb)) = Some h"
    using UnmarshalFrom_eq_Some [of "drop (nat off) (rb_data rb)"] by force
  have "slice_from (rb_data rb) (off + 24 + uint (eh_KeyLen h)) \<noteq> None"
    if "off + 24 + uint (eh_KeyLen h) + uint (eh_ValLen h) \<le> int (length (rb_data rb))"
    using that o
    by (simp add: slice_from_def)
      (use uint_ge_0 [of "eh_KeyLen h"] uint_ge_0 [of "eh_ValLen h"] in linarith)
  with False o h cap show ?thesis
    by (auto simp: ReadAt_def Let_def headerSize_def)
qed


lemma writeEntryAt_length:
  assumes "0 \<le> off" "off + 24 + int (length k) \<le> int (length d)"
  shows "\<exists>d'. writeEntryAt d off h k v = Some d' \<and> length d' = length d"
proof (cases "off + esize k v \<le> int (length d)")
  case True
  with assms show ?thesis by (simp add: writeEntryAt_fits nat_add_distrib)
next
  case False
  with writeEntryAt_cut [OF assms, of v h] assms show ?thesis by force
qed

lemma UpdateInPlace_ok:
  assumes inv: "ring_inv rb" and off: "0 \<le> off" "off + 24 + int (length k) \<le> rb_capacity rb"
  shows "UpdateInPlace rb off h k v = Some (rb, False) \<or>
    (\<exists>d. UpdateInPlace rb off h k v =
        Some (rb\<lparr> rb_data := d, rb_writeCount := i64 (rb_writeCount rb + 1) \<rparr>, True) \<and>
      writeEntryAt (rb_data rb) off h k v = Some d \<and> length d = length (rb_data rb))"
proof -
  have cap: "rb_capacity rb = int (length (rb_data rb))" using inv by (simp add: ring_inv_def)
  obtain d where d: "writeEntryAt (rb_data rb) off h k v = Some d" "length d = length (rb_data rb)"
    using writeEntryAt_length [OF off(1), of k "rb_data rb"] off(2) cap by auto
  obtain old where "UnmarshalFrom (drop (nat off) (rb_data rb)) = Some old"
    using UnmarshalFrom_eq_Some [of "drop (nat off) (rb_data rb)"] off cap by force
  with d off cap show ?thesis
    by (auto simp: UpdateInPlace_def Let_def headerSize_def)
qed

lemma ReadAt_cut:
  assumes "0 \<le> off" "off + 24 + int (length k) \<le> int (length d)" "int (length d) < off + esize k v"
    and "writeEntryAt d off h k v = Some d'" "entry_wf h k v"
    and "rb_capacity rb = int (length d)" "rb_data rb = d'"
  shows "ReadAt rb off = Some (Inl ErrInvalidOffset)"
proof -
  obtain v' where d': "d' = take (nat off) d @ header_bytes h @ k @ v'"
    "length v' = length d - (nat off + 24 + length k)"
    using writeEntryAt_cut [OF assms(1-3), of h] assms(4) by auto
  then have "drop (nat off) d' = header_bytes h @ (k @ v')" "length d' = length d"
    using assms(1,2) by simp_all
  with assms entry_wf_lens(1,2) [OF assms(5)] show ?thesis
    by (auto simp: ReadAt_def headerSize_def UnmarshalFrom_header_bytes entry_wf_def esize_def Let_def)
qed

section \<open>The buffer as a log of entries\<close>

text \<open>
  \<open>layout d pos es\<close>: the entries \<open>es\<close> lie in \<open>d\<close> one after the other from position \<open>pos\<close>.
  \<open>evs pos es\<close> are the eviction records of these entries. \<open>ring_log rb es\<close>: the live bytes
  of the buffer, from head to tail, are exactly \<open>es\<close>, oldest first.
\<close>

fun total :: "entry list \<Rightarrow> int" where
  "total [] = 0"
| "total ((h, k, v) # es) = esize k v + total es"

fun layout :: "string \<Rightarrow> int \<Rightarrow> entry list \<Rightarrow> bool" where
  "layout d pos [] = True"
| "layout d pos ((h, k, v) # es) =
     (holds d pos h k v \<and> entry_wf h k v \<and> layout d (pos + esize k v) es)"

fun evs :: "int \<Rightarrow> entry list \<Rightarrow> EvictedEntry list" where
  "evs pos [] = []"
| "evs pos ((h, k, v) # es) =
     \<lparr> ev_Hash = eh_Hash64 h, ev_Offset = pos \<rparr> # evs (pos + esize k v) es"

definition ring_log :: "RingBuffer \<Rightarrow> entry list \<Rightarrow> bool" where
  "ring_log rb es \<longleftrightarrow>
     layout (rb_data rb) (rb_head rb) es \<and>
     rb_used rb = total es \<and> rb_head rb + total es = rb_tail rb"

definition pos_log :: "RingBuffer \<Rightarrow> ring_pos \<Rightarrow> int \<Rightarrow> entry list \<Rightarrow> bool" where
  "pos_log rb p t es \<longleftrightarrow>
     layout (rb_data rb) (rp_head p) es \<and>
     rp_used p = total es \<and> (es \<noteq> [] \<longrightarrow> rp_head p + total es = t)"

lemma total_nonneg [simp]: "0 \<le> total es"
  by (induction es rule: total.induct) simp_all

lemma total_pos: "es \<noteq> [] \<Longrightarrow> 0 < total es"
proof (induction es rule: total.induct)
  case (2 h k v es)
  show ?case using esize_ge [of k v] total_nonneg [of es] by (simp del: esize_ge total_nonneg)
qed simp

lemma total_append [simp]: "total (es @ fs) = total es + total fs"
  by (induction es rule: total.induct) simp_all

lemma layout_append [simp]:
  "layout d pos (es @ fs) \<longleftrightarrow> layout d pos es \<and> layout d (pos + total es) fs"
  by (induction d pos es rule: layout.induct) (simp_all add: add.assoc)

lemma evs_append [simp]: "evs pos (es @ fs) = evs pos es @ evs (pos + total es) fs"
  by (induction pos es rule: evs.induct) (simp_all add: add.assoc)

lemma evictStep_log:
  assumes cap: "rb_capacity rb = int (length (rb_data rb))"
    and log: "pos_log rb p t ((h, k, v) # es)" and t: "t \<le> rb_capacity rb"
  shows "\<exists>q. evictStep rb p = Some (Inr q) \<and> pos_log rb q t es \<and> rp_tail q = rp_tail p \<and>
    rp_evicted q = rp_evicted p @ evs (rp_head p) [(h, k, v)] \<and>
    (es \<noteq> [] \<longrightarrow> rp_head q = rp_head p + esize k v)"
proof -
  from log have hd: "holds (rb_data rb) (rp_head p) h k v" "entry_wf h k v"
    by (simp_all add: pos_log_def)
  then have r: "readHeaderAt rb (rp_head p) = Some (Inr h)"
    using cap by (simp add: readHeaderAt_holds entry_wf_def)
  have sz: "headerEntrySize h = esize k v" by (rule entry_wf_lens [OF hd(2)])
  have le: "esize k v \<le> rb_capacity rb"
    using hd(1) cap by (simp add: holds_def)
  have nn: "0 < esize k v" using esize_ge [of k v] by linarith
  have lt: "rp_head p + esize k v < rb_capacity rb" if "es \<noteq> []"
    using log t total_pos [OF that] by (simp add: pos_log_def)
  show ?thesis
  proof (cases "es = []")
    case True
    then show ?thesis
      using log r le nn by (simp add: evictStep_def sz Let_def pos_log_def)
  next
    case False
    then show ?thesis
      using log r le nn lt [OF False] by (simp add: evictStep_def sz Let_def pos_log_def)
  qed
qed

lemma evictForSpace_log:
  assumes "rb_capacity rb = int (length (rb_data rb))" "pos_log rb p t es"
    "t \<le> rb_capacity rb" "n \<le> rb_capacity rb"
  shows "\<exists>q gone rest. evictForSpace rb n p = Some q \<and> es = gone @ rest \<and> pos_log rb q t rest \<and>
    rp_tail q = rp_tail p \<and> rp_evicted q = rp_evicted p @ evs (rp_head p) gone \<and>
    (rest \<noteq> [] \<longrightarrow> rp_head q = rp_head p + total gone) \<and>
    (n \<le> rb_capacity rb - rp_used p \<longrightarrow> gone = [])"
  using assms(2)
proof (induction es arbitrary: p)
  case Nil
  then have "evictForSpace rb n p = Some p"
    using assms(4) by (simp add: evictForSpace.simps [of rb n p] pos_log_def)
  with Nil show ?case by force
next
  case (Cons e es)
  obtain h k v where e: "e = (h, k, v)" by (cases e)
  show ?case
  proof (cases "n > rb_capacity rb - rp_used p")
    case True
    from evictStep_log [OF assms(1) Cons.prems [unfolded e] assms(3)] obtain q where
      q: "evictStep rb p = Some (Inr q)" "pos_log rb q t es" "rp_tail q = rp_tail p"
      "rp_evicted q = rp_evicted p @ evs (rp_head p) [(h, k, v)]"
      "es \<noteq> [] \<longrightarrow> rp_head q = rp_head p + esize k v"
      by blast
    from Cons.IH [OF q(2)] obtain q' gone rest where
      q': "evictForSpace rb n q = Some q'" "es = gone @ rest" "pos_log rb q' t rest"
      "rp_tail q' = rp_tail q" "rp_evicted q' = rp_evicted q @ evs (rp_head q) gone"
      "rest \<noteq> [] \<longrightarrow> rp_head q' = rp_head q + total gone"
      by blast
    have "evs (rp_head q) gone = evs (rp_head p + esize k v) gone"
      using q(5) q'(2) by (cases gone) auto
    then have "evictForSpace rb n p = Some q' \<and> e # es = (e # gone) @ rest \<and>
        rp_evicted q' = rp_evicted p @ evs (rp_head p) (e # gone) \<and>
        (rest \<noteq> [] \<longrightarrow> rp_head q' = rp_head p + total (e # gone))"
      using True q q' e by (simp add: evictForSpace.simps [of rb n p] add.assoc)
    with True q q' show ?thesis by (metis leD)
  next
    case False
    then have "evictForSpace rb n p = Some p" by (simp add: evictForSpace.simps [of rb n p])
    with Cons.prems show ?thesis by force
  qed
qed

lemma evictForWrap_log:
  assumes "rb_capacity rb = int (length (rb_data rb))" "pos_log rb p t es" "t \<le> rb_capacity rb"
  shows "\<exists>q gone rest. evictForWrap rb n p = Some q \<and> es = gone @ rest \<and> pos_log rb q t rest \<and>
    rp_tail q = rp_tail p \<and> rp_evicted q = rp_evicted p @ evs (rp_head p) gone \<and>
    (rest \<noteq> [] \<longrightarrow> n \<le> rp_head q)"
  using assms(2)
proof (induction es arbitrary: p)
  case Nil
  then have "evictForWrap rb n p = Some p"
    by (simp add: evictForWrap.simps [of rb n p] pos_log_def)
  with Nil show ?case by force
next
  case (Cons e es)
  obtain h k v where e: "e = (h, k, v)" by (cases e)
  have used: "0 < rp_used p"
    using Cons.prems total_pos [of "e # es"] by (simp add: pos_log_def)
  show ?case
  proof (cases "n > rp_head p")
    case True
    from evictStep_log [OF assms(1) Cons.prems [unfolded e] assms(3)] obtain q where
      q: "evictStep rb p = Some (Inr q)" "pos_log rb q t es" "rp_tail q = rp_tail p"
      "rp_evicted q = rp_evicted p @ evs (rp_head p) [(h, k, v)]"
      "es \<noteq> [] \<longrightarrow> rp_head q = rp_head p + esize k v"
      by blast
    from Cons.IH [OF q(2)] obtain q' gone rest where
      q': "evictForWrap rb n q = Some q'" "es = gone @ rest" "pos_log rb q' t rest"
      "rp_tail q' = rp_tail q" "rp_evicted q' = rp_evicted q @ evs (rp_head q) gone"
      "rest \<noteq> [] \<longrightarrow> n \<le> rp_head q'"
      by blast
    have "evs (rp_head q) gone = evs (rp_head p + esize k v) gone"
      using q(5) q'(2) by (cases gone) auto
    then have "evictForWrap rb n p = Some q' \<and> e # es = (e # gone) @ rest \<and>
        rp_evicted q' = rp_evicted p @ evs (rp_head p) (e # gone)"
      using True used q q' e by (simp add: evictForWrap.simps [of rb n p])
    with q q' show ?thesis by metis
  next
    case False
    then have "evictForWrap rb n p = Some p" by (simp add: evictForWrap.simps [of rb n p])
    with False Cons.prems show ?thesis by force
  qed
qed


lemma layout_bounds:
  assumes "layout d pos es" "es \<noteq> []"
  shows "0 \<le> pos" "pos + total es \<le> int (length d)"
  using assms
proof (induction d pos es rule: layout.induct)
  case (2 d pos h k v es)
  { case 1 then show ?case by (simp add: holds_def) }
  { case 2 then show ?case using "2.IH" by (cases "es = []") (auto simp: holds_def add.assoc) }
qed simp_all

text \<open>Appending an entry outside the region of a layout leaves the layout alone.\<close>

lemma layout_writeEntryAt:
  assumes w: "writeEntryAt d off h k v = Some d'" "0 \<le> off" "off + esize k v \<le> int (length d)"
    and "layout d pos es" "off + esize k v \<le> pos \<or> pos + total es \<le> off"
  shows "layout d' pos es"
  using assms(4,5)
proof (induction es arbitrary: pos)
  case (Cons e es)
  obtain h' k' v' where e: "e = (h', k', v')" by (cases e)
  have "0 \<le> total es" "0 \<le> esize k' v'" by simp_all
  then have "off + esize k v \<le> pos \<or> pos + esize k' v' \<le> off"
    "off + esize k v \<le> pos + esize k' v' \<or> pos + esize k' v' + total es \<le> off"
    using Cons.prems(2) unfolding e total.simps by linarith+
  then show ?case
    using Cons.prems(1) Cons.IH holds_writeEntryAt_other [OF w] e by auto
qed simp

lemma WriteWithEvict_log_no_wrap:
  assumes inv: "ring_inv rb" and log: "ring_log rb es" and wf: "entry_wf h k v"
    and room: "rb_tail rb + esize k v \<le> rb_capacity rb"
  shows "\<exists>rb'. WriteWithEvict rb h k v = Some (rb', Inr (rb_tail rb, [])) \<and>
    ring_log rb' (es @ [(h, k, v)])"
proof -
  let ?p = "\<lparr> rp_head = rb_head rb, rp_tail = rb_tail rb, rp_used = rb_used rb,
              rp_evicted = [], rp_evictCount = rb_evictCount rb \<rparr>"
  have cap: "rb_capacity rb = int (length (rb_data rb))" and tl: "0 \<le> rb_tail rb"
    and u: "\<not> esize k v > rb_capacity rb - rb_used rb"
    using inv log room by (auto simp: ring_inv_def ring_log_def)
  have s: "evictForSpace rb (esize k v) ?p = Some ?p"
    using u by (simp add: evictForSpace.simps)
  obtain d where d: "writeEntryAt (rb_data rb) (rb_tail rb) h k v = Some d"
    using writeEntryAt_fits [OF tl] room cap by auto
  have fit: "rb_tail rb + esize k v \<le> int (length (rb_data rb))" using room cap by simp
  have sz: "\<not> esize k v > rb_capacity rb" "\<not> rb_tail rb + esize k v > rb_capacity rb"
    using room tl by auto
  from s d sz have w: "WriteWithEvict rb h k v =
      Some (rb\<lparr> rb_data := d, rb_tail := rb_tail rb + esize k v,
                rb_used := rb_used rb + esize k v, rb_writeCount := i64 (rb_writeCount rb + 1) \<rparr>,
            Inr (rb_tail rb, []))"
    by (simp add: WriteWithEvict_def Let_def headerSize_def esize_def [symmetric])
  have "layout d (rb_head rb) es" "holds d (rb_tail rb) h k v"
    using log layout_writeEntryAt [OF d tl fit] holds_writeEntryAt_same [OF d tl fit]
    by (auto simp: ring_log_def)
  then show ?thesis using log wf w by (auto simp: ring_log_def)
qed

lemma WriteWithEvict_log_wrap:
  assumes inv: "ring_inv rb" and log: "ring_log rb es" and wf: "entry_wf h k v"
    and fits: "esize k v \<le> rb_capacity rb"
    and wrap: "rb_tail rb + esize k v > rb_capacity rb"
  shows "\<exists>rb' gone rest. WriteWithEvict rb h k v = Some (rb', Inr (0, evs (rb_head rb) gone)) \<and>
    es = gone @ rest \<and> holds (rb_data rb') 0 h k v \<and> layout (rb_data rb') (rb_head rb') rest \<and>
    (rest \<noteq> [] \<longrightarrow> esize k v \<le> rb_head rb' \<and> rb_head rb' + total rest = rb_tail rb) \<and>
    rb_tail rb' = esize k v \<and> rb_used rb' = total rest + esize k v"
proof -
  let ?n = "esize k v"
  let ?p = "\<lparr> rp_head = rb_head rb, rp_tail = rb_tail rb, rp_used = rb_used rb,
              rp_evicted = [], rp_evictCount = rb_evictCount rb \<rparr>"
  have cap: "rb_capacity rb = int (length (rb_data rb))" and tl: "rb_tail rb \<le> rb_capacity rb"
    using inv by (simp_all add: ring_inv_def)
  have pl: "pos_log rb ?p (rb_tail rb) es"
    using log by (simp add: ring_log_def pos_log_def)
  from evictForSpace_log [OF cap pl tl fits] obtain p1 g1 r1 where
    p1: "evictForSpace rb ?n ?p = Some p1" "es = g1 @ r1" "pos_log rb p1 (rb_tail rb) r1"
      "rp_tail p1 = rb_tail rb" "rp_evicted p1 = evs (rb_head rb) g1"
      "r1 \<noteq> [] \<longrightarrow> rp_head p1 = rb_head rb + total g1"
    by force
  let ?q = "p1\<lparr> rp_tail := 0 \<rparr>"
  have "pos_log rb ?q (rb_tail rb) r1" using p1(3) by (simp add: pos_log_def)
  from evictForWrap_log [OF cap this tl, of ?n] obtain p2 g2 r2 where
    p2: "evictForWrap rb ?n ?q = Some p2" "r1 = g2 @ r2" "pos_log rb p2 (rb_tail rb) r2"
      "rp_tail p2 = 0" "rp_evicted p2 = rp_evicted p1 @ evs (rp_head p1) g2"
      "r2 \<noteq> [] \<longrightarrow> ?n \<le> rp_head p2"
    by force
  have ev: "rp_evicted p2 = evs (rb_head rb) (g1 @ g2)"
    using p1(5,6) p2(2,5) by (cases g2) auto
  have fit: "0 + ?n \<le> int (length (rb_data rb))" using fits cap by simp
  obtain d where d: "writeEntryAt (rb_data rb) 0 h k v = Some d"
    using writeEntryAt_fits [OF order_refl fit] by auto
  have "layout d (rp_head p2) r2"
    using layout_writeEntryAt [OF d order_refl fit, of "rp_head p2" r2] p2(3,6)
    by (cases "r2 = []") (auto simp: pos_log_def)
  moreover have "holds d 0 h k v"
    by (rule holds_writeEntryAt_same [OF d order_refl fit])
  moreover let ?rb = "rb\<lparr> rb_data := d, rb_head := rp_head p2, rb_tail := ?n,
    rb_used := rp_used p2 + ?n, rb_writeCount := i64 (rb_writeCount rb + 1),
    rb_evictCount := rp_evictCount p2 \<rparr>"
  have "WriteWithEvict rb h k v = Some (?rb, Inr (0, evs (rb_head rb) (g1 @ g2)))"
    using p1(1,4) p2(1,4) ev d fits wrap
    by (simp add: WriteWithEvict_def Let_def headerSize_def esize_def [symmetric])
  ultimately show ?thesis
    using p1(2) p2(2,3,6)
    by - (rule exI [of _ ?rb], rule exI [of _ "g1 @ g2"], rule exI [of _ r2],
        auto simp: pos_log_def)
qed


section \<open>Properties\<close>

text \<open>
  C1: on every buffer that satisfies the invariant, an append either is refused with
  \<open>ErrEntryTooLarge\<close> and leaves the buffer alone, exactly when the entry is larger than the
  buffer, or it succeeds at an offset inside the buffer, keeps the invariant, and a read at
  that offset gives back the header, the key and the value. It never panics.
\<close>

theorem WriteWithEvict_ReadAt:
  assumes inv: "ring_inv rb" and wf: "entry_wf h k v"
  shows "if esize k v > rb_capacity rb
    then WriteWithEvict rb h k v = Some (rb, Inl ErrEntryTooLarge)
    else \<exists>rb' off evd. WriteWithEvict rb h k v = Some (rb', Inr (off, evd)) \<and> ring_inv rb' \<and>
      0 \<le> off \<and> off + esize k v \<le> rb_capacity rb' \<and> ReadAt rb' off = Some (Inr (k, v, h))"
proof (cases "esize k v > rb_capacity rb")
  case True
  then show ?thesis by (simp add: WriteWithEvict_too_large)
next
  case False
  then have "esize k v \<le> rb_capacity rb" by simp
  from WriteWithEvict_ok [OF inv this, of h] obtain rb' off evd where
    w: "WriteWithEvict rb h k v = Some (rb', Inr (off, evd))" "ring_inv rb'"
    "rb_capacity rb' = rb_capacity rb" "0 \<le> off" "off + esize k v \<le> rb_capacity rb"
    "writeEntryAt (rb_data rb) off h k v = Some (rb_data rb')" by metis
  have "holds (rb_data rb') off h k v"
    using holds_writeEntryAt_same [OF w(6,4)] w(5) inv by (simp add: ring_inv_def)
  then have "ReadAt rb' off = Some (Inr (k, v, h))"
    using ReadAt_holds wf w(2) by (simp add: ring_inv_def)
  with False w show ?thesis by auto
qed

definition ring_small :: RingBuffer where
  "ring_small = \<lparr> rb_data = replicate 90 (char_of (0::nat)), rb_capacity = 90, rb_tail = 0, rb_head = 0,
     rb_used = 0, rb_writeCount = 0, rb_evictCount = 0 \<rparr>"

definition header_for :: "string \<Rightarrow> string \<Rightarrow> EntryHeader" where
  "header_for k v = \<lparr> eh_ExpireAt = 0, eh_Hash64 = 7, eh_KeyLen = of_nat (length k),
     eh_ValLen = of_nat (length v), eh_ValCap = of_nat (length v), eh_Flags = EntryTypeString \<rparr>"

lemma ring_small_inv [simp]: "ring_inv ring_small" "ring_log ring_small []"
  by (simp_all add: ring_small_def ring_inv_def ring_log_def)

lemma entry_wf_header_for:
  "length k < 65536 \<Longrightarrow> length v < 65536 \<Longrightarrow> entry_wf (header_for k v) k v"
  by (simp add: entry_wf_def header_for_def is_i64_def)

theorem WriteWithEvict_ReadAt_witness:
  "\<exists>rb' off evd. WriteWithEvict ring_small (header_for ''k'' ''val'') ''k'' ''val'' =
     Some (rb', Inr (off, evd)) \<and> ReadAt rb' off = Some (Inr (''k'', ''val'', header_for ''k'' ''val''))"
  using WriteWithEvict_ReadAt [of ring_small "header_for ''k'' ''val''" "''k''" "''val''"]
  by (simp add: entry_wf_header_for esize_def) (auto simp: ring_small_def)



text \<open>
  an in-place update is accepted exactly when the new entry is not larger than the one at
  the offset; it moves none of the positions, the updated entry reads back, and every entry
  that does not overlap the old one is intact.
\<close>

theorem UpdateInPlace_spec:
  assumes inv: "ring_inv rb" and old: "holds (rb_data rb) off h k v" "entry_wf h k v"
    and new: "entry_wf h' k' v'"
  shows "if esize k' v' > esize k v then UpdateInPlace rb off h' k' v' = Some (rb, False)
    else \<exists>d. UpdateInPlace rb off h' k' v' =
               Some (rb\<lparr> rb_data := d, rb_writeCount := i64 (rb_writeCount rb + 1) \<rparr>, True) \<and>
             ReadAt (rb\<lparr> rb_data := d, rb_writeCount := i64 (rb_writeCount rb + 1) \<rparr>) off =
               Some (Inr (k', v', h')) \<and>
             (\<forall>o2 h2 k2 v2. holds (rb_data rb) o2 h2 k2 v2 \<and>
                (off + esize k v \<le> o2 \<or> o2 + esize k2 v2 \<le> off) \<longrightarrow> holds d o2 h2 k2 v2)"
proof -
  have cap: "rb_capacity rb = int (length (rb_data rb))" using inv by (simp add: ring_inv_def)
  have off: "0 \<le> off" "off + esize k v \<le> int (length (rb_data rb))"
    using old(1) by (simp_all add: holds_def)
  have hdr: "UnmarshalFrom (drop (nat off) (rb_data rb)) = Some h"
    using readHeaderAt_holds [OF old(1) _ cap] old(2) off cap
    by (simp add: entry_wf_def readHeaderAt_def headerSize_def esize_def split: Option.bind_splits if_splits)
  have upd: "UpdateInPlace rb off h' k' v' =
      (if esize k' v' > esize k v then Some (rb, False)
       else do { d \<leftarrow> writeEntryAt (rb_data rb) off h' k' v';
                 Some (rb\<lparr> rb_data := d, rb_writeCount := i64 (rb_writeCount rb + 1) \<rparr>, True) })"
    using off cap hdr entry_wf_lens(5) [OF old(2)] order_trans [OF add_left_mono [OF esize_ge] off(2)]
    by (simp add: UpdateInPlace_def Let_def headerSize_def esize_def [symmetric] slice_from_Some)
  show ?thesis
  proof (cases "esize k' v' > esize k v")
    case False
    then have fit: "off + esize k' v' \<le> int (length (rb_data rb))" using off by simp
    obtain d where d: "writeEntryAt (rb_data rb) off h' k' v' = Some d" "length d = length (rb_data rb)"
      using fit off(1) by (simp add: writeEntryAt_fits nat_add_distrib)
    let ?rb = "rb\<lparr> rb_data := d, rb_writeCount := i64 (rb_writeCount rb + 1) \<rparr>"
    have "ReadAt ?rb off = Some (Inr (k', v', h'))"
      using holds_writeEntryAt_same [OF d(1) off(1) fit] new cap d(2)
      by (intro ReadAt_holds) simp_all
    moreover have "holds d o2 h2 k2 v2" if "holds (rb_data rb) o2 h2 k2 v2"
      "off + esize k v \<le> o2 \<or> o2 + esize k2 v2 \<le> off" for o2 h2 k2 v2
      using holds_writeEntryAt_other [OF d(1) off(1) fit that(1)] that(2) False by linarith
    ultimately show ?thesis using False upd d(1) by auto
  qed (simp add: upd)
qed

definition ring_one :: RingBuffer where
  "ring_one = (case WriteWithEvict ring_small (header_for ''k'' ''val'') ''k'' ''val'' of
     Some (rb, _) \<Rightarrow> rb | None \<Rightarrow> ring_small)"

lemma ring_one_inv: "ring_inv ring_one"
  by code_simp

lemma ring_one_holds: "holds (rb_data ring_one) 0 (header_for ''k'' ''val'') ''k'' ''val''"
  by code_simp

theorem UpdateInPlace_spec_witness:
  "\<exists>rb. UpdateInPlace ring_one 0 (header_for ''k'' ''ne'') ''k'' ''ne'' = Some (rb, True) \<and>
     ReadAt rb 0 = Some (Inr (''k'', ''ne'', header_for ''k'' ''ne''))"
  using UpdateInPlace_spec [OF ring_one_inv ring_one_holds, of "header_for ''k'' ''ne''" "''k''" "''ne''"]
  by (auto simp: entry_wf_header_for esize_def)

definition ring_wrap :: "RingBuffer \<Rightarrow> entry list \<Rightarrow> entry list \<Rightarrow> bool" where
  "ring_wrap rb new old \<longleftrightarrow>
     layout (rb_data rb) 0 new \<and> rb_tail rb = total new \<and>
     layout (rb_data rb) (rb_head rb) old \<and> rb_tail rb \<le> rb_head rb \<and>
     rb_used rb = total new + total old"

text \<open>
  the space test of an append counts bytes, not their position. On a wrapped buffer (the
  newest entries from offset 0 to the tail, the older ones from the head on) an entry that fits
  by the number of used bytes but not between tail and head is written without evicting
  anything, over the first bytes of the oldest live entry: the caller is not told that this
  entry is gone.
\<close>

theorem WriteWithEvict_overwrites_head:
  assumes inv: "ring_inv rb" and wrapped: "ring_wrap rb new (e # old)"
    and counted: "rb_used rb + esize k v \<le> rb_capacity rb"
    and fits: "rb_tail rb + esize k v \<le> rb_capacity rb"
    and over: "rb_head rb < rb_tail rb + esize k v"
  shows "\<exists>rb'. WriteWithEvict rb h k v = Some (rb', Inr (rb_tail rb, [])) \<and>
    rb_head rb' = rb_head rb \<and> rb_used rb' = rb_used rb + esize k v \<and>
    rb_data rb' ! nat (rb_head rb) = entry_bytes h k v ! nat (rb_head rb - rb_tail rb)"
proof -
  let ?p = "\<lparr> rp_head = rb_head rb, rp_tail = rb_tail rb, rp_used = rb_used rb,
              rp_evicted = [], rp_evictCount = rb_evictCount rb \<rparr>"
  have cap: "rb_capacity rb = int (length (rb_data rb))" and tl: "0 \<le> rb_tail rb"
    and wr: "rb_tail rb \<le> rb_head rb"
    using inv wrapped by (auto simp: ring_inv_def ring_wrap_def)
  have s: "evictForSpace rb (esize k v) ?p = Some ?p"
    using counted by (simp add: evictForSpace.simps)
  let ?d = "take (nat (rb_tail rb)) (rb_data rb) @ entry_bytes h k v @
    drop (nat (rb_tail rb + esize k v)) (rb_data rb)"
  have d: "writeEntryAt (rb_data rb) (rb_tail rb) h k v = Some ?d"
    using writeEntryAt_fits [OF tl] fits cap by simp
  have "\<not> esize k v > rb_capacity rb" "\<not> rb_tail rb + esize k v > rb_capacity rb"
    using fits tl by auto
  with s d have w: "WriteWithEvict rb h k v =
      Some (rb\<lparr> rb_data := ?d, rb_tail := rb_tail rb + esize k v,
                rb_used := rb_used rb + esize k v, rb_writeCount := i64 (rb_writeCount rb + 1) \<rparr>,
            Inr (rb_tail rb, []))"
    by (simp add: WriteWithEvict_def Let_def headerSize_def esize_def [symmetric])
  have "nat (rb_tail rb) \<le> length (rb_data rb)" "\<not> rb_head rb < rb_tail rb"
    "nat (rb_head rb) - nat (rb_tail rb) = nat (rb_head rb - rb_tail rb)"
    "rb_head rb - rb_tail rb < esize k v" "0 < esize k v"
    using fits cap tl wr over esize_ge [of k v] by linarith+
  then have "?d ! nat (rb_head rb) = entry_bytes h k v ! nat (rb_head rb - rb_tail rb)"
    by (auto simp: nth_append min_absorb2)
  with w show ?thesis by simp
qed

text \<open>A buffer of 90 bytes after appends of 36, 30 and 34 bytes: the third wrapped and left a gap
  of 24 bytes at the end, which counts as free.\<close>

definition ring_append :: "RingBuffer \<Rightarrow> string \<Rightarrow> string \<Rightarrow> RingBuffer" where
  "ring_append rb k v =
     (case WriteWithEvict rb (header_for k v) k v of Some (rb', _) \<Rightarrow> rb' | None \<Rightarrow> rb)"

definition ring_gap :: RingBuffer where
  "ring_gap = \<lparr>
     rb_data = entry_bytes (header_for ''c'' ''ccccccccc'') ''c'' ''ccccccccc'' @ ''aa'' @
       entry_bytes (header_for ''b'' ''bbbbb'') ''b'' ''bbbbb'' @ replicate 24 (char_of (0::nat)),
     rb_capacity = 90, rb_tail = 34, rb_head = 36, rb_used = 64, rb_writeCount = 3, rb_evictCount = 1 \<rparr>"

lemma ring_gap_reached:
  "ring_append (ring_append (ring_append ring_small ''a'' ''aaaaaaaaaaa'') ''b'' ''bbbbb'')
     ''c'' ''ccccccccc'' = ring_gap"
  by code_simp

lemma ring_gap_inv: "ring_inv ring_gap"
  by (simp add: ring_gap_def ring_inv_def esize_def)

lemma ring_gap_wrap:
  "ring_wrap ring_gap [(header_for ''c'' ''ccccccccc'', ''c'', ''ccccccccc'')]
     [(header_for ''b'' ''bbbbb'', ''b'', ''bbbbb'')]"
  by (simp add: ring_gap_def ring_wrap_def esize_def holds_def entry_wf_header_for)

theorem WriteWithEvict_overwrites_head_witness:
  "\<exists>rb. WriteWithEvict ring_gap (header_for ''d'' ''d'') ''d'' ''d'' = Some (rb, Inr (34, [])) \<and>
     rb_head rb = 36 \<and> rb_data rb ! 36 = entry_bytes (header_for ''d'' ''d'') ''d'' ''d'' ! 2"
  using WriteWithEvict_overwrites_head [OF ring_gap_inv ring_gap_wrap, of "''d''" "''d''"
      "header_for ''d'' ''d''"]
  by (auto simp: ring_gap_def esize_def)

end
