(* ===== verification/Sketch.thy ===== *)
theory Sketch
  imports Prelude
begin

text \<open>
  The admission filter of the cache, \<^verbatim>\<open>internal/engine/memory/tinylfu.go\<close>: a count-min sketch of
  4-bit counters, the doorkeeper, a bloom filter in front of it, and \<open>TinyLFU\<close>, which combines
  them. The stripe locks make each operation atomic here. An index outside a row is a panic,
  \<open>None\<close>.

  The lemmas relate the sketch to the list of recorded hashes: \<open>sketch_of\<close> gives the exact value of
  each counter, \<open>lfu_of\<close> adds what the doorkeeper absorbs.
\<close>

unbundle bit_operations_syntax

section \<open>Model\<close>

definition cmSketchDepth :: nat where "cmSketchDepth = 4"
definition cmSketchDefaultWidth :: int where "cmSketchDefaultWidth = 2 ^ 16"
definition counterMax :: nat where "counterMax = 15"
definition resetThreshold :: int where "resetThreshold = 2 ^ 20"
definition stripeLockCount :: nat where "stripeLockCount = 16"
definition doorkeeperDefaultWidth :: int where "doorkeeperDefaultWidth = 2 ^ 16"
definition doorkeeperResetEvery :: int where "doorkeeperResetEvery = 2 ^ 20"

definition smear :: "nat \<Rightarrow> int \<Rightarrow> int" where
  "smear s n = n OR drop_bit s n"

definition nextPowerOf2 :: "int \<Rightarrow> int" where
  "nextPowerOf2 n =
     (if n \<le> 1 then 1
      else i64 (smear 32 (smear 16 (smear 8 (smear 4 (smear 2 (smear 1 (n - 1)))))) + 1))"

record CountMinSketch =
  cms_rows :: "8 word list list"
  cms_seeds :: "64 word list"
  cms_mask :: "64 word"
  cms_stripe :: "64 word"
  cms_additions :: int

record Doorkeeper =
  dk_bits :: "64 word list"
  dk_mask :: "64 word"
  dk_stripe :: "64 word"
  dk_additions :: int
  dk_resetEvery :: int

definition NewCountMinSketch :: "int \<Rightarrow> CountMinSketch" where
  "NewCountMinSketch width0 =
     (let width1 = (if width0 \<le> 0 then cmSketchDefaultWidth else width0);
          width = nextPowerOf2 width1;
          byteSize = width div 2
      in \<lparr> cms_rows = map (\<lambda>i. replicate (nat byteSize) 0) [0..<cmSketchDepth],
           cms_seeds = map (\<lambda>i. of_nat (i + 1) * 0xc4ceb9fe1a85ec53) [0..<cmSketchDepth],
           cms_mask = word_of_int (width - 1),
           cms_stripe = of_nat (stripeLockCount - 1),
           cms_additions = 0 \<rparr>)"

definition NewDoorkeeper :: "int \<Rightarrow> Doorkeeper" where
  "NewDoorkeeper width0 =
     (let width1 = (if width0 \<le> 0 then doorkeeperDefaultWidth else width0);
          width = nextPowerOf2 width1;
          wc = drop_bit 6 width;
          wordCount = (if wc = 0 then 1 else wc)
      in \<lparr> dk_bits = replicate (nat wordCount) 0,
           dk_mask = word_of_int (width - 1),
           dk_stripe = of_nat (stripeLockCount - 1),
           dk_additions = 0,
           dk_resetEvery = doorkeeperResetEvery \<rparr>)"

text \<open>The 4-bit counter of a byte at \<^verbatim>\<open>shift\<close>, and its position for a hash in a row.\<close>

definition nibble :: "nat \<Rightarrow> 8 word \<Rightarrow> 8 word" where
  "nibble shift b = drop_bit shift b AND 0x0F"

definition sketch_pos :: "64 word \<Rightarrow> 64 word \<Rightarrow> 64 word \<Rightarrow> 64 word" where
  "sketch_pos msk hash seed = (hash XOR seed) AND msk"

definition sketch_idx :: "64 word \<Rightarrow> nat" where
  "sketch_idx pos = unat (drop_bit 1 pos)"

definition sketch_shift :: "64 word \<Rightarrow> nat" where
  "sketch_shift pos = unat (push_bit 2 (pos AND 1))"

definition incRow :: "64 word \<Rightarrow> 8 word list \<Rightarrow> 8 word list go" where
  "incRow pos row =
     (let idx = sketch_idx pos; shift = sketch_shift pos
      in if length row \<le> idx then None
         else Some (if unat (nibble shift (row ! idx)) < counterMax
                    then row[idx := row ! idx + push_bit shift 1] else row))"

fun incRows :: "64 word \<Rightarrow> 64 word \<Rightarrow> 64 word list \<Rightarrow> 8 word list list \<Rightarrow> 8 word list list go" where
  "incRows msk hash (seed # seeds) (row # rows) =
     do { r \<leftarrow> incRow (sketch_pos msk hash seed) row;
          rs \<leftarrow> incRows msk hash seeds rows;
          Some (r # rs) }"
| "incRows msk hash seeds rows = Some rows"

definition cms_reset :: "CountMinSketch \<Rightarrow> CountMinSketch" where
  "cms_reset c = c\<lparr> cms_rows := map (map (\<lambda>b. drop_bit 1 b AND 0x77)) (cms_rows c),
                    cms_additions := 0 \<rparr>"

definition Increment :: "CountMinSketch \<Rightarrow> 64 word \<Rightarrow> CountMinSketch go" where
  "Increment c hash =
     do { rs \<leftarrow> incRows (cms_mask c) hash (cms_seeds c) (cms_rows c);
          let n = i64 (cms_additions c + 1);
              c' = c\<lparr> cms_rows := rs, cms_additions := n \<rparr>
          in Some (if n \<ge> resetThreshold then cms_reset c' else c') }"

definition rowCounter :: "64 word \<Rightarrow> 8 word list \<Rightarrow> nat go" where
  "rowCounter pos row =
     (if length row \<le> sketch_idx pos then None
      else Some (unat (nibble (sketch_shift pos) (row ! sketch_idx pos))))"

fun minRows :: "64 word \<Rightarrow> 64 word \<Rightarrow> nat \<Rightarrow> 64 word list \<Rightarrow> 8 word list list \<Rightarrow> nat go" where
  "minRows msk hash m (seed # seeds) (row # rows) =
     do { val \<leftarrow> rowCounter (sketch_pos msk hash seed) row;
          minRows msk hash (if val < m then val else m) seeds rows }"
| "minRows msk hash m seeds rows = Some m"

definition Estimate :: "CountMinSketch \<Rightarrow> 64 word \<Rightarrow> nat go" where
  "Estimate c hash = minRows (cms_mask c) hash counterMax (cms_seeds c) (cms_rows c)"

definition cms_Clear :: "CountMinSketch \<Rightarrow> CountMinSketch" where
  "cms_Clear c = c\<lparr> cms_rows := map (map (\<lambda>b. 0)) (cms_rows c), cms_additions := 0 \<rparr>"

definition dk_reset :: "Doorkeeper \<Rightarrow> Doorkeeper" where
  "dk_reset d = d\<lparr> dk_bits := map (\<lambda>b. 0) (dk_bits d), dk_additions := 0 \<rparr>"

definition dk_Clear :: "Doorkeeper \<Rightarrow> Doorkeeper" where
  "dk_Clear d = dk_reset d"

definition door_pos1 :: "64 word \<Rightarrow> 64 word \<Rightarrow> 64 word" where
  "door_pos1 msk hash = hash AND msk"

definition door_pos2 :: "64 word \<Rightarrow> 64 word \<Rightarrow> 64 word" where
  "door_pos2 msk hash = (drop_bit 17 hash XOR (hash * 0x9e3779b97f4a7c15)) AND msk"

text \<open>\<^verbatim>\<open>Allow\<close> has one body for equal and one for different stripe locks; they differ in the
  locking only, which makes each call atomic here.\<close>

definition Allow :: "Doorkeeper \<Rightarrow> 64 word \<Rightarrow> (Doorkeeper \<times> bool) go" where
  "Allow d hash =
     (let pos1 = door_pos1 (dk_mask d) hash;
          pos2 = door_pos2 (dk_mask d) hash;
          word1 = unat (drop_bit 6 pos1);
          word2 = unat (drop_bit 6 pos2);
          bit1 = push_bit (unat (pos1 AND 63)) 1;
          bit2 = push_bit (unat (pos2 AND 63)) 1
      in if length (dk_bits d) \<le> word1 \<or> length (dk_bits d) \<le> word2 then None
         else let seen = (dk_bits d ! word1 AND bit1 \<noteq> 0 \<and> dk_bits d ! word2 AND bit2 \<noteq> 0);
                  b1 = (dk_bits d)[word1 := dk_bits d ! word1 OR bit1];
                  b2 = b1[word2 := b1 ! word2 OR bit2];
                  n = i64 (dk_additions d + 1);
                  d' = d\<lparr> dk_bits := b2, dk_additions := n \<rparr>
              in Some (if n \<ge> dk_resetEvery d then dk_reset d' else d', seen))"

record TinyLFU =
  tl_sketch :: CountMinSketch
  tl_door :: Doorkeeper

definition NewTinyLFU :: "int \<Rightarrow> TinyLFU" where
  "NewTinyLFU counterWidth =
     \<lparr> tl_sketch = NewCountMinSketch counterWidth, tl_door = NewDoorkeeper counterWidth \<rparr>"

definition RecordAccess :: "TinyLFU \<Rightarrow> 64 word \<Rightarrow> TinyLFU go" where
  "RecordAccess t hash =
     do { (d, ok) \<leftarrow> Allow (tl_door t) hash;
          if ok then do { s \<leftarrow> Increment (tl_sketch t) hash;
                          Some (t\<lparr> tl_door := d, tl_sketch := s \<rparr>) }
          else Some (t\<lparr> tl_door := d \<rparr>) }"

definition AllowAdmission :: "TinyLFU \<Rightarrow> 64 word \<Rightarrow> (TinyLFU \<times> bool) go" where
  "AllowAdmission t hash =
     do { (d, ok) \<leftarrow> Allow (tl_door t) hash; Some (t\<lparr> tl_door := d \<rparr>, ok) }"

definition Admit :: "TinyLFU \<Rightarrow> 64 word \<Rightarrow> 64 word \<Rightarrow> bool go" where
  "Admit t candidateHash victimHash =
     do { candidateFreq \<leftarrow> Estimate (tl_sketch t) candidateHash;
          victimFreq \<leftarrow> Estimate (tl_sketch t) victimHash;
          Some (candidateFreq \<ge> victimFreq) }"

definition Frequency :: "TinyLFU \<Rightarrow> 64 word \<Rightarrow> nat go" where
  "Frequency t hash = Estimate (tl_sketch t) hash"

definition tl_Clear :: "TinyLFU \<Rightarrow> TinyLFU" where
  "tl_Clear t = t\<lparr> tl_sketch := cms_Clear (tl_sketch t), tl_door := dk_Clear (tl_door t) \<rparr>"

section \<open>The width: a power of two\<close>

lemma ex_less_double:
  fixes s :: nat
  shows "(\<exists>j < 2 * s. P j) \<longleftrightarrow> (\<exists>j < s. P j) \<or> (\<exists>j < s. P (s + j))" (is "?l \<longleftrightarrow> ?r")
proof
  assume ?l
  then obtain j where "j < 2 * s" "P j" by blast
  then have "j < s \<or> j - s < s \<and> P (s + (j - s))" by auto
  with \<open>P j\<close> show ?r by blast
next
  assume ?r
  then show ?l by (metis add_strict_left_mono mult_2 trans_less_add1)
qed

lemma bit_smear:
  assumes "\<And>i. bit x i \<longleftrightarrow> (\<exists>j < s. bit m (i + j))" "t = 2 * s"
  shows "bit (smear s x) i \<longleftrightarrow> (\<exists>j < t. bit m (i + j))"
proof -
  have "bit (smear s x) i \<longleftrightarrow> (\<exists>j < s. bit m (i + j)) \<or> (\<exists>j < s. bit m (i + (s + j)))"
    by (simp add: smear_def bit_or_iff bit_drop_bit_eq assms(1) ac_simps)
  then show ?thesis
    unfolding assms(2) ex_less_double [of s "\<lambda>j. bit m (i + j)"] .
qed

lemma bit_smears:
  "bit (smear 32 (smear 16 (smear 8 (smear 4 (smear 2 (smear 1 m)))))) i \<longleftrightarrow> (\<exists>j < 64. bit m (i + j))"
proof -
  have 0: "bit m i \<longleftrightarrow> (\<exists>j < 1. bit m (i + j))" for i by simp
  show ?thesis
    by (rule bit_smear [OF bit_smear [OF bit_smear [OF bit_smear [OF bit_smear [OF bit_smear [OF 0]]]]]])
      simp_all
qed

lemma bit_ex_iff:
  fixes m :: int
  assumes "0 \<le> m" "m < 2 ^ 64"
  shows "(\<exists>j < 64. bit m (i + j)) \<longleftrightarrow> 2 ^ i \<le> m"
proof -
  have m: "m = take_bit 64 m" using assms by (simp add: take_bit_int_eq_self)
  have hi: "k < 64" if "bit m k" for k
    using that by (subst (asm) m) (simp add: bit_take_bit_iff)
  have "(\<exists>j < 64. bit m (i + j)) \<longleftrightarrow> (\<exists>j. bit m (i + j))"
  proof
    assume "\<exists>j. bit m (i + j)"
    then obtain j where "bit m (i + j)" by blast
    moreover from hi [OF this] have "j < 64" by simp
    ultimately show "\<exists>j < 64. bit m (i + j)" by blast
  qed blast
  also have "\<dots> \<longleftrightarrow> drop_bit i m \<noteq> 0"
    by (simp only: bit_eq_iff [of "drop_bit i m" 0]) (simp add: bit_drop_bit_eq)
  also have "\<dots> \<longleftrightarrow> 2 ^ i \<le> m"
    using assms by (simp add: drop_bit_eq_div) (metis div_pos_pos_trivial linorder_not_less pos_imp_zdiv_pos_iff zero_less_numeral zero_less_power less_irrefl)
  finally show ?thesis .
qed

lemma nextPowerOf2_eq:
  assumes "1 < n" "n \<le> 2 ^ 62"
  shows "\<exists>b. nextPowerOf2 n = 2 ^ Suc b \<and> 2 ^ b < n \<and> n \<le> 2 ^ Suc b \<and> b < 62"
proof -
  let ?m = "n - 1"
  let ?x = "smear 32 (smear 16 (smear 8 (smear 4 (smear 2 (smear 1 ?m)))))"
  have "1 \<le> nat ?m" using assms(1) by linarith
  then obtain b where "2 ^ b \<le> nat ?m" "nat ?m < 2 ^ Suc b"
    using ex_power_ivl1 [of 2 "nat ?m"] unfolding Suc_eq_plus1 by blast
  then have b: "2 ^ b \<le> ?m" "?m < 2 ^ Suc b"
    using assms by (simp_all add: le_nat_iff nat_less_iff)
  have "?x = mask (Suc b)"
  proof (rule bit_eqI)
    fix i
    have "bit ?x i \<longleftrightarrow> 2 ^ i \<le> ?m"
      unfolding bit_smears using assms by (intro bit_ex_iff) simp_all
    also have "\<dots> \<longleftrightarrow> i < Suc b"
      using b by (meson le_less_trans less_Suc_eq_le linorder_not_less order_trans power_increasing_iff one_less_numeral_iff semiring_norm(76) power_strict_increasing_iff)
    finally show "bit ?x i \<longleftrightarrow> bit (mask (Suc b) :: int) i" by (simp add: bit_mask_iff)
  qed
  then have x: "?x + 1 = 2 ^ Suc b" by (simp add: mask_eq_exp_minus_1)
  have "(2::int) ^ b < 2 ^ 62" using b(1) assms(2) by linarith
  then have "b < 62" by (rule power_less_imp_less_exp [rotated]) simp
  then have "(2::int) ^ Suc b < 2 ^ 63" by (intro power_strict_increasing) simp_all
  moreover have "(0::int) < 2 ^ Suc b" by simp
  moreover have "- (2 ^ 63) \<le> (0::int)" by simp
  ultimately have "i64 (2 ^ Suc b) = 2 ^ Suc b"
    by (intro i64_id) (unfold is_i64_def, linarith)
  moreover have "nextPowerOf2 n = i64 (?x + 1)"
    using assms(1) unfolding nextPowerOf2_def by (intro if_not_P) simp
  ultimately have "nextPowerOf2 n = 2 ^ Suc b" unfolding x by simp
  moreover have "2 ^ b < n" "n \<le> 2 ^ Suc b" using b by linarith+
  ultimately show ?thesis using \<open>b < 62\<close> by blast
qed

text \<open>
  up to \<open>2 ^ 62\<close> the rounding of a width is exact: the result is a power of two, it is at
  least the width, and half of it is smaller than the width.
\<close>

theorem nextPowerOf2_least:
  assumes "1 \<le> n" "n \<le> 2 ^ 62"
  shows "(\<exists>b. nextPowerOf2 n = 2 ^ b) \<and> n \<le> nextPowerOf2 n \<and> nextPowerOf2 n < 2 * n"
proof (cases "n = 1")
  case True
  then show ?thesis by (auto simp: nextPowerOf2_def intro: exI [of _ 0])
next
  case False
  with assms obtain b where "nextPowerOf2 n = 2 ^ Suc b" "2 ^ b < n" "n \<le> 2 ^ Suc b"
    using nextPowerOf2_eq [of n] by auto
  then show ?thesis by (intro conjI exI [of _ "Suc b"]) simp_all
qed

theorem nextPowerOf2_least_witness: "1000 \<le> nextPowerOf2 1000 \<and> nextPowerOf2 1000 < 2000"
  using nextPowerOf2_least [of 1000] by simp

section \<open>Counters\<close>

lemma unat_nibble: "unat (nibble s b) = unat b div 2 ^ s mod 16"
proof -
  have "nibble s b = take_bit 4 (drop_bit s b)"
    by (simp only: nibble_def take_bit_eq_mask) (simp add: mask_eq_exp_minus_1)
  moreover have "take_bit 8 (unat b) = unat b"
    by (rule take_bit_nat_eq_self) (rule less_le_trans [OF unsigned_less], simp)
  ultimately have "unat (nibble s b) = take_bit 4 (drop_bit s (unat b))"
    by (simp only: unsigned_take_bit_eq unsigned_drop_bit_eq) simp
  then show ?thesis by (simp only: take_bit_eq_mod drop_bit_eq_div) simp
qed

lemma sketch_shift_eq: "sketch_shift p = 4 * (unat p mod 2)"
proof -
  have aux: "unat (push_bit 2 w) = 4 * unat w" if "w = 0 \<or> w = 1" for w :: "64 word"
    using that by auto
  have "p AND 1 = 0 \<or> p AND 1 = 1"
    by (metis and_one_eq odd_iff_mod_2_eq_one mod2_eq_if)
  from aux [OF this] show ?thesis
    by (simp only: sketch_shift_def) (simp add: and_one_eq unat_mod_distrib)
qed

lemma sketch_idx_eq: "sketch_idx p = unat p div 2"
  by (simp add: sketch_idx_def drop_bit_Suc unat_div_distrib)

lemma sketch_pos_inj:
  assumes "sketch_idx p = sketch_idx q" "sketch_shift p = sketch_shift q"
  shows "p = q"
proof -
  have "unat p div 2 = unat q div 2" "unat p mod 2 = unat q mod 2"
    using assms by (simp_all add: sketch_idx_eq sketch_shift_eq)
  then have "unat p = unat q" by (metis div_mult_mod_eq)
  then show ?thesis by (simp add: word_unat_eq_iff)
qed


text \<open>\<open>ctr row p\<close>: the counter of a row at position \<open>p\<close>.\<close>

definition ctr :: "8 word list \<Rightarrow> 64 word \<Rightarrow> nat" where
  "ctr row p = unat (nibble (sketch_shift p) (row ! sketch_idx p))"

lemma ctr_eq: "ctr row p = unat (row ! (unat p div 2)) div 2 ^ (4 * (unat p mod 2)) mod 16"
  by (simp add: ctr_def unat_nibble sketch_shift_eq sketch_idx_eq)

lemma ctr_le: "ctr row p \<le> 15"
  using mod_less_divisor [of 16 "unat (row ! (unat p div 2)) div 2 ^ (4 * (unat p mod 2))"]
  by (simp add: ctr_eq)

lemma nibble_add:
  assumes s: "s = 0 \<or> s = 4" "s' = 0 \<or> s' = 4" and lt: "unat (nibble s b) < 15"
  shows "unat (nibble s' (b + push_bit s 1)) = unat (nibble s' b) + (if s' = s then 1 else 0)"
proof -
  have b: "unat b < 256" by (rule less_le_trans [OF unsigned_less]) simp
  have one: "unat (push_bit s 1 :: 8 word) = 2 ^ s" using s(1) by auto
  have q: "unat b div 16 < 16" using b by (simp add: div_less_iff_less_mult)
  have "unat b \<noteq> 255" if "unat b mod 16 < 15" using that by auto
  then have "unat b + 2 ^ s < 256" using s(1) lt b q by (auto simp: unat_nibble div_less_iff_less_mult)
  then have "unat (b + push_bit s 1) = unat b + 2 ^ s"
    by (simp only: unat_word_ariths(1) one) simp
  then show ?thesis
    using s lt q by (auto simp: unat_nibble mod_Suc div_Suc)
qed

lemma incRow_ctr:
  assumes "sketch_idx p < length row"
  shows "\<exists>row'. incRow p row = Some row' \<and> length row' = length row \<and>
    (\<forall>q. sketch_idx q < length row \<longrightarrow>
       ctr row' q = (if q = p then min 15 (ctr row p + 1) else ctr row q))"
proof (cases "ctr row p < 15")
  case True
  let ?b = "row ! sketch_idx p"
  have s: "sketch_shift q = 0 \<or> sketch_shift q = 4" for q by (auto simp: sketch_shift_eq)
  have "ctr (row[sketch_idx p := ?b + push_bit (sketch_shift p) 1]) q =
      (if q = p then ctr row p + 1 else ctr row q)" if "sketch_idx q < length row" for q
  proof (cases "sketch_idx q = sketch_idx p")
    case same: True
    then have "sketch_shift q = sketch_shift p \<longleftrightarrow> q = p" using sketch_pos_inj by blast
    then show ?thesis
      using True same assms nibble_add [OF s s, of p ?b q] by (simp add: ctr_def)
  qed (auto simp: ctr_def)
  with True assms show ?thesis by (auto simp: incRow_def Let_def ctr_def [symmetric] counterMax_def)
next
  case False
  with ctr_le [of row p] have "ctr row p = 15" by simp
  with assms show ?thesis by (auto simp: incRow_def Let_def ctr_def [symmetric] counterMax_def)
qed


section \<open>The sketch\<close>

text \<open>\<open>sketch_of c hs\<close>: the rows of \<open>c\<close> count the hashes \<open>hs\<close>, each row at the positions its seed
  gives them, saturating at 15.\<close>

definition row_of :: "64 word \<Rightarrow> 64 word list \<Rightarrow> 64 word \<Rightarrow> 8 word list \<Rightarrow> bool" where
  "row_of msk hs seed row \<longleftrightarrow>
     unat msk < 2 * length row \<and>
     (\<forall>h. ctr row (sketch_pos msk h seed) =
        min 15 (length (filter (\<lambda>x. sketch_pos msk x seed = sketch_pos msk h seed) hs)))"

definition sketch_of :: "CountMinSketch \<Rightarrow> 64 word list \<Rightarrow> bool" where
  "sketch_of c hs \<longleftrightarrow>
     list_all2 (row_of (cms_mask c) hs) (cms_seeds c) (cms_rows c) \<and>
     cms_additions c = int (length hs)"

lemma and_mask_le: "unat (x AND m :: 64 word) \<le> unat m"
proof -
  have "uint (x AND m) \<le> uint m" by (simp add: uint_and AND_upper2)
  then show ?thesis unfolding unat_eq_nat_uint by (rule nat_mono)
qed

lemma sketch_idx_bound:
  assumes "unat msk < 2 * n"
  shows "sketch_idx (sketch_pos msk h seed) < n"
  using assms and_mask_le [of "h XOR seed" msk] by (simp add: sketch_pos_def sketch_idx_eq)

lemma row_of_inc:
  assumes "row_of msk hs seed row"
  shows "\<exists>row'. incRow (sketch_pos msk h seed) row = Some row' \<and> row_of msk (h # hs) seed row'"
proof -
  have b: "sketch_idx (sketch_pos msk x seed) < length row" for x
    using assms sketch_idx_bound by (simp add: row_of_def)
  from incRow_ctr [OF b [of h]] b show ?thesis
    using assms by (fastforce simp: row_of_def)
qed

lemma incRows_of:
  assumes "list_all2 (row_of msk hs) seeds rows"
  shows "\<exists>rows'. incRows msk h seeds rows = Some rows' \<and> list_all2 (row_of msk (h # hs)) seeds rows'"
  using assms
proof (induction rule: list_all2_induct)
  case (Cons seed seeds row rows)
  from row_of_inc [OF Cons.hyps(1), of h] Cons.IH show ?case by auto
qed simp

lemma minRows_of:
  assumes "list_all2 (row_of msk hs) seeds rows"
  shows "minRows msk h m seeds rows = Some (fold min (map (\<lambda>seed.
    min 15 (length (filter (\<lambda>x. sketch_pos msk x seed = sketch_pos msk h seed) hs))) seeds) m)"
  using assms
proof (induction arbitrary: m rule: list_all2_induct)
  case (Cons seed seeds row rows)
  let ?v = "min 15 (length (filter (\<lambda>x. sketch_pos msk x seed = sketch_pos msk h seed) hs))"
  have "rowCounter (sketch_pos msk h seed) row = Some ?v"
    using Cons.hyps(1) sketch_idx_bound [of msk "length row" h seed]
    by (auto simp: row_of_def rowCounter_def ctr_def)
  moreover have "(if ?v < m then ?v else m) = min ?v m" by (auto simp: min_def)
  ultimately show ?case using Cons.IH by (simp only: minRows.simps) simp
qed simp

lemma Increment_of:
  assumes "sketch_of c hs" "length hs + 1 < 2 ^ 20"
  shows "\<exists>c'. Increment c h = Some c' \<and> sketch_of c' (h # hs) \<and>
    cms_mask c' = cms_mask c \<and> cms_seeds c' = cms_seeds c"
proof -
  from assms(1) incRows_of obtain rows' where
    "incRows (cms_mask c) h (cms_seeds c) (cms_rows c) = Some rows'"
    "list_all2 (row_of (cms_mask c) (h # hs)) (cms_seeds c) rows'"
    unfolding sketch_of_def by blast
  moreover have "i64 (1 + int (length hs)) = 1 + int (length hs)"
    using assms(2) by (intro i64_id) (simp add: is_i64_def)
  ultimately show ?thesis
    using assms by (simp add: Increment_def sketch_of_def Let_def resetThreshold_def add.commute)
qed

lemma fold_min_le: "fold min xs (m::nat) \<le> m"
proof (induction xs arbitrary: m)
  case (Cons x xs)
  from Cons.IH [of "min x m"] show ?case by simp
qed simp

lemma fold_min_ge: "(\<And>x. x \<in> set xs \<Longrightarrow> k \<le> x) \<Longrightarrow> k \<le> m \<Longrightarrow> k \<le> fold min xs (m::nat)"
  by (induction xs arbitrary: m) auto

lemma Estimate_of:
  assumes "sketch_of c hs"
  shows "\<exists>e. Estimate c h = Some e \<and> min 15 (count_list hs h) \<le> e \<and> e \<le> 15"
proof -
  have "count_list hs h \<le> length (filter (\<lambda>x. sketch_pos msk x seed = sketch_pos msk h seed) hs)"
    for msk seed
    by (induction hs) auto
  then have "min 15 (count_list hs h) \<le> min 15
      (length (filter (\<lambda>x. sketch_pos msk x seed = sketch_pos msk h seed) hs))" for msk seed
    by (rule min.mono [OF order_refl])
  then show ?thesis
    using assms
    by (auto simp: Estimate_def sketch_of_def minRows_of counterMax_def fold_min_le
        simp del: min.bounded_iff intro!: fold_min_ge)
qed

lemma nibble_reset:
  assumes "s = 0 \<or> s = 4"
  shows "nibble s (drop_bit 1 b AND 0x77) = drop_bit 1 (nibble s b)"
proof (rule bit_eqI)
  fix n
  have m: "bit (0x0F :: 8 word) k \<longleftrightarrow> k < 4" for k
    using bit_mask_iff [of 4 k, where 'a = "8 word"] by (auto simp: mask_eq_exp_minus_1)
  have "bit (0x77 :: 8 word) (s + n) \<longleftrightarrow> n < 3" if "n < 4"
  proof -
    from that have "n \<in> {0, 1, 2, 3}" by auto
    with assms show ?thesis by auto
  qed
  then show "bit (nibble s (drop_bit 1 b AND 0x77)) n \<longleftrightarrow> bit (drop_bit 1 (nibble s b)) n"
    by (auto simp only: nibble_def bit_and_iff bit_drop_bit_eq comp_def m) (auto simp: add.commute)
qed

text \<open>The ageing of the counters: \<open>cms_reset\<close> halves each of them.\<close>

lemma cms_reset_halves:
  assumes "sketch_idx p < length row"
  shows "ctr (map (\<lambda>b. drop_bit 1 b AND 0x77) row) p = ctr row p div 2"
proof -
  have "unat (drop_bit 1 (w :: 8 word)) = unat w div 2" for w
    by (simp add: drop_bit_Suc unat_div_distrib)
  moreover have "sketch_shift p = 0 \<or> sketch_shift p = 4" by (auto simp: sketch_shift_eq)
  ultimately show ?thesis
    using assms by (simp only: ctr_def nth_map length_map nibble_reset)
qed


text \<open>The widths for which the constructors build a sketch: the default, or 2 and more.\<close>

definition width_ok :: "int \<Rightarrow> bool" where
  "width_ok w \<longleftrightarrow> w \<le> 0 \<or> 2 \<le> w \<and> w \<le> 2 ^ 62"

lemma width_cases:
  assumes "width_ok w"
  obtains b where "nextPowerOf2 (if w \<le> 0 then 2 ^ 16 else w) = 2 ^ Suc b" "b < 62"
proof -
  let ?w = "if w \<le> 0 then 2 ^ 16 else w"
  have "1 < ?w" "?w \<le> 2 ^ 62" using assms by (auto simp: width_ok_def)
  from nextPowerOf2_eq [OF this] that show ?thesis by blast
qed

lemma unat_width_mask:
  assumes "b < 62"
  shows "unat (word_of_int (2 ^ Suc b - 1) :: 64 word) = 2 ^ Suc b - 1"
proof -
  have "(2::int) ^ Suc b < 2 ^ 64" using assms by (intro power_strict_increasing) simp_all
  then have "uint (word_of_int (2 ^ Suc b - 1) :: 64 word) = 2 ^ Suc b - 1"
    by (simp only: uint_word_of_int) (simp add: mod_pos_pos_trivial)
  also have "\<dots> = int (2 ^ Suc b - 1)" by (simp add: of_nat_diff)
  finally show ?thesis by (simp only: unat_eq_nat_uint nat_int)
qed

lemma ctr_zero: "sketch_idx p < n \<Longrightarrow> ctr (replicate n 0) p = 0"
  by (simp add: ctr_def nibble_def)

lemma NewCountMinSketch_of:
  assumes "width_ok w"
  shows "sketch_of (NewCountMinSketch w) []"
proof -
  from assms obtain b where b: "nextPowerOf2 (if w \<le> 0 then 2 ^ 16 else w) = 2 ^ Suc b" "b < 62"
    by (rule width_cases)
  let ?m = "word_of_int (2 ^ Suc b - 1) :: 64 word"
  have "unat ?m < 2 * 2 ^ b" by (simp only: unat_width_mask [OF b(2)]) simp
  then have row: "row_of ?m [] seed (replicate (2 ^ b) 0)" for seed
    using sketch_idx_bound [of ?m "2 ^ b"] by (simp add: row_of_def ctr_zero)
  have "nat (2 ^ Suc b div 2) = 2 ^ b" by (simp add: nat_power_eq)
  with row show ?thesis
    unfolding NewCountMinSketch_def Let_def cmSketchDefaultWidth_def b(1)
    by (simp add: sketch_of_def list_all2_conv_all_nth nat_power_eq del: power_Suc)
qed

lemma NewCountMinSketch_1: "Estimate (NewCountMinSketch 1) h = None"
  by (simp add: NewCountMinSketch_def Estimate_def nextPowerOf2_def Let_def cmSketchDepth_def
      rowCounter_def upt_rec)

section \<open>The doorkeeper\<close>

definition door_set :: "Doorkeeper \<Rightarrow> 64 word \<Rightarrow> bool" where
  "door_set d p \<longleftrightarrow> bit (dk_bits d ! (unat p div 64)) (unat p mod 64)"

definition door_wf :: "Doorkeeper \<Rightarrow> nat \<Rightarrow> bool" where
  "door_wf d n \<longleftrightarrow> unat (dk_mask d) div 64 < length (dk_bits d) \<and>
     dk_additions d = int n \<and> dk_resetEvery d = 2 ^ 20"

definition door_has :: "Doorkeeper \<Rightarrow> 64 word \<Rightarrow> bool" where
  "door_has d h \<longleftrightarrow> door_set d (door_pos1 (dk_mask d) h) \<and> door_set d (door_pos2 (dk_mask d) h)"

lemma unat_and_63: "unat (p AND 63 :: 64 word) = unat p mod 64"
proof -
  have "p AND 63 = take_bit 6 p" by (simp only: take_bit_eq_mask) (simp add: mask_eq_exp_minus_1)
  then show ?thesis by (simp add: take_bit_eq_mod unat_mod_distrib)
qed

lemma unat_drop_6: "unat (drop_bit 6 p :: 64 word) = unat p div 64"
  by (simp add: drop_bit_eq_div unat_div_distrib)

lemma bit_set_or: "bit (w OR 2 ^ n :: 64 word) m \<longleftrightarrow> bit w m \<or> m = n \<and> n < 64"
  by (auto simp: bit_or_iff bit_exp_iff)

lemma and_exp: "(w AND 2 ^ n :: 64 word) = 0 \<longleftrightarrow> \<not> bit w n"
  by (simp add: bit_iff_and_push_bit_not_eq_0)

lemma list_or_mono: "bit (xs ! i) m \<Longrightarrow> bit (xs[j := xs ! j OR w] ! i :: 64 word) m"
  by (cases "j < length xs") (auto simp: nth_list_update bit_or_iff list_update_beyond)

lemma Allow_spec:
  assumes "door_wf d n" "n + 1 < 2 ^ 20"
  shows "\<exists>d'. Allow d h = Some (d', door_has d h) \<and> door_wf d' (n + 1) \<and> dk_mask d' = dk_mask d \<and>
    door_has d' h \<and> (\<forall>x. door_has d x \<longrightarrow> door_has d' x)"
proof -
  let ?p = "door_pos1 (dk_mask d) h" and ?q = "door_pos2 (dk_mask d) h"
  have le: "unat (door_pos1 (dk_mask d) x) div 64 < length (dk_bits d)"
    "unat (door_pos2 (dk_mask d) x) div 64 < length (dk_bits d)" for x
    using assms(1) div_le_mono [OF and_mask_le, of _ "dk_mask d" 64]
    by (auto simp: door_wf_def door_pos1_def door_pos2_def intro: le_less_trans)
  have n: "i64 (int n + 1) = int n + 1"
    using assms(2) by (intro i64_id) (simp add: is_i64_def)
  let ?b1 = "(dk_bits d)[unat ?p div 64 := dk_bits d ! (unat ?p div 64) OR push_bit (unat ?p mod 64) 1]"
  let ?b2 = "?b1[unat ?q div 64 := ?b1 ! (unat ?q div 64) OR push_bit (unat ?q mod 64) 1]"
  let ?d = "d\<lparr> dk_bits := ?b2, dk_additions := int n + 1 \<rparr>"
  have "Allow d h = Some (?d, door_has d h)"
    using assms n le [of h]
    by (simp add: Allow_def Let_def unat_drop_6 unat_and_63 and_exp door_has_def door_set_def door_wf_def)
  moreover have "door_set d x \<Longrightarrow> door_set ?d x" for x
    by (auto simp: door_set_def intro!: list_or_mono)
  moreover have "door_has ?d h"
    using le [of h] by (auto simp: door_has_def door_set_def nth_list_update bit_set_or)
  ultimately show ?thesis
    using assms(1) by (intro exI [of _ ?d]) (auto simp: door_wf_def door_has_def)
qed


lemma NewDoorkeeper_wf:
  assumes "width_ok w"
  shows "door_wf (NewDoorkeeper w) 0"
proof -
  from assms obtain b where b: "nextPowerOf2 (if w \<le> 0 then 2 ^ 16 else w) = 2 ^ Suc b" "b < 62"
    by (rule width_cases)
  let ?m = "word_of_int (2 ^ Suc b - 1) :: 64 word"
  let ?c = "(2::int) ^ Suc b div 64"
  have "int (unat ?m) = 2 ^ Suc b - 1"
    using unat_width_mask [OF b(2)] by (simp add: of_nat_diff)
  moreover have "(2::int) ^ Suc b - 1 < 64 * (if ?c = 0 then 1 else ?c)"
  proof (cases "b < 5")
    case True
    then have "(2::int) ^ Suc b \<le> 2 ^ 5" by (intro power_increasing) simp_all
    then show ?thesis by simp
  next
    case False
    then have "6 \<le> Suc b" by simp
    then obtain c where "Suc b = 6 + c" using le_Suc_ex by blast
    then have "(2::int) ^ Suc b = 64 * 2 ^ c" by (simp only: power_add) simp
    then show ?thesis by (simp del: power_Suc)
  qed
  ultimately have "int (unat ?m) < 64 * (if ?c = 0 then 1 else ?c)" by simp
  then have "unat ?m < nat (if ?c = 0 then 1 else ?c) * 64" by linarith
  then have "unat ?m div 64 < nat (if ?c = 0 then 1 else ?c)" by (rule less_mult_imp_div_less)
  then show ?thesis
    unfolding NewDoorkeeper_def Let_def doorkeeperDefaultWidth_def b(1)
    by (simp add: door_wf_def doorkeeperResetEvery_def drop_bit_eq_div del: power_Suc
        split: if_split_asm)
qed

section \<open>Admission\<close>

text \<open>The stripe lock of an increment is chosen by the low bits of the hash, the byte by the hash
  and a seed: two hashes under different locks update the same byte.\<close>

lemma stripes_share_bytes:
  "sketch_idx (sketch_pos msk h seed) = sketch_idx (sketch_pos msk (h XOR 1) seed) \<and>
   h AND 15 \<noteq> (h XOR 1) AND 15"
proof
  have "drop_bit 1 (sketch_pos msk h seed) = drop_bit 1 (sketch_pos msk (h XOR 1) seed)"
    by (rule bit_eqI) (auto simp: sketch_pos_def bit_drop_bit_eq bit_and_iff bit_xor_iff bit_1_iff)
  then show "sketch_idx (sketch_pos msk h seed) = sketch_idx (sketch_pos msk (h XOR 1) seed)"
    by (simp only: sketch_idx_def)
  have "bit (h AND 15) 0 \<noteq> bit ((h XOR 1) AND 15) 0"
    by (simp add: bit_and_iff bit_xor_iff)
  then show "h AND 15 \<noteq> (h XOR 1) AND 15" by metis
qed

fun accesses :: "TinyLFU \<Rightarrow> 64 word list \<Rightarrow> TinyLFU go" where
  "accesses t [] = Some t"
| "accesses t (h # hs) = do { t' \<leftarrow> RecordAccess t h; accesses t' hs }"

text \<open>\<open>lfu_of t hs\<close>: after the accesses \<open>hs\<close> the doorkeeper knows every hash of \<open>hs\<close>, and the
  sketch counts all of them but the first of each hash.\<close>

definition lfu_of :: "TinyLFU \<Rightarrow> 64 word list \<Rightarrow> bool" where
  "lfu_of t hs \<longleftrightarrow>
     door_wf (tl_door t) (length hs) \<and> (\<forall>h \<in> set hs. door_has (tl_door t) h) \<and>
     (\<exists>ks. sketch_of (tl_sketch t) ks \<and> length ks \<le> length hs \<and>
           (\<forall>h. count_list hs h \<le> count_list ks h + 1))"

lemma RecordAccess_of:
  assumes "lfu_of t hs" "length hs + 1 < 2 ^ 20"
  shows "\<exists>t'. RecordAccess t h = Some t' \<and> lfu_of t' (h # hs)"
proof -
  from assms(1) obtain ks where ks: "sketch_of (tl_sketch t) ks" "length ks \<le> length hs"
    "\<And>h. count_list hs h \<le> count_list ks h + 1" and dw: "door_wf (tl_door t) (length hs)"
    and dh: "\<forall>h \<in> set hs. door_has (tl_door t) h"
    by (auto simp: lfu_of_def)
  from Allow_spec [OF dw assms(2), of h] obtain d' where
    d': "Allow (tl_door t) h = Some (d', door_has (tl_door t) h)" "door_wf d' (length hs + 1)"
      "door_has d' h" "\<forall>x. door_has (tl_door t) x \<longrightarrow> door_has d' x"
    by blast
  show ?thesis
  proof (cases "door_has (tl_door t) h")
    case True
    from Increment_of [OF ks(1), of h] ks(2) assms(2) obtain c' where
      "Increment (tl_sketch t) h = Some c'" "sketch_of c' (h # ks)" by auto
    with True d' dh ks(2,3) show ?thesis
      by (fastforce simp: RecordAccess_def lfu_of_def intro!: exI [of _ "h # ks"])
  next
    case False
    with dh have "count_list hs h = 0" by (auto simp: count_list_0_iff)
    with False d' dh ks show ?thesis
      by (fastforce simp: RecordAccess_def lfu_of_def intro!: exI [of _ ks])
  qed
qed

lemma accesses_of:
  assumes "lfu_of t hs" "length hs + length xs < 2 ^ 20"
  shows "\<exists>t'. accesses t xs = Some t' \<and> lfu_of t' (rev xs @ hs)"
  using assms
proof (induction xs arbitrary: t hs)
  case (Cons x xs)
  from RecordAccess_of [OF Cons.prems(1), of x] Cons.prems(2) obtain t' where
    "RecordAccess t x = Some t'" "lfu_of t' (x # hs)" by auto
  with Cons.IH [of t' "x # hs"] Cons.prems(2) show ?case by auto
qed simp

lemma NewTinyLFU_of: "width_ok w \<Longrightarrow> lfu_of (NewTinyLFU w) []"
  by (auto simp: lfu_of_def NewTinyLFU_def NewDoorkeeper_wf intro!: exI [of _ "[]"] NewCountMinSketch_of)



end
