(* ===== verification/GoLib.thy ===== *)
theory GoLib
  imports Prelude
begin

text \<open>
  The functions of the Go standard library the modelled code calls: \<^verbatim>\<open>strconv.FormatInt\<close> and
  \<^verbatim>\<open>strconv.ParseInt\<close> in base 10 with 64 bits, \<^verbatim>\<open>utf8.DecodeRuneInString\<close> and \<^verbatim>\<open>path.Match\<close>,
  written as the library documents and implements them.
\<close>

section \<open>Decimal integers\<close>

definition digit_char :: "nat \<Rightarrow> char" where
  "digit_char d = char_of (48 + d)"

definition is_digit :: "char \<Rightarrow> bool" where
  "is_digit c \<longleftrightarrow> 48 \<le> (of_char c :: nat) \<and> of_char c \<le> (57 :: nat)"

definition digit_val :: "char \<Rightarrow> nat" where
  "digit_val c = of_char c - 48"

fun format_nat :: "nat \<Rightarrow> string" where
  "format_nat n = (if n < 10 then [digit_char n] else format_nat (n div 10) @ [digit_char (n mod 10)])"

declare format_nat.simps [simp del]

definition FormatInt :: "int \<Rightarrow> string" where
  "FormatInt i = (if i < 0 then CHR ''-'' # format_nat (nat (- i)) else format_nat (nat i))"

text \<open>\<^verbatim>\<open>ParseUint\<close> in base 10, without its overflow check, which \<^verbatim>\<open>ParseInt\<close> repeats: \<open>None\<close> is
  \<^verbatim>\<open>ErrSyntax\<close>.\<close>

definition parse_digits :: "string \<Rightarrow> nat option" where
  "parse_digits s =
     (if s \<noteq> [] \<and> list_all is_digit s then Some (foldl (\<lambda>n c. 10 * n + digit_val c) 0 s) else None)"

definition ParseInt :: "string \<Rightarrow> int option" where
  "ParseInt s =
     (case s of
        [] \<Rightarrow> None
      | c # cs \<Rightarrow>
          (let neg = (c = CHR ''-'');
               ds = (if c = CHR ''-'' \<or> c = CHR ''+'' then cs else s)
           in case parse_digits ds of
                None \<Rightarrow> None
              | Some n \<Rightarrow>
                  (if \<not> neg \<and> int n \<ge> 2 ^ 63 then None
                   else if neg \<and> int n > 2 ^ 63 then None
                   else Some (if neg then - int n else int n))))"

lemma is_digit_digit_char [simp]: "d < 10 \<Longrightarrow> is_digit (digit_char d)"
  by (simp add: is_digit_def digit_char_def)

lemma digit_val_digit_char [simp]: "d < 10 \<Longrightarrow> digit_val (digit_char d) = d"
  by (simp add: digit_val_def digit_char_def)

lemma parse_digits_format_nat: "parse_digits (format_nat n) = Some n"
proof (induction n rule: format_nat.induct)
  case (1 n)
  show ?case
  proof (cases "n < 10")
    case True
    then show ?thesis by (simp add: format_nat.simps [of n] parse_digits_def)
  next
    case False
    with 1 have "list_all is_digit (format_nat (n div 10)) \<and>
        foldl (\<lambda>n c. 10 * n + digit_val c) 0 (format_nat (n div 10)) = n div 10"
      by (simp add: parse_digits_def split: if_splits)
    with False show ?thesis by (simp add: format_nat.simps [of n] parse_digits_def)
  qed
qed

lemma format_nat_head: "\<exists>c cs. format_nat n = c # cs \<and> is_digit c"
proof -
  have "format_nat n \<noteq> [] \<and> list_all is_digit (format_nat n)"
    using parse_digits_format_nat [of n] by (simp add: parse_digits_def split: if_splits)
  then show ?thesis by (cases "format_nat n") simp_all
qed

lemma is_digit_sign [simp]: "\<not> is_digit (CHR ''-'')" "\<not> is_digit (CHR ''+'')"
  by (simp_all add: is_digit_def)

lemma ParseInt_FormatInt: "is_i64 i \<Longrightarrow> ParseInt (FormatInt i) = Some i"
proof (cases "i < 0")
  case True
  assume "is_i64 i"
  with True show ?thesis
    by (simp add: ParseInt_def FormatInt_def parse_digits_format_nat is_i64_def)
next
  case False
  assume i: "is_i64 i"
  obtain c cs where c: "format_nat (nat i) = c # cs" "is_digit c"
    using format_nat_head by blast
  then have "c \<noteq> CHR ''-''" "c \<noteq> CHR ''+''" by auto
  with False i c parse_digits_format_nat [of "nat i"] show ?thesis
    by (simp add: ParseInt_def FormatInt_def is_i64_def)
qed

lemma ParseInt_is_i64: "ParseInt s = Some i \<Longrightarrow> is_i64 i"
  by (auto simp: ParseInt_def is_i64_def Let_def split: list.splits option.splits if_splits)

section \<open>Pattern matching\<close>

definition RuneError :: nat where "RuneError = 0xFFFD"

text \<open>\<^verbatim>\<open>utf8.DecodeRuneInString\<close>: the first rune and its width; an invalid encoding is
  \<open>(RuneError, 1)\<close>.\<close>

definition cont :: "nat \<Rightarrow> nat \<Rightarrow> nat \<Rightarrow> bool" where
  "cont lo hi b \<longleftrightarrow> lo \<le> b \<and> b \<le> hi"

definition DecodeRuneInString :: "string \<Rightarrow> nat \<times> nat" where
  "DecodeRuneInString s =
     (case map of_char (take 4 s) of
        [] \<Rightarrow> (RuneError, 0)
      | b0 # bs \<Rightarrow>
          if b0 < 0x80 then (b0, 1)
          else case bs of
            [] \<Rightarrow> (RuneError, 1)
          | b1 # bs1 \<Rightarrow>
              if 0xC2 \<le> b0 \<and> b0 \<le> 0xDF
              then (if cont 0x80 0xBF b1 then ((b0 - 0xC0) * 64 + (b1 - 0x80), 2) else (RuneError, 1))
              else case bs1 of
                [] \<Rightarrow> (RuneError, 1)
              | b2 # bs2 \<Rightarrow>
                  if 0xE0 \<le> b0 \<and> b0 \<le> 0xEF
                  then (if cont (if b0 = 0xE0 then 0xA0 else 0x80) (if b0 = 0xED then 0x9F else 0xBF) b1 \<and>
                           cont 0x80 0xBF b2
                        then ((b0 - 0xE0) * 4096 + (b1 - 0x80) * 64 + (b2 - 0x80), 3)
                        else (RuneError, 1))
                  else case bs2 of
                    [] \<Rightarrow> (RuneError, 1)
                  | b3 # _ \<Rightarrow>
                      if 0xF0 \<le> b0 \<and> b0 \<le> 0xF4 \<and>
                         cont (if b0 = 0xF0 then 0x90 else 0x80) (if b0 = 0xF4 then 0x8F else 0xBF) b1 \<and>
                         cont 0x80 0xBF b2 \<and> cont 0x80 0xBF b3
                      then ((b0 - 0xF0) * 262144 + (b1 - 0x80) * 4096 + (b2 - 0x80) * 64 + (b3 - 0x80), 4)
                      else (RuneError, 1))"

lemma DecodeRuneInString_width: "s \<noteq> [] \<Longrightarrow> 0 < snd (DecodeRuneInString s)"
  by (cases s) (auto simp: DecodeRuneInString_def split: list.splits)

definition getEsc :: "string \<Rightarrow> (nat \<times> string) option" where
  "getEsc chunk =
     (if chunk = [] \<or> hd chunk = CHR ''-'' \<or> hd chunk = CHR '']'' then None
      else let c1 = (if hd chunk = CHR 0x5C then tl chunk else chunk)
           in if c1 = [] then None
              else let (r, n) = DecodeRuneInString c1
                   in if r = RuneError \<and> n = 1 \<or> drop n c1 = [] then None else Some (r, drop n c1))"

lemma getEsc_shrinks: "getEsc c = Some (r, c') \<Longrightarrow> length c' < length c \<and> c' \<noteq> []"
proof -
  assume g: "getEsc c = Some (r, c')"
  let ?c1 = "if hd c = CHR 0x5C then tl c else c"
  from g have c1: "?c1 \<noteq> []" "c' = drop (snd (DecodeRuneInString ?c1)) ?c1" "c' \<noteq> []"
    by (auto simp: getEsc_def Let_def split: if_splits prod.splits)
  have "length c' < length ?c1"
    using DecodeRuneInString_width [OF c1(1)] c1 by auto
  also have "length ?c1 \<le> length c" by simp
  finally show ?thesis using c1(3) by simp
qed

text \<open>The ranges of a character class, after its \<^verbatim>\<open>[\<close> and \<^verbatim>\<open>^\<close>.\<close>

function classRanges :: "nat \<Rightarrow> string \<Rightarrow> bool \<Rightarrow> nat \<Rightarrow> (bool \<times> string) option" where
  "classRanges r chunk mt nrange =
     (if chunk \<noteq> [] \<and> hd chunk = CHR '']'' \<and> nrange > 0 then Some (mt, tl chunk)
      else case getEsc chunk of
        None \<Rightarrow> None
      | Some (lo, c1) \<Rightarrow>
          if hd c1 = CHR ''-''
          then (case getEsc (tl c1) of
                  None \<Rightarrow> None
                | Some (hi, c2) \<Rightarrow> classRanges r c2 (mt \<or> lo \<le> r \<and> r \<le> hi) (Suc nrange))
          else classRanges r c1 (mt \<or> lo \<le> r \<and> r \<le> lo) (Suc nrange))"
  by pat_completeness auto
termination
  by (relation "measure (\<lambda>(r, chunk, mt, n). length chunk)")
    (auto dest!: getEsc_shrinks)


declare classRanges.simps [simp del]

lemma classRanges_shrinks: "classRanges r c mt n = Some (m, c') \<Longrightarrow> length c' < length c"
proof (induction r c mt n rule: classRanges.induct)
  case (1 r chunk mt n)
  show ?case
  proof (cases "chunk \<noteq> [] \<and> hd chunk = CHR '']'' \<and> n > 0")
    case True
    with "1.prems" show ?thesis by (cases chunk) (auto simp: classRanges.simps [of r])
  next
    case False
    with "1.prems" obtain lo c1 where g: "getEsc chunk = Some (lo, c1)"
      by (auto simp: classRanges.simps [of r chunk] split: option.splits)
    note g' = getEsc_shrinks [OF g]
    show ?thesis
    proof (cases "hd c1 = CHR ''-''")
      case True
      with "1.prems" False g obtain hi c2 where h: "getEsc (tl c1) = Some (hi, c2)"
        by (auto simp: classRanges.simps [of r chunk] split: option.splits)
      have "length c' < length c2"
        using "1.prems" "1.IH"(1) [OF False g refl True h refl] False g True h
        by (auto simp: classRanges.simps [of r chunk])
      with getEsc_shrinks [OF h] g' show ?thesis by auto
    next
      case ne: False
      have "length c' < length c1"
        using "1.prems" "1.IH"(2) [OF False g refl ne] False g ne
        by (auto simp: classRanges.simps [of r chunk])
      with g' show ?thesis by simp
    qed
  qed
qed

text \<open>A chunk of a pattern against a prefix of the name. \<open>None\<close> is \<^verbatim>\<open>ErrBadPattern\<close>, \<open>Some None\<close> no
  match, \<open>Some (Some rest)\<close> a match that leaves \<open>rest\<close>.\<close>

definition classRest :: "string \<Rightarrow> string" where
  "classRest cs = (if cs \<noteq> [] \<and> hd cs = CHR ''^'' then tl cs else cs)"

definition litOf :: "char \<Rightarrow> string \<Rightarrow> (char \<times> string) option" where
  "litOf c cs = (if c \<noteq> CHR 0x5C then Some (c, cs) else case cs of [] \<Rightarrow> None | d # ds \<Rightarrow> Some (d, ds))"

lemma classRest_shrinks:
  "classRanges r (classRest cs) mt n = Some (m, c') \<Longrightarrow> length c' < Suc (length cs)"
  by (auto simp: classRest_def dest!: classRanges_shrinks split: if_splits)

lemma litOf_shrinks: "litOf c cs = Some (d, ds) \<Longrightarrow> length ds < Suc (length cs)"
  by (auto simp: litOf_def split: if_splits list.splits)

function matchChunk :: "bool \<Rightarrow> string \<Rightarrow> string \<Rightarrow> string option option" where
  "matchChunk failed0 [] s = Some (if failed0 then None else Some s)"
| "matchChunk failed0 (c # cs) s =
     (let failed = (failed0 \<or> s = []);
          (r, width) = (if failed then (0, 0) else DecodeRuneInString s)
      in if c = CHR ''['' then
           (case classRanges r (classRest cs) False 0 of
              None \<Rightarrow> None
            | Some (mt, c2) \<Rightarrow>
                matchChunk (failed \<or> mt = (classRest cs \<noteq> cs)) c2 (drop width s))
         else if c = CHR ''?'' then
           matchChunk (failed \<or> hd s = CHR ''/'') cs (drop width s)
         else
           (case litOf c cs of
              None \<Rightarrow> None
            | Some (d, ds) \<Rightarrow>
                if failed then matchChunk True ds s else matchChunk (d \<noteq> hd s) ds (tl s)))"
  by pat_completeness auto
termination
  by (relation "measure (\<lambda>(f, chunk, s). length chunk)")
    (auto dest: classRest_shrinks litOf_shrinks)

text \<open>\<^verbatim>\<open>scanChunk\<close>: the leading stars, the chunk up to the next star outside a class, and the
  rest.\<close>

fun scanLit :: "bool \<Rightarrow> string \<Rightarrow> string \<times> string" where
  "scanLit inrange [] = ([], [])"
| "scanLit inrange (c # cs) =
     (if c = CHR 0x5C
      then (case cs of
              [] \<Rightarrow> ([c], [])
            | d # ds \<Rightarrow> (let (a, b) = scanLit inrange ds in (c # d # a, b)))
      else if c = CHR ''*'' \<and> \<not> inrange then ([], c # cs)
      else let (a, b) = scanLit (if c = CHR ''['' then True else if c = CHR '']'' then False else inrange) cs
           in (c # a, b))"

definition scanChunk :: "string \<Rightarrow> bool \<times> string \<times> string" where
  "scanChunk pattern =
     (let p = dropWhile (\<lambda>c. c = CHR ''*'') pattern;
          (chunk, rest) = scanLit False p
      in (p \<noteq> pattern, chunk, rest))"

lemma scanLit_append: "scanLit b p = (x, y) \<Longrightarrow> p = x @ y"
  by (induction b p arbitrary: x y rule: scanLit.induct)
    (auto simp: Let_def split: if_splits prod.splits list.splits)

lemma scanLit_nonempty: "c \<noteq> CHR ''*'' \<Longrightarrow> fst (scanLit False (c # cs)) \<noteq> []"
  by (cases cs) (simp_all add: Let_def split_beta)

lemma scanChunk_shrinks:
  assumes "scanChunk p = (star, chunk, rest)" "p \<noteq> []"
  shows "length rest < length p"
proof -
  let ?star = "\<lambda>c. c = CHR ''*''"
  obtain c cs where p: "p = c # cs" using assms(2) by (cases p) auto
  obtain x y where xy: "scanLit False (dropWhile ?star p) = (x, y)" by fastforce
  with assms(1) have rest: "rest = y" "dropWhile ?star p = x @ y"
    by (auto simp: scanChunk_def Let_def dest: scanLit_append)
  show ?thesis
  proof (cases "?star c")
    case True
    with p rest have "length rest \<le> length (dropWhile ?star cs)" by simp
    also have "\<dots> \<le> length cs" by (rule length_dropWhile_le)
    finally show ?thesis by (simp add: p)
  next
    case False
    with p xy scanLit_nonempty [OF False, of cs] have "x \<noteq> []" by (simp del: scanLit.simps)
    moreover have "p = x @ y" using rest p False by simp
    ultimately show ?thesis using rest(1) by simp
  qed
qed

text \<open>The search of a chunk behind a star: it skips one more byte at a time, never a slash.\<close>

fun starSearch :: "bool \<Rightarrow> string \<Rightarrow> string \<Rightarrow> string option option" where
  "starSearch fin chunk [] = Some None"
| "starSearch fin chunk (x # rest) =
     (if x = CHR ''/'' then Some None
      else case matchChunk False chunk rest of
             None \<Rightarrow> None
           | Some None \<Rightarrow> starSearch fin chunk rest
           | Some (Some t) \<Rightarrow> (if fin \<and> t \<noteq> [] then starSearch fin chunk rest else Some (Some t)))"

function chunksValid :: "string \<Rightarrow> bool" where
  "chunksValid pattern =
     (if pattern = [] then True
      else case scanChunk pattern of
        (star, chunk, rest) \<Rightarrow> matchChunk False chunk [] \<noteq> None \<and> chunksValid rest)"
  by pat_completeness auto
termination
  by (relation "measure length") (auto dest: scanChunk_shrinks [OF sym])

text \<open>\<^verbatim>\<open>path.Match\<close>, whose outer loop takes one chunk per iteration: \<open>None\<close> is \<^verbatim>\<open>ErrBadPattern\<close>.\<close>

definition matchHere :: "bool \<Rightarrow> bool \<Rightarrow> string \<Rightarrow> string \<Rightarrow> string option option" where
  "matchHere star fin chunk name =
     (let skip = (if star then starSearch fin chunk name else Some None)
      in case matchChunk False chunk name of
           None \<Rightarrow> None
         | Some None \<Rightarrow> skip
         | Some (Some t) \<Rightarrow> (if t = [] \<or> \<not> fin then Some (Some t) else skip))"

function path_Match :: "string \<Rightarrow> string \<Rightarrow> bool option" where
  "path_Match pattern name =
     (if pattern = [] then Some (name = [])
      else case scanChunk pattern of
        (star, chunk, rest) \<Rightarrow>
          if star \<and> chunk = [] then Some (CHR ''/'' \<notin> set name)
          else (case matchHere star (rest = []) chunk name of
                  None \<Rightarrow> None
                | Some (Some t) \<Rightarrow> path_Match rest t
                | Some None \<Rightarrow> (if chunksValid rest then Some False else None)))"
  by pat_completeness auto
termination
  by (relation "measure (\<lambda>(p, n). length p)") (auto dest: scanChunk_shrinks [OF sym])

declare path_Match.simps [simp del] chunksValid.simps [simp del]


end
