(* ===== verification/Dict.thy ===== *)
theory Dict
  imports GoLib
begin

text \<open>
  The sharded dictionary of the object store, \<^verbatim>\<open>internal/engine/memory/dict.go\<close>. A shard is a Go
  map from keys to entries; the seeded \<^verbatim>\<open>maphash\<close> of a dictionary is the function \<open>d_seed\<close>.
  \<^verbatim>\<open>interface{}\<close> values are a type parameter. The current time is the argument \<open>now\<close> of an
  operation, in nanoseconds. An operation that goes through a shard pointer returns the
  updated dictionary; a call on a dictionary without shards panics, \<open>None\<close>.

  \<open>sharded\<close> is the contract of a table that is split by a hash of the key; the dictionary is an
  instance, and so it is one keyed container (\<open>kv_store\<close>). \<open>dict_live\<close> is what a client sees: the
  entries that have not expired.
\<close>

section \<open>Model\<close>

record 'v Entry =
  en_Value :: 'v
  en_expireAt :: int
  en_CreatedAt :: int
  en_UpdatedAt :: int
  en_lastAccess :: int
  en_accessFreq :: "32 word"

definition IsExpired :: "int \<Rightarrow> ('v, 'm) Entry_scheme \<Rightarrow> bool" where
  "IsExpired now e = (if en_expireAt e = 0 then False else now > en_expireAt e)"

definition SetExpireAt :: "int \<Rightarrow> ('v, 'm) Entry_scheme \<Rightarrow> ('v, 'm) Entry_scheme" where
  "SetExpireAt t e = e\<lparr> en_expireAt := t \<rparr>"

definition UpdateAccessStats :: "int \<Rightarrow> ('v, 'm) Entry_scheme \<Rightarrow> ('v, 'm) Entry_scheme" where
  "UpdateAccessStats now e = e\<lparr> en_lastAccess := now, en_accessFreq := en_accessFreq e + 1 \<rparr>"

type_synonym 'v Shard = "(string, 'v Entry) gomap"

record 'v Dict =
  d_shards :: "'v Shard list"
  d_shardCount :: "32 word"
  d_seed :: "string \<Rightarrow> 64 word"

definition defaultShardCount :: int where
  "defaultShardCount = 256"

definition NewDict :: "(string \<Rightarrow> 64 word) \<Rightarrow> int \<Rightarrow> 'v Dict" where
  "NewDict seed shardCount0 =
     (let shardCount = (if shardCount0 \<le> 0 then defaultShardCount else shardCount0)
      in \<lparr> d_shards = replicate (nat shardCount) [], d_shardCount = word_of_int shardCount,
           d_seed = seed \<rparr>)"

text \<open>The shard of a key, as its index in \<^verbatim>\<open>d.shards\<close>.\<close>

definition dict_getShard :: "'v Dict \<Rightarrow> string \<Rightarrow> nat go" where
  "dict_getShard d key =
     (if d_shardCount d = 0 then None
      else let i = unat (d_seed d key mod (ucast (d_shardCount d) :: 64 word))
           in if i < length (d_shards d) then Some i else None)"

definition dict_items :: "'v Dict \<Rightarrow> nat \<Rightarrow> 'v Shard" where
  "dict_items d i = d_shards d ! i"

definition dict_setItems :: "'v Dict \<Rightarrow> nat \<Rightarrow> 'v Shard \<Rightarrow> 'v Dict" where
  "dict_setItems d i m = d\<lparr> d_shards := (d_shards d)[i := m] \<rparr>"

definition dict_Del1 :: "'v Dict \<Rightarrow> string \<Rightarrow> ('v Dict \<times> int) go" where
  "dict_Del1 d key =
     do { i \<leftarrow> dict_getShard d key;
          case mget (dict_items d i) key of
            Some _ \<Rightarrow> Some (dict_setItems d i (mdel key (dict_items d i)), 1)
          | None \<Rightarrow> Some (d, 0) }"

fun dict_Del :: "'v Dict \<Rightarrow> string list \<Rightarrow> ('v Dict \<times> int) go" where
  "dict_Del d [] = Some (d, 0)"
| "dict_Del d (key # keys) =
     do { (d1, n) \<leftarrow> dict_Del1 d key;
          (d2, m) \<leftarrow> dict_Del d1 keys;
          Some (d2, n + m) }"

definition dict_Get :: "int \<Rightarrow> 'v Dict \<Rightarrow> string \<Rightarrow> ('v Dict \<times> 'v Entry option) go" where
  "dict_Get now d key =
     do { i \<leftarrow> dict_getShard d key;
          case mget (dict_items d i) key of
            None \<Rightarrow> Some (d, None)
          | Some e \<Rightarrow>
              if IsExpired now e then do { (d', _) \<leftarrow> dict_Del d [key]; Some (d', None) }
              else let e' = UpdateAccessStats now e
                   in Some (dict_setItems d i (mput key e' (dict_items d i)), Some e') }"

definition newEntry :: "int \<Rightarrow> 'v \<Rightarrow> int \<Rightarrow> 'v Entry" where
  "newEntry now v ttl =
     \<lparr> en_Value = v, en_expireAt = (if ttl > 0 then i64 (now + ttl) else 0), en_CreatedAt = now,
       en_UpdatedAt = now, en_lastAccess = now, en_accessFreq = 1 \<rparr>"

definition dict_SetEntry :: "'v Dict \<Rightarrow> string \<Rightarrow> 'v Entry \<Rightarrow> 'v Dict go" where
  "dict_SetEntry d key e =
     do { i \<leftarrow> dict_getShard d key;
          Some (dict_setItems d i (mput key e (dict_items d i))) }"

definition dict_Set :: "int \<Rightarrow> 'v Dict \<Rightarrow> string \<Rightarrow> 'v \<Rightarrow> int \<Rightarrow> 'v Dict go" where
  "dict_Set now d key v ttl =
     do { i \<leftarrow> dict_getShard d key;
          Some (dict_setItems d i (mput key (newEntry now v ttl) (dict_items d i))) }"

definition dict_SetNX :: "int \<Rightarrow> 'v Dict \<Rightarrow> string \<Rightarrow> 'v \<Rightarrow> int \<Rightarrow> ('v Dict \<times> bool) go" where
  "dict_SetNX now d key v ttl =
     do { i \<leftarrow> dict_getShard d key;
          if (case mget (dict_items d i) key of Some e \<Rightarrow> \<not> IsExpired now e | None \<Rightarrow> False)
          then Some (d, False)
          else Some (dict_setItems d i (mput key (newEntry now v ttl) (dict_items d i)), True) }"

definition dict_SetXX :: "int \<Rightarrow> 'v Dict \<Rightarrow> string \<Rightarrow> 'v \<Rightarrow> int \<Rightarrow> ('v Dict \<times> bool) go" where
  "dict_SetXX now d key v ttl =
     do { i \<leftarrow> dict_getShard d key;
          if (case mget (dict_items d i) key of Some e \<Rightarrow> IsExpired now e | None \<Rightarrow> True)
          then Some (d, False)
          else Some (dict_setItems d i (mput key (newEntry now v ttl) (dict_items d i)), True) }"

fun dict_Exists :: "int \<Rightarrow> 'v Dict \<Rightarrow> string list \<Rightarrow> ('v Dict \<times> int) go" where
  "dict_Exists now d [] = Some (d, 0)"
| "dict_Exists now d (key # keys) =
     do { (d1, r) \<leftarrow> dict_Get now d key;
          (d2, n) \<leftarrow> dict_Exists now d1 keys;
          Some (d2, (if r = None then 0 else 1) + n) }"

definition matchPattern :: "string \<Rightarrow> string \<Rightarrow> bool" where
  "matchPattern pattern key = (pattern = ''*'' \<or> path_Match pattern key = Some True)"

definition dict_Keys :: "int \<Rightarrow> 'v Dict \<Rightarrow> string \<Rightarrow> string list" where
  "dict_Keys now d pattern =
     concat (map (\<lambda>items. map fst (filter (\<lambda>(k, e). \<not> IsExpired now e \<and> matchPattern pattern k) items))
       (d_shards d))"

definition dict_Len :: "'v Dict \<Rightarrow> int" where
  "dict_Len d = (\<Sum>items \<leftarrow> d_shards d. int (length items))"

definition dict_Expire :: "int \<Rightarrow> 'v Dict \<Rightarrow> string \<Rightarrow> int \<Rightarrow> ('v Dict \<times> bool) go" where
  "dict_Expire now d key ttl =
     do { i \<leftarrow> dict_getShard d key;
          case mget (dict_items d i) key of
            None \<Rightarrow> Some (d, False)
          | Some e \<Rightarrow>
              if IsExpired now e then Some (d, False)
              else Some (dict_setItems d i (mput key
                     (SetExpireAt (if ttl > 0 then i64 (now + ttl) else 0) e) (dict_items d i)), True) }"

definition dict_TTL :: "int \<Rightarrow> 'v Dict \<Rightarrow> string \<Rightarrow> ('v Dict \<times> int \<times> bool) go" where
  "dict_TTL now d key =
     do { (d', r) \<leftarrow> dict_Get now d key;
          case r of
            None \<Rightarrow> Some (d', -2, False)
          | Some e \<Rightarrow>
              (let remaining = i64 (en_expireAt e - now)
               in if en_expireAt e = 0 then Some (d', -1, True)
                  else if remaining < 0 then Some (d', -2, False)
                  else Some (d', remaining, True)) }"

text \<open>\<^verbatim>\<open>ForEach\<close> calls \<^verbatim>\<open>fn\<close> on the entries, shard by shard, until it returns false; what \<^verbatim>\<open>fn\<close>
  collects is a state that is threaded through.\<close>

fun forEach :: "(string \<Rightarrow> 'e \<Rightarrow> 's \<Rightarrow> 's \<times> bool) \<Rightarrow> (string \<times> 'e) list \<Rightarrow> 's \<Rightarrow> 's" where
  "forEach fn [] s = s"
| "forEach fn ((k, e) # kes) s = (let (s', go_on) = fn k e s in if go_on then forEach fn kes s' else s')"

definition dict_ForEach :: "'v Dict \<Rightarrow> (string \<Rightarrow> 'v Entry \<Rightarrow> 's \<Rightarrow> 's \<times> bool) \<Rightarrow> 's \<Rightarrow> 's" where
  "dict_ForEach d fn s = forEach fn (concat (d_shards d)) s"

text \<open>\<^verbatim>\<open>RandomKeys\<close> panics on a negative \<^verbatim>\<open>n\<close> (the capacity of \<^verbatim>\<open>make\<close>) and returns at least one key
  for \<^verbatim>\<open>n = 0\<close>, because it tests the length after appending.\<close>

definition dict_RandomKeys :: "'v Dict \<Rightarrow> int \<Rightarrow> string list go" where
  "dict_RandomKeys d n =
     (if n < 0 then None
      else Some (take (nat (max n 1)) (map fst (concat (d_shards d)))))"

definition dict_Clear :: "'v Dict \<Rightarrow> 'v Dict" where
  "dict_Clear d = d\<lparr> d_shards := map (\<lambda>_. []) (d_shards d) \<rparr>"


section \<open>Sharded tables\<close>

text \<open>The contract of a table split into \<open>n\<close> shards by an index function: each shard is a keyed
  container, and the index of a key is in range.\<close>

locale sharded = kv_store lookup insert_kv delete_kv ok
  for lookup :: "'s \<Rightarrow> 'k \<Rightarrow> 'v option" and insert_kv delete_kv and ok :: "'s \<Rightarrow> bool" +
  fixes idx :: "'k \<Rightarrow> nat" and n :: nat
  assumes idx_bound: "idx k < n"
begin

lemma shard_insert:
  assumes "length ss = n" "\<And>i. i < n \<Longrightarrow> ok (ss ! i)"
  shows "lookup (ss[idx k := insert_kv k v (ss ! idx k)] ! idx k') k' =
    (if k' = k then Some v else lookup (ss ! idx k') k')"
  using assms idx_bound [of k] by (cases "idx k' = idx k") (auto simp: lookup_insert)

lemma shard_delete:
  assumes "length ss = n" "\<And>i. i < n \<Longrightarrow> ok (ss ! i)"
  shows "lookup (ss[idx k := delete_kv k (ss ! idx k)] ! idx k') k' =
    (if k' = k then None else lookup (ss ! idx k') k')"
  using assms idx_bound [of k] by (cases "idx k' = idx k") (auto simp: lookup_delete)

end

text \<open>Go maps, sharded by a hash modulo a positive number of shards.\<close>

interpretation sm: sharded mget mput mdel mwf "\<lambda>k. h k mod Suc m" "Suc m" for h m
  by unfold_locales simp

section \<open>The dictionary as one table\<close>

definition dict_idx :: "'v Dict \<Rightarrow> string \<Rightarrow> nat" where
  "dict_idx d k = unat (d_seed d k) mod unat (d_shardCount d)"

definition dict_wf :: "'v Dict \<Rightarrow> bool" where
  "dict_wf d \<longleftrightarrow>
     0 < unat (d_shardCount d) \<and> length (d_shards d) = unat (d_shardCount d) \<and>
     (\<forall>i < length (d_shards d). mwf (d_shards d ! i) \<and>
        (\<forall>k \<in> set (mkeys (d_shards d ! i)). dict_idx d k = i))"

definition dict_lookup :: "'v Dict \<Rightarrow> string \<Rightarrow> 'v Entry option" where
  "dict_lookup d k = mget (d_shards d ! dict_idx d k) k"

definition dict_put :: "string \<Rightarrow> 'v Entry \<Rightarrow> 'v Dict \<Rightarrow> 'v Dict" where
  "dict_put k e d = dict_setItems d (dict_idx d k) (mput k e (dict_items d (dict_idx d k)))"

definition dict_rem :: "string \<Rightarrow> 'v Dict \<Rightarrow> 'v Dict" where
  "dict_rem k d = dict_setItems d (dict_idx d k) (mdel k (dict_items d (dict_idx d k)))"

lemma dict_idx_bound: "dict_wf d \<Longrightarrow> dict_idx d k < length (d_shards d)"
  by (simp add: dict_wf_def dict_idx_def)

lemma dict_idx_setItems [simp]: "dict_idx (dict_setItems d i m) = dict_idx d"
  by (simp add: dict_idx_def dict_setItems_def fun_eq_iff)

lemma dict_wf_setItems:
  assumes "dict_wf d" "mwf m" "\<And>k. k \<in> set (mkeys m) \<Longrightarrow> dict_idx d k = i"
  shows "dict_wf (dict_setItems d i m)"
  using assms
  by (cases "i < length (d_shards d)")
    (auto simp: dict_wf_def dict_setItems_def nth_list_update dict_idx_def list_update_beyond)

interpretation dk: kv_store dict_lookup dict_put dict_rem dict_wf
proof
  fix d :: "'v Dict" and k k' :: string and e :: "'v Entry"
  assume wf: "dict_wf d"
  obtain m where m: "unat (d_shardCount d) = Suc m"
    using wf by (cases "unat (d_shardCount d)") (auto simp: dict_wf_def)
  have ss: "length (d_shards d) = Suc m" "\<And>i. i < Suc m \<Longrightarrow> mwf (d_shards d ! i)"
    using wf m by (auto simp: dict_wf_def)
  show "dict_lookup (dict_put k e d) k' = (if k' = k then Some e else dict_lookup d k')"
    using sm.shard_insert [OF ss, of "\<lambda>k. unat (d_seed d k)"] m
    by (simp add: dict_lookup_def dict_put_def dict_setItems_def dict_items_def dict_idx_def)
  show "dict_lookup (dict_rem k d) k' = (if k' = k then None else dict_lookup d k')"
    using sm.shard_delete [OF ss, of "\<lambda>k. unat (d_seed d k)"] m
    by (simp add: dict_lookup_def dict_rem_def dict_setItems_def dict_items_def dict_idx_def)
  have ix: "mwf (dict_items d (dict_idx d k))"
    "\<And>k'. k' \<in> set (mkeys (dict_items d (dict_idx d k))) \<Longrightarrow> dict_idx d k' = dict_idx d k"
    using wf dict_idx_bound [OF wf, of k] unfolding dict_wf_def dict_items_def by blast+
  show "dict_wf (dict_put k e d)" unfolding dict_put_def
    by (rule dict_wf_setItems [OF wf mwf_mput [OF ix(1)]]) (unfold set_mkeys_mput, use ix(2) in blast)
  show "dict_wf (dict_rem k d)" unfolding dict_rem_def
    by (rule dict_wf_setItems [OF wf mwf_mdel [OF ix(1)]]) (unfold set_mkeys_mdel, use ix(2) in blast)
qed

lemma dict_getShard_eq:
  assumes "dict_wf d"
  shows "dict_getShard d k = Some (dict_idx d k)"
proof -
  have "unat (d_shardCount d) < 2 ^ 64" by (rule less_le_trans [OF unsigned_less]) simp
  then have "unat (ucast (d_shardCount d) :: 64 word) = unat (d_shardCount d)"
    by (simp add: unsigned_ucast_eq take_bit_nat_eq_self)
  with assms dict_idx_bound [OF assms, of k] show ?thesis
    by (auto simp: dict_getShard_def dict_idx_def dict_wf_def Let_def unat_mod_distrib)
qed

lemma dict_rem_absent: "dict_wf d \<Longrightarrow> dict_lookup d k = None \<Longrightarrow> dict_rem k d = d"
  by (simp add: dict_rem_def dict_lookup_def dict_items_def mget_None_iff mdel_absent dict_setItems_def)

text \<open>The operations of a well-formed dictionary, over its table.\<close>

lemma dict_Del1_eq:
  "dict_wf d \<Longrightarrow> dict_Del1 d k = Some (dict_rem k d, if dict_lookup d k = None then 0 else 1)"
  by (auto simp: dict_Del1_def dict_getShard_eq dict_lookup_def dict_items_def dict_rem_def
      mget_None_iff mdel_absent dict_setItems_def dest: mget_SomeD split: option.splits)

lemma dict_SetEntry_eq: "dict_wf d \<Longrightarrow> dict_SetEntry d k e = Some (dict_put k e d)"
  by (simp add: dict_SetEntry_def dict_getShard_eq dict_put_def)

lemma dict_Set_eq: "dict_wf d \<Longrightarrow> dict_Set now d k v ttl = Some (dict_put k (newEntry now v ttl) d)"
  by (simp add: dict_Set_def dict_getShard_eq dict_put_def)

definition dict_live :: "int \<Rightarrow> 'v Dict \<Rightarrow> string \<Rightarrow> 'v Entry option" where
  "dict_live now d k =
     (case dict_lookup d k of None \<Rightarrow> None | Some e \<Rightarrow> if IsExpired now e then None else Some e)"

lemma dict_Get_eq:
  assumes "dict_wf d"
  shows "dict_Get now d k =
    (case dict_live now d k of
       None \<Rightarrow> Some (dict_rem k d, None)
     | Some e \<Rightarrow> Some (dict_put k (UpdateAccessStats now e) d, Some (UpdateAccessStats now e)))"
proof (cases "dict_lookup d k")
  case None
  with dict_rem_absent [OF assms None] show ?thesis
    using assms by (simp add: dict_Get_def dict_getShard_eq dict_live_def dict_lookup_def dict_items_def)
next
  case (Some e)
  with assms show ?thesis
    by (simp add: dict_Get_def dict_getShard_eq dict_live_def dict_lookup_def dict_items_def
        dict_Del1_eq dict_put_def Let_def)
qed

lemma dict_SetNX_eq:
  "dict_wf d \<Longrightarrow> dict_SetNX now d k v ttl =
     (if dict_live now d k = None then Some (dict_put k (newEntry now v ttl) d, True) else Some (d, False))"
  by (auto simp: dict_SetNX_def dict_getShard_eq dict_live_def dict_lookup_def dict_items_def dict_put_def
      split: option.splits)

lemma dict_SetXX_eq:
  "dict_wf d \<Longrightarrow> dict_SetXX now d k v ttl =
     (if dict_live now d k = None then Some (d, False) else Some (dict_put k (newEntry now v ttl) d, True))"
  by (auto simp: dict_SetXX_def dict_getShard_eq dict_live_def dict_lookup_def dict_items_def dict_put_def
      split: option.splits)

lemma dict_Expire_eq:
  "dict_wf d \<Longrightarrow> dict_Expire now d k ttl =
     (case dict_live now d k of
        None \<Rightarrow> Some (d, False)
      | Some e \<Rightarrow> Some (dict_put k (SetExpireAt (if ttl > 0 then i64 (now + ttl) else 0) e) d, True))"
  by (auto simp: dict_Expire_def dict_getShard_eq dict_live_def dict_lookup_def dict_items_def dict_put_def
      split: option.splits)

lemmas dict_eqs = dict_Del1_eq dict_SetEntry_eq dict_Set_eq dict_Get_eq dict_SetNX_eq dict_SetXX_eq
  dict_Expire_eq


lemma IsExpired_UpdateAccessStats [simp]: "IsExpired now (UpdateAccessStats t e) = IsExpired now e"
  by (simp add: IsExpired_def UpdateAccessStats_def)

lemma dict_live_put:
  "dict_wf d \<Longrightarrow> dict_live now (dict_put k e d) =
     (dict_live now d)(k := if IsExpired now e then None else Some e)"
  by (rule ext) (simp add: dict_live_def dk.lookup_insert)

lemma dict_live_rem: "dict_wf d \<Longrightarrow> dict_live now (dict_rem k d) = (dict_live now d)(k := None)"
  by (rule ext) (simp add: dict_live_def dk.lookup_delete)

lemma dict_Get_live:
  assumes "dict_wf d"
  shows "\<exists>d'. dict_Get now d k = Some (d', map_option (UpdateAccessStats now) (dict_live now d k)) \<and>
    dict_wf d' \<and> (\<forall>k'. dict_live now d' k' = None \<longleftrightarrow> dict_live now d k' = None)"
proof (cases "dict_live now d k")
  case None
  then show ?thesis
    using assms by (auto simp: dict_Get_eq dict_live_rem dk.inv_delete)
next
  case (Some e)
  then have "\<not> IsExpired now e" by (auto simp: dict_live_def split: option.splits if_splits)
  with Some show ?thesis
    using assms by (auto simp: dict_Get_eq dict_live_put dk.inv_insert)
qed

lemma dict_Del_eq:
  assumes "dict_wf d"
  shows "dict_Del d ks = Some (fold dict_rem ks d, int (card (set ks \<inter> dom (dict_lookup d))))"
  using assms
proof (induction ks arbitrary: d)
  case (Cons k ks)
  have "dom (dict_lookup (dict_rem k d)) = dom (dict_lookup d) - {k}"
    using Cons.prems by (auto simp: dk.lookup_delete dom_def)
  moreover have "set (k # ks) \<inter> dom (dict_lookup d) =
      (set ks \<inter> (dom (dict_lookup d) - {k})) \<union> (if k \<in> dom (dict_lookup d) then {k} else {})"
    by auto
  ultimately have "card (set (k # ks) \<inter> dom (dict_lookup d)) =
      card (set ks \<inter> dom (dict_lookup (dict_rem k d))) + (if dict_lookup d k = None then 0 else 1)"
    by (auto simp: domIff)
  with Cons show ?case
    by (simp add: dict_Del1_eq dk.inv_delete)
qed simp

lemma dict_Exists_eq:
  assumes "dict_wf d"
  shows "\<exists>d'. dict_Exists now d ks = Some (d', int (length (filter (\<lambda>k. dict_live now d k \<noteq> None) ks)))"
  using assms
proof (induction ks arbitrary: d)
  case (Cons k ks)
  from dict_Get_live [OF Cons.prems, of now k] obtain d1 where d1:
    "dict_Get now d k = Some (d1, map_option (UpdateAccessStats now) (dict_live now d k))"
    "dict_wf d1" "\<And>k'. dict_live now d1 k' = None \<longleftrightarrow> dict_live now d k' = None"
    by blast
  from Cons.IH [OF d1(2)] d1 show ?case by auto
qed simp

definition dict_all :: "'v Dict \<Rightarrow> (string \<times> 'v Entry) list" where
  "dict_all d = concat (d_shards d)"

lemma dict_shard_idx:
  "dict_wf d \<Longrightarrow> i < length (d_shards d) \<Longrightarrow> k \<in> set (map fst (d_shards d ! i)) \<Longrightarrow> dict_idx d k = i"
  unfolding dict_wf_def mkeys_def by blast

lemma dict_all_mem:
  assumes "dict_wf d"
  shows "(k, e) \<in> set (dict_all d) \<longleftrightarrow> dict_lookup d k = Some e"
proof
  assume "(k, e) \<in> set (dict_all d)"
  then obtain i where i: "i < length (d_shards d)" "(k, e) \<in> set (d_shards d ! i)"
    by (auto simp: dict_all_def in_set_conv_nth) (metis nth_mem)
  then have "dict_idx d k = i" using dict_shard_idx [OF assms i(1)] by force
  moreover have "mwf (d_shards d ! i)" using assms i(1) by (simp add: dict_wf_def)
  ultimately show "dict_lookup d k = Some e" using i by (simp add: dict_lookup_def mget_mem)
next
  assume "dict_lookup d k = Some e"
  then show "(k, e) \<in> set (dict_all d)"
    using dict_idx_bound [OF assms, of k] by (auto simp: dict_lookup_def dict_all_def dest: map_of_SomeD)
qed

lemma dict_all_distinct:
  assumes "dict_wf d"
  shows "distinct (map fst (dict_all d))"
  unfolding dict_all_def map_concat
proof (rule distinct_concat_nth)
  fix i assume "i < length (map (map fst) (d_shards d))"
  with assms show "distinct (map (map fst) (d_shards d) ! i)" by (simp add: dict_wf_def mwf_def)
next
  fix i j assume "i < j" "j < length (map (map fst) (d_shards d))"
  then have "i < length (d_shards d)" "j < length (d_shards d)" "i \<noteq> j" by simp_all
  then show "set (map (map fst) (d_shards d) ! i) \<inter> set (map (map fst) (d_shards d) ! j) = {}"
    using dict_shard_idx [OF assms, of i] dict_shard_idx [OF assms, of j] by fastforce
qed

lemma dict_Keys_eq:
  "dict_Keys now d pattern =
     map fst (filter (\<lambda>(k, e). \<not> IsExpired now e \<and> matchPattern pattern k) (dict_all d))"
  by (simp add: dict_Keys_def dict_all_def map_concat filter_concat comp_def)

lemma dict_Len_eq: "dict_wf d \<Longrightarrow> dict_Len d = int (card (dom (dict_lookup d)))"
proof -
  assume wf: "dict_wf d"
  have "dom (dict_lookup d) = set (map fst (dict_all d))"
    using dict_all_mem [OF wf] by (force simp: image_iff)
  moreover have "dict_Len d = int (length (dict_all d))"
    unfolding dict_Len_def dict_all_def by (rule sum_list_lengths)
  ultimately show ?thesis
    using distinct_card [OF dict_all_distinct [OF wf]] by simp
qed

lemma NewDict_wf:
  assumes "shardCount < 2 ^ 32"
  shows "dict_wf (NewDict seed shardCount)"
proof -
  let ?n = "if shardCount \<le> 0 then 256 else shardCount"
  have n: "0 < ?n" "?n < 2 ^ 32" using assms by auto
  then have "uint (word_of_int ?n :: 32 word) = ?n"
    by (simp only: uint_word_of_int) (simp add: mod_pos_pos_trivial)
  then have "unat (word_of_int ?n :: 32 word) = nat ?n" by (simp only: unat_eq_nat_uint)
  with n show ?thesis
    unfolding NewDict_def defaultShardCount_def Let_def dict_wf_def by (simp add: mkeys_def)
qed

lemma NewDict_lookup:
  fixes seed :: "string \<Rightarrow> 64 word" and shardCount :: int
  defines "d \<equiv> (NewDict seed shardCount :: 'v Dict)"
  assumes "shardCount < 2 ^ 32"
  shows "dict_lookup d k = None"
proof -
  have "dict_idx d k < length (d_shards d)"
    using NewDict_wf [OF assms(2)] unfolding d_def by (rule dict_idx_bound)
  moreover have "d_shards d = replicate (length (d_shards d)) []"
    by (simp add: d_def NewDict_def Let_def)
  ultimately show ?thesis by (metis dict_lookup_def map_of.simps(1) nth_replicate)
qed

section \<open>Properties\<close>

text \<open>
  C3: the sharded dictionary is one map with expiry times. On a well-formed dictionary no
  operation panics, every operation keeps it well formed, \<open>Set\<close> and \<open>Del\<close> update the map at
  their keys only, \<open>SetNX\<close> stores exactly when no live entry is there, \<open>SetXX\<close> and \<open>Expire\<close> act
  exactly when one is, and \<open>Del\<close> counts the keys it removed, each once.
\<close>

theorem dict_refines_map:
  assumes wf: "dict_wf d"
  shows
    "(\<exists>d'. dict_Set now d k v ttl = Some d' \<and> dict_wf d' \<and>
        dict_lookup d' = (dict_lookup d)(k \<mapsto> newEntry now v ttl)) \<and>
     (\<exists>d'. dict_SetNX now d k v ttl = Some (d', dict_live now d k = None) \<and> dict_wf d' \<and>
        dict_lookup d' = (if dict_live now d k = None then (dict_lookup d)(k \<mapsto> newEntry now v ttl)
                          else dict_lookup d)) \<and>
     (\<exists>d'. dict_SetXX now d k v ttl = Some (d', dict_live now d k \<noteq> None) \<and> dict_wf d' \<and>
        dict_lookup d' = (if dict_live now d k = None then dict_lookup d
                          else (dict_lookup d)(k \<mapsto> newEntry now v ttl))) \<and>
     (\<exists>d'. dict_Expire now d k ttl = Some (d', dict_live now d k \<noteq> None) \<and> dict_wf d' \<and>
        dict_lookup d' = (case dict_live now d k of
            None \<Rightarrow> dict_lookup d
          | Some e \<Rightarrow> (dict_lookup d)(k \<mapsto> e\<lparr> en_expireAt := if ttl > 0 then i64 (now + ttl) else 0 \<rparr>))) \<and>
     (\<exists>d'. dict_Del d ks = Some (d', int (card (set ks \<inter> dom (dict_lookup d)))) \<and> dict_wf d' \<and>
        dict_lookup d' = dict_lookup d |` (- set ks))"
proof (intro conjI)
  have put: "dict_lookup (dict_put k e d) = (dict_lookup d)(k \<mapsto> e)" "dict_wf (dict_put k e d)" for e
    using wf by (auto simp: dk.lookup_insert dk.inv_insert)
  show "\<exists>d'. dict_Set now d k v ttl = Some d' \<and> dict_wf d' \<and>
      dict_lookup d' = (dict_lookup d)(k \<mapsto> newEntry now v ttl)"
    using wf put by (simp add: dict_Set_eq)
  show "\<exists>d'. dict_SetNX now d k v ttl = Some (d', dict_live now d k = None) \<and> dict_wf d' \<and>
      dict_lookup d' = (if dict_live now d k = None then (dict_lookup d)(k \<mapsto> newEntry now v ttl)
                        else dict_lookup d)"
    using wf put by (simp add: dict_SetNX_eq)
  show "\<exists>d'. dict_SetXX now d k v ttl = Some (d', dict_live now d k \<noteq> None) \<and> dict_wf d' \<and>
      dict_lookup d' = (if dict_live now d k = None then dict_lookup d
                        else (dict_lookup d)(k \<mapsto> newEntry now v ttl))"
    using wf put by (simp add: dict_SetXX_eq)
  show "\<exists>d'. dict_Expire now d k ttl = Some (d', dict_live now d k \<noteq> None) \<and> dict_wf d' \<and>
      dict_lookup d' = (case dict_live now d k of
          None \<Rightarrow> dict_lookup d
        | Some e \<Rightarrow> (dict_lookup d)(k \<mapsto> e\<lparr> en_expireAt := if ttl > 0 then i64 (now + ttl) else 0 \<rparr>))"
    using wf put by (simp add: dict_Expire_eq SetExpireAt_def split: option.splits)
  show "\<exists>d'. dict_Del d ks = Some (d', int (card (set ks \<inter> dom (dict_lookup d)))) \<and> dict_wf d' \<and>
      dict_lookup d' = dict_lookup d |` (- set ks)"
    using wf by (auto simp: dict_Del_eq dk.inv_delete_all dk.lookup_delete_all restrict_map_def)
qed

definition dict_two :: "nat Dict" where
  "dict_two = \<lparr> d_shards = [[(''a'', newEntry 0 7 0)], [(''bb'', newEntry 0 8 5)]], d_shardCount = 2,
     d_seed = (\<lambda>k. of_nat (length k + 1)) \<rparr>"

lemma dict_two_wf: "dict_wf dict_two"
  by (simp add: dict_wf_def dict_two_def dict_idx_def mkeys_def mwf_def All_less_Suc)

lemma dict_two_dead: "dict_live 9 dict_two ''bb'' = None"
  by (simp add: dict_live_def dict_lookup_def dict_two_def dict_idx_def IsExpired_def newEntry_def i64_def)

theorem dict_refines_map_witness:
  "\<exists>d'. dict_SetNX 9 dict_two ''bb'' 1 0 = Some (d', True) \<and> dict_wf d' \<and>
     dict_lookup d' ''bb'' = Some (newEntry 9 1 0)"
  using dict_refines_map [OF dict_two_wf, of 9 "''bb''" 1 0 "[]"] by (auto simp: dict_two_dead)

text \<open>
  \<open>Keys\<close> lists every live key that matches the pattern exactly once, and nothing else;
  \<open>Len\<close> counts the stored keys, expired or not.
\<close>

theorem dict_Keys_complete:
  assumes wf: "dict_wf d"
  shows "distinct (dict_Keys now d pattern) \<and>
    set (dict_Keys now d pattern) = {k. dict_live now d k \<noteq> None \<and> matchPattern pattern k} \<and>
    dict_Len d = int (card (dom (dict_lookup d)))"
proof (intro conjI)
  show "distinct (dict_Keys now d pattern)"
    using dict_all_distinct [OF wf] by (simp add: dict_Keys_eq distinct_map_filter)
  show "set (dict_Keys now d pattern) = {k. dict_live now d k \<noteq> None \<and> matchPattern pattern k}"
    using dict_all_mem [OF wf]
    by (force simp: dict_Keys_eq dict_live_def image_iff split: option.splits if_splits)
  show "dict_Len d = int (card (dom (dict_lookup d)))" by (rule dict_Len_eq [OF wf])
qed

theorem dict_Keys_complete_witness:
  "set (dict_Keys 9 dict_two ''*'') = {k. dict_live 9 dict_two k \<noteq> None \<and> matchPattern ''*'' k} \<and>
   dict_Keys 9 dict_two ''*'' = [''a'']"
  using dict_Keys_complete [OF dict_two_wf, of 9 "''*''"]
  by (simp add: dict_Keys_def dict_two_def newEntry_def IsExpired_def i64_def matchPattern_def)

end
