(* ===== verification/ShardCache.thy ===== *)
theory ShardCache
  imports RingBuf Sketch Dict
begin

text \<open>
  The string cache, \<^verbatim>\<open>internal/engine/memory/shard.go\<close>: shards with an index from key hashes to
  ring-buffer offsets, or to integers stored in the index itself, a ring buffer and an admission
  filter. The seeded \<^verbatim>\<open>maphash\<close> is the function \<open>sc_seed\<close>, an unset \<^verbatim>\<open>slotFunc\<close> is \<open>None\<close>. Each
  operation takes the current time \<open>now\<close> in nanoseconds; it reads and writes one shard, whose lock
  makes it atomic here.

  \<open>None\<close> is a call that does not return: a panic, or the unbounded recursion of \<open>recordAccess\<close>.
\<close>

unbundle bit_operations_syntax

section \<open>Model\<close>

definition defaultShardedDictShards :: int where "defaultShardedDictShards = 4096"
definition defaultRingSize :: int where "defaultRingSize = 4 * 2 ^ 20"
definition defaultLFUWidth :: int where "defaultLFUWidth = 2 ^ 16"

record ZeroGCShard =
  zs_index :: "(64 word, 64 word) gomap"
  zs_ring :: RingBuffer
  zs_lfu :: TinyLFU

record ShardedCache =
  sc_shards :: "ZeroGCShard list"
  sc_shardCount :: "64 word"
  sc_seed :: "string \<Rightarrow> 64 word"
  sc_sampleSize :: int
  sc_skipLFU :: bool
  sc_slotIndex :: "(16 word, (string, unit) gomap) gomap"
  sc_slotFunc :: "(string \<Rightarrow> 16 word) option"

record ShardedCacheConfig =
  scc_ShardCount :: int
  scc_RingSize :: int
  scc_LFUWidth :: int
  scc_SampledEvict :: int
  scc_SkipLFU :: bool

text \<open>\<open>recordAccess\<close> calls itself, not the filter of the shard.\<close>

partial_function (option) recordAccess :: "ShardedCache \<Rightarrow> ZeroGCShard \<Rightarrow> 64 word \<Rightarrow> unit option" where
  "recordAccess sc shard hash =
     (if sc_skipLFU sc then Some () else recordAccess sc shard hash)"

definition DefaultShardedCacheConfig :: ShardedCacheConfig where
  "DefaultShardedCacheConfig =
     \<lparr> scc_ShardCount = defaultShardedDictShards, scc_RingSize = defaultRingSize,
       scc_LFUWidth = defaultLFUWidth, scc_SampledEvict = 5, scc_SkipLFU = False \<rparr>"

definition NewShardedCache :: "(string \<Rightarrow> 64 word) \<Rightarrow> ShardedCacheConfig \<Rightarrow> ShardedCache" where
  "NewShardedCache seed cfg =
     (let shardCount = (if scc_ShardCount cfg \<le> 0 then defaultShardedDictShards else scc_ShardCount cfg);
          ringSize = (if scc_RingSize cfg \<le> 0 then defaultRingSize else scc_RingSize cfg);
          lfuWidth = (if scc_LFUWidth cfg \<le> 0 then defaultLFUWidth else scc_LFUWidth cfg);
          sampledEvict = (if scc_SampledEvict cfg \<le> 0 then 5 else scc_SampledEvict cfg)
      in \<lparr> sc_shards = replicate (nat shardCount)
             \<lparr> zs_index = [], zs_ring = NewRingBuffer ringSize, zs_lfu = NewTinyLFU (lfuWidth div shardCount) \<rparr>,
           sc_shardCount = word_of_int shardCount, sc_seed = seed, sc_sampleSize = sampledEvict,
           sc_skipLFU = scc_SkipLFU cfg, sc_slotIndex = [], sc_slotFunc = None \<rparr>)"

definition SetSlotFunc :: "ShardedCache \<Rightarrow> (string \<Rightarrow> 16 word) \<Rightarrow> ShardedCache" where
  "SetSlotFunc sc fn = sc\<lparr> sc_slotFunc := Some fn \<rparr>"

definition sc_hash :: "ShardedCache \<Rightarrow> string \<Rightarrow> 64 word" where
  "sc_hash sc key = sc_seed sc key"

text \<open>The shard of a hash, as its index in \<^verbatim>\<open>sc.shards\<close>.\<close>

definition sc_getShard :: "ShardedCache \<Rightarrow> 64 word \<Rightarrow> nat go" where
  "sc_getShard sc hash =
     (if sc_shardCount sc = 0 then None
      else let i = unat (hash mod sc_shardCount sc)
           in if i < length (sc_shards sc) then Some i else None)"

definition setShard :: "ShardedCache \<Rightarrow> nat \<Rightarrow> ZeroGCShard \<Rightarrow> ShardedCache" where
  "setShard sc i shard = sc\<lparr> sc_shards := (sc_shards sc)[i := shard] \<rparr>"

text \<open>An entry with an expiry time in the past.\<close>

definition entryExpired :: "int \<Rightarrow> EntryHeader \<Rightarrow> bool" where
  "entryExpired now h \<longleftrightarrow> eh_ExpireAt h > 0 \<and> now > eh_ExpireAt h"

definition inlineFlag :: "64 word" where "inlineFlag = push_bit 63 1"
definition inlineMask :: "64 word" where "inlineMask = NOT inlineFlag"

definition encodeInlineInt :: "int \<Rightarrow> 64 word" where
  "encodeInlineInt v = inlineFlag OR (word_of_int v AND inlineMask)"

definition decodeInlineInt :: "64 word \<Rightarrow> int" where
  "decodeInlineInt v = sint (v AND inlineMask)"

definition isInlineInt :: "64 word \<Rightarrow> bool" where
  "isInlineInt v \<longleftrightarrow> v AND inlineFlag \<noteq> 0"

definition sc_Get :: "int \<Rightarrow> ShardedCache \<Rightarrow> string \<Rightarrow> (ShardedCache \<times> string option) go" where
  "sc_Get now sc key =
     do { let hash = sc_hash sc key;
          i \<leftarrow> sc_getShard sc hash;
          let shard = sc_shards sc ! i;
          case mget (zs_index shard) hash of
            None \<Rightarrow> Some (sc, None)
          | Some raw \<Rightarrow>
              if isInlineInt raw then
                do { recordAccess sc shard hash;
                     Some (sc, Some (FormatInt (decodeInlineInt raw))) }
              else do {
                r \<leftarrow> ReadAt (zs_ring shard) (sint raw);
                case r of
                  Inl _ \<Rightarrow> Some (sc, None)
                | Inr (storedKey, val, header) \<Rightarrow>
                    if storedKey \<noteq> key then Some (sc, None)
                    else if entryExpired now header then
                      Some (setShard sc i (shard\<lparr> zs_index := mdel hash (zs_index shard) \<rparr>), None)
                    else do { recordAccess sc shard hash; Some (sc, Some val) } } }"

definition GetCopy :: "int \<Rightarrow> ShardedCache \<Rightarrow> string \<Rightarrow> (ShardedCache \<times> string option) go" where
  "GetCopy now sc key =
     do { let hash = sc_hash sc key;
          i \<leftarrow> sc_getShard sc hash;
          let shard = sc_shards sc ! i;
          case mget (zs_index shard) hash of
            None \<Rightarrow> Some (sc, None)
          | Some raw \<Rightarrow>
              if isInlineInt raw then
                do { recordAccess sc shard hash;
                     Some (sc, Some (FormatInt (decodeInlineInt raw))) }
              else do {
                r \<leftarrow> ReadAtCopy (zs_ring shard) (sint raw);
                case r of
                  Inl _ \<Rightarrow> Some (sc, None)
                | Inr (storedKey, val, header) \<Rightarrow>
                    if storedKey \<noteq> key then Some (sc, None)
                    else if entryExpired now header then
                      Some (setShard sc i (shard\<lparr> zs_index := mdel hash (zs_index shard) \<rparr>), None)
                    else do { recordAccess sc shard hash; Some (sc, Some val) } } }"

text \<open>The header of a new entry; both lengths are truncated to 16 bits.\<close>

definition newHeader :: "int \<Rightarrow> 64 word \<Rightarrow> string \<Rightarrow> string \<Rightarrow> int \<Rightarrow> EntryHeader" where
  "newHeader now hash key val ttl =
     \<lparr> eh_ExpireAt = (if ttl > 0 then i64 (now + ttl) else 0), eh_Hash64 = hash,
       eh_KeyLen = of_nat (length key), eh_ValLen = of_nat (length val), eh_ValCap = 0,
       eh_Flags = EntryTypeString \<rparr>"

text \<open>The index without the entries an append evicted, unless the hash has a newer offset.\<close>

definition dropEvicted :: "EvictedEntry list \<Rightarrow> (64 word, 64 word) gomap \<Rightarrow> (64 word, 64 word) gomap" where
  "dropEvicted evicted index =
     fold (\<lambda>ev ix. if mget ix (ev_Hash ev) = Some (word_of_int (ev_Offset ev)) then mdel (ev_Hash ev) ix else ix)
       evicted index"

text \<open>The append of an entry to a shard, as \<open>Set\<close>, \<open>SetNX\<close>, \<open>SetXX\<close> and \<open>Expire\<close> do it.\<close>

definition shardWrite ::
    "ZeroGCShard \<Rightarrow> 64 word \<Rightarrow> EntryHeader \<Rightarrow> string \<Rightarrow> string \<Rightarrow> (ZeroGCShard \<times> unit res) go" where
  "shardWrite shard hash header key val =
     do { (ring, r) \<leftarrow> WriteWithEvict (zs_ring shard) header key val;
          case r of
            Inl e \<Rightarrow> Some (shard\<lparr> zs_ring := ring \<rparr>, Inl e)
          | Inr (offset, evicted) \<Rightarrow>
              Some (shard\<lparr> zs_ring := ring,
                           zs_index := mput hash (word_of_int offset) (dropEvicted evicted (zs_index shard)) \<rparr>,
                    Inr ()) }"

definition slotAdd :: "ShardedCache \<Rightarrow> string \<Rightarrow> ShardedCache" where
  "slotAdd sc key =
     (case sc_slotFunc sc of
        None \<Rightarrow> sc
      | Some f \<Rightarrow>
          (let keys = (case mget (sc_slotIndex sc) (f key) of None \<Rightarrow> [] | Some ks \<Rightarrow> ks)
           in sc\<lparr> sc_slotIndex := mput (f key) (mput key () keys) (sc_slotIndex sc) \<rparr>))"

definition slotRemove :: "ShardedCache \<Rightarrow> 16 word \<Rightarrow> string list \<Rightarrow> ShardedCache" where
  "slotRemove sc slot stale =
     (case mget (sc_slotIndex sc) slot of
        None \<Rightarrow> sc
      | Some ks \<Rightarrow>
          (let ks' = fold mdel stale ks
           in sc\<lparr> sc_slotIndex := (if ks' = [] then mdel slot (sc_slotIndex sc)
                                   else mput slot ks' (sc_slotIndex sc)) \<rparr>))"

definition sc_Set :: "int \<Rightarrow> ShardedCache \<Rightarrow> string \<Rightarrow> string \<Rightarrow> int \<Rightarrow> (ShardedCache \<times> unit res) go" where
  "sc_Set now sc key val ttl =
     do { let hash = sc_hash sc key;
          i \<leftarrow> sc_getShard sc hash;
          let shard = sc_shards sc ! i;
          let header = newHeader now hash key val ttl;
          (shard1, updated) \<leftarrow>
            (case mget (zs_index shard) hash of
               None \<Rightarrow> Some (shard, False)
             | Some raw \<Rightarrow>
                 if isInlineInt raw
                 then Some (shard\<lparr> zs_index := mdel hash (zs_index shard) \<rparr>, False)
                 else do { (ring, ok) \<leftarrow> UpdateInPlace (zs_ring shard) (sint raw) header key val;
                           Some (shard\<lparr> zs_ring := ring \<rparr>, ok) });
          if updated then do { recordAccess sc shard1 hash; Some (setShard sc i shard1, Inr ()) }
          else do {
            (shard2, r) \<leftarrow> shardWrite shard1 hash header key val;
            case r of
              Inl e \<Rightarrow> Some (setShard sc i shard2, Inl e)
            | Inr _ \<Rightarrow>
                do { let sc1 = slotAdd (setShard sc i shard2) key;
                     recordAccess sc1 shard2 hash;
                     Some (sc1, Inr ()) } } }"

definition sc_IncrBy :: "int \<Rightarrow> ShardedCache \<Rightarrow> string \<Rightarrow> int \<Rightarrow> (ShardedCache \<times> int res) go" where
  "sc_IncrBy now sc key delta =
     do { let hash = sc_hash sc key;
          i \<leftarrow> sc_getShard sc hash;
          let shard = sc_shards sc ! i;
          let store = (\<lambda>v. setShard sc i (shard\<lparr> zs_index := mput hash (encodeInlineInt v) (zs_index shard) \<rparr>));
          case mget (zs_index shard) hash of
            None \<Rightarrow> do { recordAccess sc shard hash; Some (slotAdd (store delta) key, Inr delta) }
          | Some raw \<Rightarrow>
              if isInlineInt raw then
                do { let newVal = i64 (decodeInlineInt raw + delta);
                     recordAccess sc shard hash;
                     Some (store newVal, Inr newVal) }
              else do {
                r \<leftarrow> ReadAt (zs_ring shard) (sint raw);
                case r of
                  Inl _ \<Rightarrow> do { recordAccess sc shard hash; Some (store delta, Inr delta) }
                | Inr (storedKey, val, header) \<Rightarrow>
                    if storedKey \<noteq> key \<or> entryExpired now header then
                      do { recordAccess sc shard hash; Some (store delta, Inr delta) }
                    else (case ParseInt val of
                            None \<Rightarrow> Some (sc, Inl ErrNotInteger)
                          | Some currentVal \<Rightarrow>
                              do { let newVal = i64 (currentVal + delta);
                                   recordAccess sc shard hash;
                                   Some (store newVal, Inr newVal) }) } }"

definition sc_SetNX :: "int \<Rightarrow> ShardedCache \<Rightarrow> string \<Rightarrow> string \<Rightarrow> int \<Rightarrow> (ShardedCache \<times> bool res) go" where
  "sc_SetNX now sc key val ttl =
     do { let hash = sc_hash sc key;
          i \<leftarrow> sc_getShard sc hash;
          let shard = sc_shards sc ! i;
          present \<leftarrow>
            (case mget (zs_index shard) hash of
               None \<Rightarrow> Some False
             | Some raw \<Rightarrow>
                 do { r \<leftarrow> ReadAt (zs_ring shard) (sint raw);
                      Some (case r of
                              Inl _ \<Rightarrow> False
                            | Inr (storedKey, _, header) \<Rightarrow>
                                storedKey = key \<and> (eh_ExpireAt header = 0 \<or> now \<le> eh_ExpireAt header)) });
          if present then Some (sc, Inr False)
          else do {
            (shard1, r) \<leftarrow> shardWrite shard hash (newHeader now hash key val ttl) key val;
            case r of
              Inl e \<Rightarrow> Some (setShard sc i shard1, Inl e)
            | Inr _ \<Rightarrow>
                do { recordAccess sc shard1 hash;
                     Some (slotAdd (setShard sc i shard1) key, Inr True) } } }"

definition sc_Delete :: "ShardedCache \<Rightarrow> string \<Rightarrow> (ShardedCache \<times> bool) go" where
  "sc_Delete sc key =
     do { let hash = sc_hash sc key;
          i \<leftarrow> sc_getShard sc hash;
          let shard = sc_shards sc ! i;
          case mget (zs_index shard) hash of
            None \<Rightarrow> Some (sc, False)
          | Some _ \<Rightarrow>
              do { let sc1 = setShard sc i (shard\<lparr> zs_index := mdel hash (zs_index shard) \<rparr>);
                   Some (case sc_slotFunc sc of None \<Rightarrow> sc1 | Some f \<Rightarrow> slotRemove sc1 (f key) [key], True) } }"

definition sc_SetXX :: "int \<Rightarrow> ShardedCache \<Rightarrow> string \<Rightarrow> string \<Rightarrow> int \<Rightarrow> (ShardedCache \<times> bool res) go" where
  "sc_SetXX now sc key val ttl =
     do { let hash = sc_hash sc key;
          i \<leftarrow> sc_getShard sc hash;
          let shard = sc_shards sc ! i;
          present \<leftarrow>
            (case mget (zs_index shard) hash of
               None \<Rightarrow> Some False
             | Some raw \<Rightarrow>
                 do { r \<leftarrow> ReadAt (zs_ring shard) (sint raw);
                      Some (case r of
                              Inl _ \<Rightarrow> False
                            | Inr (storedKey, _, header) \<Rightarrow> storedKey = key \<and> \<not> entryExpired now header) });
          if \<not> present then Some (sc, Inr False)
          else do {
            (shard1, r) \<leftarrow> shardWrite shard hash (newHeader now hash key val ttl) key val;
            case r of
              Inl e \<Rightarrow> Some (setShard sc i shard1, Inl e)
            | Inr _ \<Rightarrow> do { recordAccess sc shard1 hash; Some (setShard sc i shard1, Inr True) } } }"

definition valueForOffset :: "ZeroGCShard \<Rightarrow> int \<Rightarrow> string option go" where
  "valueForOffset shard offset =
     do { r \<leftarrow> ReadAtCopy (zs_ring shard) offset;
          Some (case r of Inl _ \<Rightarrow> None | Inr (_, val, _) \<Rightarrow> Some val) }"

definition sc_Expire :: "int \<Rightarrow> ShardedCache \<Rightarrow> string \<Rightarrow> int \<Rightarrow> (ShardedCache \<times> bool) go" where
  "sc_Expire now sc key ttl =
     do { let hash = sc_hash sc key;
          i \<leftarrow> sc_getShard sc hash;
          let shard = sc_shards sc ! i;
          case mget (zs_index shard) hash of
            None \<Rightarrow> Some (sc, False)
          | Some raw \<Rightarrow>
              do { r \<leftarrow> ReadAt (zs_ring shard) (sint raw);
                   case r of
                     Inl _ \<Rightarrow> Some (sc, False)
                   | Inr (storedKey, _, header) \<Rightarrow>
                       if storedKey \<noteq> key \<or> entryExpired now header then Some (sc, False)
                       else do {
                         v \<leftarrow> valueForOffset shard (sint raw);
                         case v of
                           None \<Rightarrow> Some (sc, False)
                         | Some val \<Rightarrow>
                             do { let header' = header\<lparr> eh_ExpireAt := (if ttl > 0 then i64 (now + ttl) else 0),
                                                        eh_KeyLen := of_nat (length key),
                                                        eh_ValLen := of_nat (length val) \<rparr>;
                                  (shard1, w) \<leftarrow> shardWrite shard hash header' key val;
                                  Some (setShard sc i shard1, case w of Inl _ \<Rightarrow> False | Inr _ \<Rightarrow> True) } } } }"

text \<open>\<^verbatim>\<open>TTL\<close>: a duration in nanoseconds; it does not compare the stored key.\<close>

definition sc_TTL :: "int \<Rightarrow> ShardedCache \<Rightarrow> string \<Rightarrow> (int \<times> bool) go" where
  "sc_TTL now sc key =
     do { let hash = sc_hash sc key;
          i \<leftarrow> sc_getShard sc hash;
          let shard = sc_shards sc ! i;
          case mget (zs_index shard) hash of
            None \<Rightarrow> Some (- 2000000000, False)
          | Some raw \<Rightarrow>
              if isInlineInt raw then Some (-1, True)
              else do {
                r \<leftarrow> ReadAt (zs_ring shard) (sint raw);
                Some (case r of
                        Inl _ \<Rightarrow> (- 2000000000, False)
                      | Inr (_, _, header) \<Rightarrow>
                          (let remaining = i64 (eh_ExpireAt header - now)
                           in if eh_ExpireAt header = 0 then (-1, True)
                              else if remaining < 0 then (- 2000000000, False)
                              else (remaining, True))) } }"

definition sc_Exists :: "int \<Rightarrow> ShardedCache \<Rightarrow> string \<Rightarrow> (ShardedCache \<times> bool) go" where
  "sc_Exists now sc key = do { (sc', r) \<leftarrow> sc_Get now sc key; Some (sc', r \<noteq> None) }"

definition sc_Len :: "ShardedCache \<Rightarrow> int" where
  "sc_Len sc = (\<Sum>shard \<leftarrow> sc_shards sc. int (length (zs_index shard)))"

definition sc_Clear :: "ShardedCache \<Rightarrow> ShardedCache" where
  "sc_Clear sc =
     sc\<lparr> sc_shards := map (\<lambda>shard. \<lparr> zs_index = [], zs_ring = Reset (zs_ring shard), zs_lfu = tl_Clear (zs_lfu shard) \<rparr>)
           (sc_shards sc),
         sc_slotIndex := [] \<rparr>"

definition keyForOffset :: "int \<Rightarrow> ZeroGCShard \<Rightarrow> int \<Rightarrow> string option go" where
  "keyForOffset now shard offset =
     do { r \<leftarrow> ReadAt (zs_ring shard) offset;
          Some (case r of
                  Inl _ \<Rightarrow> None
                | Inr (key, _, header) \<Rightarrow> if entryExpired now header then None else Some key) }"

fun randomShardKeys :: "int \<Rightarrow> ZeroGCShard \<Rightarrow> int \<Rightarrow> 64 word list \<Rightarrow> string list \<Rightarrow> string list go" where
  "randomShardKeys now shard n [] result = Some result"
| "randomShardKeys now shard n (raw # raws) result =
     (if int (length result) \<ge> n then Some result
      else do { k \<leftarrow> keyForOffset now shard (sint raw);
                randomShardKeys now shard n raws (case k of None \<Rightarrow> result | Some key \<Rightarrow> result @ [key]) })"

fun randomKeysLoop :: "int \<Rightarrow> int \<Rightarrow> ZeroGCShard list \<Rightarrow> string list \<Rightarrow> string list go" where
  "randomKeysLoop now n [] result = Some result"
| "randomKeysLoop now n (shard # shards) result =
     do { result' \<leftarrow> randomShardKeys now shard n (map snd (zs_index shard)) result;
          if int (length result') \<ge> n then Some result' else randomKeysLoop now n shards result' }"

definition sc_RandomKeys :: "int \<Rightarrow> ShardedCache \<Rightarrow> int \<Rightarrow> string list go" where
  "sc_RandomKeys now sc n = (if n \<le> 0 then Some [] else randomKeysLoop now n (sc_shards sc) [])"

text \<open>The keys of the index entries of a shard that can be read and have not expired.\<close>

fun keysForOffsets :: "int \<Rightarrow> ZeroGCShard \<Rightarrow> 64 word list \<Rightarrow> string list go" where
  "keysForOffsets now shard [] = Some []"
| "keysForOffsets now shard (raw # raws) =
     do { k \<leftarrow> keyForOffset now shard (sint raw);
          ks \<leftarrow> keysForOffsets now shard raws;
          Some (case k of None \<Rightarrow> ks | Some key \<Rightarrow> key # ks) }"

definition shardKeys :: "int \<Rightarrow> ZeroGCShard \<Rightarrow> string list go" where
  "shardKeys now shard = keysForOffsets now shard (map snd (zs_index shard))"

text \<open>The pattern test of \<open>Keys\<close> and \<open>Scan\<close>: both replace \<^verbatim>\<open>*\<close> by the empty pattern, which matches
  every key.\<close>

definition scanMatch :: "string \<Rightarrow> string \<Rightarrow> bool" where
  "scanMatch pattern key =
     (let p = (if pattern = ''*'' then [] else pattern) in p = [] \<or> matchPattern p key)"

fun keysLoop :: "int \<Rightarrow> string \<Rightarrow> ZeroGCShard list \<Rightarrow> string list go" where
  "keysLoop now pattern [] = Some []"
| "keysLoop now pattern (shard # shards) =
     do { ks \<leftarrow> shardKeys now shard;
          rest \<leftarrow> keysLoop now pattern shards;
          Some (filter (scanMatch pattern) ks @ rest) }"

definition sc_Keys :: "int \<Rightarrow> ShardedCache \<Rightarrow> string \<Rightarrow> string list go" where
  "sc_Keys now sc pattern = keysLoop now pattern (sc_shards sc)"

record CacheStats =
  cs_KeyCount :: int
  cs_TotalWrites :: int
  cs_TotalEvicts :: int

definition sc_Stats :: "ShardedCache \<Rightarrow> CacheStats" where
  "sc_Stats sc =
     \<lparr> cs_KeyCount = (\<Sum>shard \<leftarrow> sc_shards sc. int (length (zs_index shard))),
       cs_TotalWrites = (\<Sum>shard \<leftarrow> sc_shards sc. fst (rb_Stats (zs_ring shard))),
       cs_TotalEvicts = (\<Sum>shard \<leftarrow> sc_shards sc. snd (rb_Stats (zs_ring shard))) \<rparr>"

definition sc_Frequency :: "ShardedCache \<Rightarrow> string \<Rightarrow> nat go" where
  "sc_Frequency sc key =
     do { let hash = sc_hash sc key;
          i \<leftarrow> sc_getShard sc hash;
          Frequency (zs_lfu (sc_shards sc ! i)) hash }"

text \<open>The sampling loop of an eviction: it skips unreadable and, on request, persistent entries,
  removes expired ones, and keeps the candidate with the lowest estimate until it has seen
  \<^verbatim>\<open>sampleSize\<close> of them. \<open>victim\<close> is \<^verbatim>\<open>hasCandidate\<close> with hash and frequency.\<close>

fun sampleLoop ::
    "int \<Rightarrow> int \<Rightarrow> bool \<Rightarrow> ZeroGCShard \<Rightarrow> (64 word, 64 word) gomap \<Rightarrow> (64 word, 64 word) gomap \<Rightarrow>
     (64 word \<times> nat) option \<Rightarrow> int \<Rightarrow> ((64 word, 64 word) gomap \<times> (64 word \<times> nat) option) go" where
  "sampleLoop now sampleSize needVolatile shard [] index victim cnt = Some (index, victim)"
| "sampleLoop now sampleSize needVolatile shard ((h, raw) # rest) index victim cnt =
     do { r \<leftarrow> ReadAt (zs_ring shard) (sint raw);
          case r of
            Inl _ \<Rightarrow> sampleLoop now sampleSize needVolatile shard rest index victim cnt
          | Inr (storedKey, _, header) \<Rightarrow>
              if storedKey = [] then sampleLoop now sampleSize needVolatile shard rest index victim cnt
              else if entryExpired now header then
                sampleLoop now sampleSize needVolatile shard rest (mdel h index) victim cnt
              else if needVolatile \<and> eh_ExpireAt header = 0 then
                sampleLoop now sampleSize needVolatile shard rest index victim cnt
              else do {
                freq \<leftarrow> Frequency (zs_lfu shard) h;
                let victim' = (case victim of
                                 None \<Rightarrow> Some (h, freq)
                               | Some (vh, vf) \<Rightarrow> if freq < vf then Some (h, freq) else Some (vh, vf));
                if cnt + 1 \<ge> sampleSize then Some (index, victim')
                else sampleLoop now sampleSize needVolatile shard rest index victim' (cnt + 1) } }"

definition sampledEvictLocked ::
    "int \<Rightarrow> ShardedCache \<Rightarrow> ZeroGCShard \<Rightarrow> bool \<Rightarrow> (ZeroGCShard \<times> bool) go" where
  "sampledEvictLocked now sc shard needVolatile =
     (if zs_index shard = [] then Some (shard, False)
      else do {
        (index, victim) \<leftarrow>
          sampleLoop now (sc_sampleSize sc) needVolatile shard (zs_index shard) (zs_index shard) None 0;
        case victim of
          None \<Rightarrow> Some (shard\<lparr> zs_index := index \<rparr>, False)
        | Some (vh, _) \<Rightarrow> Some (shard\<lparr> zs_index := mdel vh index \<rparr>, True) })"

definition SampledEvict :: "int \<Rightarrow> ShardedCache \<Rightarrow> 64 word \<Rightarrow> (ShardedCache \<times> bool) go" where
  "SampledEvict now sc hash =
     do { i \<leftarrow> sc_getShard sc hash;
          (shard, ok) \<leftarrow> sampledEvictLocked now sc (sc_shards sc ! i) False;
          Some (setShard sc i shard, ok) }"

definition SampledEvictVolatile :: "int \<Rightarrow> ShardedCache \<Rightarrow> 64 word \<Rightarrow> (ShardedCache \<times> bool) go" where
  "SampledEvictVolatile now sc hash =
     do { i \<leftarrow> sc_getShard sc hash;
          (shard, ok) \<leftarrow> sampledEvictLocked now sc (sc_shards sc ! i) True;
          Some (setShard sc i shard, ok) }"

text \<open>The candidates of a slot, split into live and stale keys, until \<open>cnt\<close> live ones are found
  (all of them when \<open>cnt\<close> is not positive).\<close>

fun slotFilter ::
    "int \<Rightarrow> ShardedCache \<Rightarrow> int \<Rightarrow> string list \<Rightarrow> string list \<Rightarrow> string list \<Rightarrow>
     (ShardedCache \<times> string list \<times> string list) go" where
  "slotFilter now sc cnt [] result stale = Some (sc, result, stale)"
| "slotFilter now sc cnt (key # keys) result stale =
     (if cnt > 0 \<and> int (length result) \<ge> cnt then Some (sc, result, stale)
      else do { (sc1, ok) \<leftarrow> sc_Exists now sc key;
                if ok then slotFilter now sc1 cnt keys (result @ [key]) stale
                else slotFilter now sc1 cnt keys result (stale @ [key]) })"

definition sc_KeysInSlot :: "int \<Rightarrow> ShardedCache \<Rightarrow> 16 word \<Rightarrow> int \<Rightarrow> (ShardedCache \<times> string list) go" where
  "sc_KeysInSlot now sc slot cnt =
     (case mget (sc_slotIndex sc) slot of
        None \<Rightarrow> Some (sc, [])
      | Some keySet \<Rightarrow>
          if keySet = [] then Some (sc, [])
          else do { (sc1, result, stale) \<leftarrow> slotFilter now sc cnt (mkeys keySet) [] [];
                    Some (if stale \<noteq> [] then slotRemove sc1 slot stale else sc1, result) })"

definition sc_CountKeysInSlot :: "int \<Rightarrow> ShardedCache \<Rightarrow> 16 word \<Rightarrow> (ShardedCache \<times> int) go" where
  "sc_CountKeysInSlot now sc slot =
     (case mget (sc_slotIndex sc) slot of
        None \<Rightarrow> Some (sc, 0)
      | Some keySet \<Rightarrow>
          do { (sc1, result, stale) \<leftarrow> slotFilter now sc 0 (mkeys keySet) [] [];
               Some (if stale \<noteq> [] then slotRemove sc1 slot stale else sc1, int (length result)) })"

text \<open>\<^verbatim>\<open>Scan\<close>: the inner loop over the sorted keys of a shard from position \<open>i\<close> on, and the outer loop
  over the shards. The inner loop stops before the end of the keys only when the result is full,
  and then the outer loop stops as well.\<close>

fun scanKeys :: "string \<Rightarrow> nat \<Rightarrow> string list \<Rightarrow> nat \<Rightarrow> string list \<Rightarrow> string list \<times> nat" where
  "scanKeys pattern cnt [] i result = (result, i)"
| "scanKeys pattern cnt (key # keys) i result =
     (if length result < cnt
      then scanKeys pattern cnt keys (i + 1) (if scanMatch pattern key then result @ [key] else result)
      else (result, i))"

fun scanLoop ::
    "('a \<Rightarrow> string list go) \<Rightarrow> string \<Rightarrow> nat \<Rightarrow> 'a list \<Rightarrow> nat \<Rightarrow> nat \<Rightarrow> string list \<Rightarrow>
     (string list \<times> (nat \<times> nat) option) go" where
  "scanLoop keysOf pattern cnt [] shardIdx posInShard result = Some (result, None)"
| "scanLoop keysOf pattern cnt (shard # shards) shardIdx posInShard result =
     (if length result < cnt
      then do { ks \<leftarrow> keysOf shard;
                let keys = sort ks;
                let (result', pos) = scanKeys pattern cnt (drop posInShard keys) posInShard result;
                if pos \<ge> length keys
                then scanLoop keysOf pattern cnt shards (shardIdx + 1) 0 result'
                else Some (result', Some (shardIdx, pos)) }
      else Some (result, Some (shardIdx, posInShard)))"

definition cursorShard :: "64 word \<Rightarrow> nat" where
  "cursorShard cursor = unat (drop_bit 32 cursor)"

definition cursorPos :: "64 word \<Rightarrow> nat" where
  "cursorPos cursor = unat (cursor AND 0xFFFFFFFF)"

definition makeCursor :: "nat \<times> nat \<Rightarrow> 64 word" where
  "makeCursor p = (push_bit 32 (of_nat (fst p))) OR of_nat (snd p)"

definition sc_Scan :: "int \<Rightarrow> ShardedCache \<Rightarrow> 64 word \<Rightarrow> string \<Rightarrow> int \<Rightarrow> (string list \<times> 64 word) go" where
  "sc_Scan now sc cursor pattern cnt0 =
     do { let cnt = (if cnt0 \<le> 0 then 10 else nat cnt0);
          (result, next_pos) \<leftarrow>
            scanLoop (shardKeys now) pattern cnt (drop (cursorShard cursor) (sc_shards sc))
              (cursorShard cursor) (cursorPos cursor) [];
          Some (result, case next_pos of None \<Rightarrow> 0 | Some p \<Rightarrow> makeCursor p) }"

end
