(* ===== verification/Codec.thy ===== *)
theory Codec
  imports GoLib "HOL-Library.Countable" "HOL-Library.Product_Lexorder" "HOL-Library.Multiset"
begin

text \<open>
  The value types of \<^verbatim>\<open>internal/engine/engine.go\<close> and the serialisation of entries,
  \<^verbatim>\<open>internal/engine/memory/entry_codec.go\<close>.

  \<^item> A \<^verbatim>\<open>float64\<close> is a rational, an infinity or NaN; both zeros are \<open>Fin 0\<close>. Comparisons with NaN are
    false, as in IEEE 754. The rounding of a sum is a parameter, \<open>rnd\<close>.
  \<^item> A value of type \<^verbatim>\<open>any\<close> in an entry is one of the Go types the code switches on. A nil map that
    \<^verbatim>\<open>json.Unmarshal\<close> may leave in a hash is \<open>VHash None\<close>; a nil slice is an empty list.
  \<^item> \<^verbatim>\<open>encoding/json\<close> is the parameter \<open>Json\<close>: one marshaller and one unmarshaller for each Go type
    the code passes to it.
  \<^item> \<^verbatim>\<open>sort.Slice\<close> is the insertion sort that the Go library runs on short slices. For a strict
    total order every sorting algorithm returns the same list.
\<close>

section \<open>Floating-point scores\<close>

datatype float64 = NaN | NInf | Fin rat | PInf

instance float64 :: countable by countable_datatype

definition frank :: "float64 \<Rightarrow> nat \<times> rat" where
  "frank x = (case x of NaN \<Rightarrow> (0, 0) | NInf \<Rightarrow> (1, 0) | Fin r \<Rightarrow> (2, r) | PInf \<Rightarrow> (3, 0))"

lemma frank_inject [simp]: "frank x = frank y \<longleftrightarrow> x = y"
  by (cases x; cases y) (simp_all add: frank_def)

instantiation float64 :: linorder
begin

definition less_eq_float64 :: "float64 \<Rightarrow> float64 \<Rightarrow> bool" where
  "less_eq_float64 x y = (frank x \<le> frank y)"

definition less_float64 :: "float64 \<Rightarrow> float64 \<Rightarrow> bool" where
  "less_float64 x y = (frank x < frank y)"

instance
proof
  fix x y z :: float64
  show "x < y \<longleftrightarrow> x \<le> y \<and> \<not> y \<le> x"
    unfolding less_eq_float64_def less_float64_def by (rule less_le_not_le)
  show "x \<le> x" by (simp add: less_eq_float64_def)
  show "x \<le> y \<Longrightarrow> y \<le> z \<Longrightarrow> x \<le> z"
    unfolding less_eq_float64_def by (rule order_trans)
  show "x \<le> y \<Longrightarrow> y \<le> x \<Longrightarrow> x = y"
    unfolding less_eq_float64_def by (metis antisym frank_inject)
  show "x \<le> y \<or> y \<le> x" unfolding less_eq_float64_def by (rule linear)
qed

end

text \<open>The Go operators: NaN is unordered.\<close>

definition feq :: "float64 \<Rightarrow> float64 \<Rightarrow> bool" where
  "feq x y = (x \<noteq> NaN \<and> x = y)"

definition flt :: "float64 \<Rightarrow> float64 \<Rightarrow> bool" where
  "flt x y = (x \<noteq> NaN \<and> y \<noteq> NaN \<and> x < y)"

definition fle :: "float64 \<Rightarrow> float64 \<Rightarrow> bool" where
  "fle x y = (x \<noteq> NaN \<and> y \<noteq> NaN \<and> x \<le> y)"

fun fadd :: "(rat \<Rightarrow> float64) \<Rightarrow> float64 \<Rightarrow> float64 \<Rightarrow> float64" where
  "fadd rnd (Fin x) (Fin y) = rnd (x + y)"
| "fadd rnd PInf y = (if y = NInf \<or> y = NaN then NaN else PInf)"
| "fadd rnd NInf y = (if y = PInf \<or> y = NaN then NaN else NInf)"
| "fadd rnd NaN y = NaN"
| "fadd rnd (Fin x) y = y"

section \<open>Engine types\<close>

type_synonym ValueType = int

definition TypeString :: ValueType where "TypeString = 0"
definition TypeList :: ValueType where "TypeList = 1"
definition TypeSet :: ValueType where "TypeSet = 2"
definition TypeZSet :: ValueType where "TypeZSet = 3"
definition TypeHash :: ValueType where "TypeHash = 4"

lemmas value_types = TypeString_def TypeList_def TypeSet_def TypeZSet_def TypeHash_def

datatype ZMember = ZMember (zm_Score: float64) (zm_Member: string)

instance ZMember :: countable by countable_datatype

datatype Value =
    VBytes string
  | VStr string
  | VHash "(string, string) gomap option"
  | VList "string list"
  | VSet "(string, unit) gomap"
  | VZSet "(string, float64) gomap"
  | VZList "ZMember list"

text \<open>\<^verbatim>\<open>engine.Entry\<close>; the zero \<^verbatim>\<open>time.Time\<close> is \<open>None\<close>.\<close>

record EngineEntry =
  ee_Key :: string
  ee_Value :: Value
  ee_Type :: ValueType
  ee_ExpireAt :: "int option"
  ee_CreatedAt :: "int option"
  ee_UpdatedAt :: "int option"

section \<open>Sorting with a comparison function\<close>

fun insr :: "('a \<Rightarrow> 'a \<Rightarrow> bool) \<Rightarrow> 'a \<Rightarrow> 'a list \<Rightarrow> 'a list" where
  "insr lt x [] = [x]"
| "insr lt x (y # ys) = (if lt x y then y # insr lt x ys else x # y # ys)"

definition sort_Slice :: "('a \<Rightarrow> 'a \<Rightarrow> bool) \<Rightarrow> 'a list \<Rightarrow> 'a list" where
  "sort_Slice lt xs = rev (foldl (\<lambda>acc x. insr lt x acc) [] xs)"

definition zless :: "ZMember \<Rightarrow> ZMember \<Rightarrow> bool" where
  "zless a b =
     (if feq (zm_Score a) (zm_Score b) then zm_Member a < zm_Member b
      else flt (zm_Score a) (zm_Score b))"

section \<open>The codec\<close>

record Json =
  marshal_map :: "(string, string) gomap option \<Rightarrow> string res"
  marshal_strs :: "string list \<Rightarrow> string res"
  marshal_zs :: "ZMember list \<Rightarrow> string res"
  unmarshal_map :: "string \<Rightarrow> (string, string) gomap option res"
  unmarshal_strs :: "string \<Rightarrow> string list res"
  unmarshal_zs :: "string \<Rightarrow> ZMember list res"

definition typeName :: "Value \<Rightarrow> string" where
  "typeName v =
     (case v of
        VBytes _ \<Rightarrow> ''[]uint8''
      | VStr _ \<Rightarrow> ''string''
      | VHash _ \<Rightarrow> ''map[string]string''
      | VList _ \<Rightarrow> ''[]string''
      | VSet _ \<Rightarrow> ''map[string]struct {}''
      | VZSet _ \<Rightarrow> ''map[string]float64''
      | VZList _ \<Rightarrow> ''[]engine.ZMember'')"

definition zmembers :: "(string, float64) gomap \<Rightarrow> ZMember list" where
  "zmembers m = map (\<lambda>(member, score). ZMember score member) m"

definition encodePayload :: "Json \<Rightarrow> ValueType \<Rightarrow> Value \<Rightarrow> string res" where
  "encodePayload J t v =
     (if t = TypeString then
        (case v of
           VBytes b \<Rightarrow> Inr b
         | VStr b \<Rightarrow> Inr b
         | _ \<Rightarrow> Inl (ErrMsg (''unsupported string value type '' @ typeName v)))
      else if t = TypeHash then
        (case v of
           VHash m \<Rightarrow> marshal_map J m
         | _ \<Rightarrow> Inl (ErrMsg (''unsupported hash value type '' @ typeName v)))
      else if t = TypeList then
        (case v of
           VList xs \<Rightarrow> marshal_strs J xs
         | _ \<Rightarrow> Inl (ErrMsg (''unsupported list value type '' @ typeName v)))
      else if t = TypeSet then
        (case v of
           VSet m \<Rightarrow> marshal_strs J (sort (mkeys m))
         | VList xs \<Rightarrow> marshal_strs J (sort xs)
         | _ \<Rightarrow> Inl (ErrMsg (''unsupported set value type '' @ typeName v)))
      else if t = TypeZSet then
        (case v of
           VZSet m \<Rightarrow> marshal_zs J (sort_Slice zless (zmembers m))
         | VZList zs \<Rightarrow> marshal_zs J (sort_Slice zless zs)
         | _ \<Rightarrow> Inl (ErrMsg (''unsupported zset value type '' @ typeName v)))
      else Inl (ErrMsg (''unsupported value type '' @ FormatInt t)))"

text \<open>The serialised form is the type as one byte, then the payload; a nil entry is \<open>None\<close>.\<close>

definition SerializeEntryValue :: "Json \<Rightarrow> EngineEntry option \<Rightarrow> string res" where
  "SerializeEntryValue J e =
     (case e of
        None \<Rightarrow> Inl (ErrMsg ''entry is nil'')
      | Some entry \<Rightarrow>
          (case encodePayload J (ee_Type entry) (ee_Value entry) of
             Inl err \<Rightarrow> Inl err
           | Inr payload \<Rightarrow> Inr (char_of (ee_Type entry mod 256) # payload)))"

definition DecodeSerializedValue :: "Json \<Rightarrow> ValueType \<Rightarrow> string \<Rightarrow> Value res" where
  "DecodeSerializedValue J t payload =
     (if t = TypeString then Inr (VStr payload)
      else if t = TypeHash then map_sum id VHash (unmarshal_map J payload)
      else if t = TypeList then map_sum id VList (unmarshal_strs J payload)
      else if t = TypeSet then
        map_sum id (\<lambda>members. VSet (fold (\<lambda>member. mput member ()) members [])) (unmarshal_strs J payload)
      else if t = TypeZSet then
        map_sum id (\<lambda>members. VZSet (fold (\<lambda>m. mput (zm_Member m) (zm_Score m)) members []))
          (unmarshal_zs J payload)
      else Inl (ErrMsg (''unsupported value type '' @ FormatInt t)))"

section \<open>Sorting\<close>

lemma mset_insr [simp]: "mset (insr lt x ys) = add_mset x (mset ys)"
  by (induction ys) auto

lemma mset_sort_Slice [simp]: "mset (sort_Slice lt xs) = mset xs"
proof -
  have "mset (foldl (\<lambda>acc x. insr lt x acc) acc xs) = mset acc + mset xs" for acc
    by (induction xs arbitrary: acc) auto
  then show ?thesis by (simp add: sort_Slice_def)
qed

lemma set_sort_Slice [simp]: "set (sort_Slice lt xs) = set xs"
  by (metis mset_sort_Slice set_mset_mset)

lemma length_sort_Slice [simp]: "length (sort_Slice lt xs) = length xs"
  by (metis mset_sort_Slice size_mset)

lemma set_insr: "set (insr lt x ys) = insert x (set ys)"
  by (induction ys) auto

text \<open>A comparison that agrees with an injective key gives the library's sort.\<close>

lemma insr_sorted:
  fixes f :: "'a \<Rightarrow> 'b :: linorder"
  assumes "sorted_wrt (\<lambda>a b. f b \<le> f a) ys" "\<And>y. y \<in> set ys \<Longrightarrow> lt x y \<longleftrightarrow> f x < f y"
  shows "sorted_wrt (\<lambda>a b. f b \<le> f a) (insr lt x ys)"
  using assms by (induction ys) (auto simp: set_insr dest: order_trans)

lemma sort_Slice_eq:
  fixes f :: "'a \<Rightarrow> 'b :: linorder"
  assumes lt: "\<And>a b. a \<in> set xs \<Longrightarrow> b \<in> set xs \<Longrightarrow> lt a b \<longleftrightarrow> f a < f b" and inj: "inj_on f (set xs)"
  shows "sort_Slice lt xs = sort_key f xs"
proof -
  have "sorted_wrt (\<lambda>a b. f b \<le> f a) (foldl (\<lambda>acc x. insr lt x acc) acc ys)"
    if "sorted_wrt (\<lambda>a b. f b \<le> f a) acc" "set acc \<union> set ys \<subseteq> set xs" for acc ys
    using that
  proof (induction ys arbitrary: acc)
    case (Cons y ys)
    then have "sorted_wrt (\<lambda>a b. f b \<le> f a) (insr lt y acc)" by (intro insr_sorted) (auto simp: lt)
    with Cons show ?case by (simp add: set_insr)
  qed simp
  from this [of "[]" xs] have "sorted (map f (sort_Slice lt xs))"
    by (simp add: sort_Slice_def sorted_wrt_map sorted_wrt_rev)
  with inj show ?thesis by (metis mset_sort_Slice sort_key_inj_key_eq)
qed

definition zkey :: "ZMember \<Rightarrow> float64 \<times> string" where
  "zkey z = (zm_Score z, zm_Member z)"

lemma zkey_inj: "inj_on zkey A"
  by (auto simp: inj_on_def zkey_def ZMember.expand)

lemma zless_eq: "zm_Score a \<noteq> NaN \<Longrightarrow> zm_Score b \<noteq> NaN \<Longrightarrow> zless a b \<longleftrightarrow> zkey a < zkey b"
  by (auto simp: zless_def zkey_def feq_def flt_def less_prod_def)

lemma sort_zmembers:
  "\<forall>z \<in> set zs. zm_Score z \<noteq> NaN \<Longrightarrow> sort_Slice zless zs = sort_key zkey zs"
  by (rule sort_Slice_eq) (auto simp: zless_eq zkey_inj)

section \<open>What the code relies on in \<^verbatim>\<open>encoding/json\<close>\<close>

text \<open>
  \<^verbatim>\<open>json.Marshal\<close> replaces every byte of a string that is not part of a UTF-8 sequence by the
  replacement character U+FFFD, whose encoding is \<^verbatim>\<open>EF BF BD\<close>. It refuses infinities and NaN.
  Everything else comes back from \<^verbatim>\<open>json.Unmarshal\<close>.
\<close>

function toValid :: "string \<Rightarrow> string" where
  "toValid s =
     (if s = [] then []
      else let (r, n) = DecodeRuneInString s
           in if r = RuneError \<and> n \<le> 1
              then map char_of [0xEF :: nat, 0xBF, 0xBD] @ toValid (tl s)
              else take (max 1 n) s @ toValid (drop (max 1 n) s))"
  by pat_completeness auto
termination by (relation "measure length") (auto simp: length_greater_0_conv [symmetric] simp del: length_greater_0_conv)

declare toValid.simps [simp del]

definition valid_utf8 :: "string \<Rightarrow> bool" where
  "valid_utf8 s \<longleftrightarrow> toValid s = s"

lemma toValid_Nil [simp]: "toValid [] = []"
  by (simp add: toValid.simps)

lemma valid_utf8_ascii: "\<forall>c \<in> set s. of_char c < (128 :: nat) \<Longrightarrow> valid_utf8 s"
proof (induction s)
  case (Cons c s)
  then have "DecodeRuneInString (c # s) = (of_char c, 1)" by (simp add: DecodeRuneInString_def)
  with Cons show ?case by (simp add: valid_utf8_def toValid.simps [of "c # s"] RuneError_def)
qed (simp add: valid_utf8_def)

lemma not_valid_utf8_FF: "\<not> valid_utf8 [char_of (0xFF :: nat)]"
  by (simp add: valid_utf8_def toValid.simps [of "[_]"] DecodeRuneInString_def RuneError_def)

definition finite_score :: "ZMember \<Rightarrow> bool" where
  "finite_score z \<longleftrightarrow> (case zm_Score z of Fin _ \<Rightarrow> True | _ \<Rightarrow> False)"

definition json_spec :: "Json \<Rightarrow> bool" where
  "json_spec J \<longleftrightarrow>
     (\<forall>xs. \<exists>p. marshal_strs J xs = Inr p \<and> unmarshal_strs J p = Inr (map toValid xs)) \<and>
     (\<forall>m. mwf m \<and> (\<forall>(k, v) \<in> set m. valid_utf8 k \<and> valid_utf8 v) \<longrightarrow>
        (\<exists>p m'. marshal_map J (Some m) = Inr p \<and> unmarshal_map J p = Inr (Some m') \<and> mwf m' \<and> mget m' = mget m)) \<and>
     (\<forall>zs. (\<forall>z \<in> set zs. finite_score z \<and> valid_utf8 (zm_Member z)) \<longrightarrow>
        (\<exists>p. marshal_zs J zs = Inr p \<and> unmarshal_zs J p = Inr zs)) \<and>
     (\<forall>zs. (\<exists>z \<in> set zs. \<not> finite_score z) \<longrightarrow> (\<exists>e. marshal_zs J zs = Inl e))"

text \<open>An instance: values are numbered, and a number is written in unary.\<close>

definition unary :: "'a :: countable \<Rightarrow> string" where
  "unary x = replicate (to_nat x) CHR ''1''"

definition json_unary :: Json where
  "json_unary =
     \<lparr> marshal_map = (\<lambda>m. Inr (unary m)),
       marshal_strs = (\<lambda>xs. Inr (unary (map toValid xs))),
       marshal_zs = (\<lambda>zs. if \<forall>z \<in> set zs. finite_score z then Inr (unary zs) else Inl (ErrMsg ''unsupported value'')),
       unmarshal_map = (\<lambda>p. Inr (from_nat (length p))),
       unmarshal_strs = (\<lambda>p. Inr (from_nat (length p))),
       unmarshal_zs = (\<lambda>p. Inr (from_nat (length p))) \<rparr>"

lemma json_unary_spec: "json_spec json_unary"
  by (auto simp: json_spec_def json_unary_def unary_def)

section \<open>Properties\<close>

text \<open>The values an entry of each type may have, and when two of them hold the same data.\<close>

fun storable :: "ValueType \<Rightarrow> Value \<Rightarrow> bool" where
  "storable t (VBytes b) \<longleftrightarrow> t = TypeString"
| "storable t (VStr b) \<longleftrightarrow> t = TypeString"
| "storable t (VHash None) \<longleftrightarrow> False"
| "storable t (VHash (Some m)) \<longleftrightarrow> t = TypeHash \<and> mwf m \<and> (\<forall>(k, v) \<in> set m. valid_utf8 k \<and> valid_utf8 v)"
| "storable t (VList xs) \<longleftrightarrow> t = TypeList \<and> (\<forall>x \<in> set xs. valid_utf8 x)"
| "storable t (VSet m) \<longleftrightarrow> t = TypeSet \<and> mwf m \<and> (\<forall>k \<in> set (mkeys m). valid_utf8 k)"
| "storable t (VZSet m) \<longleftrightarrow> t = TypeZSet \<and> mwf m \<and>
     (\<forall>z \<in> set (zmembers m). finite_score z \<and> valid_utf8 (zm_Member z))"
| "storable t (VZList zs) \<longleftrightarrow> False"

fun same_data :: "Value \<Rightarrow> Value \<Rightarrow> bool" where
  "same_data (VBytes a) (VStr b) \<longleftrightarrow> a = b"
| "same_data (VStr a) (VStr b) \<longleftrightarrow> a = b"
| "same_data (VHash (Some m)) (VHash (Some m')) \<longleftrightarrow> mwf m' \<and> mget m' = mget m"
| "same_data (VList xs) (VList ys) \<longleftrightarrow> xs = ys"
| "same_data (VSet m) (VSet m') \<longleftrightarrow> mwf m' \<and> mget m' = mget m"
| "same_data (VZSet m) (VZSet m') \<longleftrightarrow> mwf m' \<and> mget m' = mget m"
| "same_data _ _ \<longleftrightarrow> False"

text \<open>Rebuilding a map from its entries in any order.\<close>

lemma rebuild_map:
  assumes "mwf m" "mset kvs = mset m"
  shows "mwf (fold (\<lambda>(k, v). mput k v) kvs []) \<and> mget (fold (\<lambda>(k, v). mput k v) kvs []) = mget m"
proof
  show "mwf (fold (\<lambda>(k, v). mput k v) kvs [])" by (rule gm.inv_insert_all) simp
  have "mset (map fst kvs) = mset (map fst m)" using assms(2) by simp
  then have "distinct (map fst kvs)"
    using assms(1) unfolding mwf_def by (metis card_distinct distinct_card mset_eq_length mset_eq_setD)
  then have "mget (rev kvs) = mget m"
    using assms by (subst map_of_inject_set) (auto simp: mwf_def rev_map [symmetric] dest: mset_eq_setD)
  then show "mget (fold (\<lambda>(k, v). mput k v) kvs []) = mget m"
    by (auto simp: gm.lookup_insert_all fun_eq_iff split: option.splits)
qed

lemma json_strs: "json_spec J \<Longrightarrow> \<exists>p. marshal_strs J xs = Inr p \<and> unmarshal_strs J p = Inr (map toValid xs)"
  by (simp add: json_spec_def)

lemma json_map:
  "json_spec J \<Longrightarrow> mwf m \<Longrightarrow> \<forall>(k, v) \<in> set m. valid_utf8 k \<and> valid_utf8 v \<Longrightarrow>
     \<exists>p m'. marshal_map J (Some m) = Inr p \<and> unmarshal_map J p = Inr (Some m') \<and> mwf m' \<and> mget m' = mget m"
  unfolding json_spec_def by blast

lemma json_zs:
  "json_spec J \<Longrightarrow> \<forall>z \<in> set zs. finite_score z \<and> valid_utf8 (zm_Member z) \<Longrightarrow>
     \<exists>p. marshal_zs J zs = Inr p \<and> unmarshal_zs J p = Inr zs"
  unfolding json_spec_def by blast

lemma json_zs_err: "json_spec J \<Longrightarrow> \<exists>z \<in> set zs. \<not> finite_score z \<Longrightarrow> \<exists>e. marshal_zs J zs = Inl e"
  unfolding json_spec_def by blast

lemma map_toValid: "\<forall>x \<in> set xs. valid_utf8 x \<Longrightarrow> map toValid xs = xs"
  by (simp add: valid_utf8_def map_idI)

lemma decode_set:
  assumes "mwf m" "mset ks = mset (mkeys m)"
  shows "same_data (VSet m) (VSet (fold (\<lambda>member. mput member ()) ks []))"
proof -
  have "map (\<lambda>k. (k, ())) (mkeys m) = m" by (auto simp: mkeys_def intro!: map_idI)
  then have "mset (map (\<lambda>k. (k, ())) ks) = mset m" using assms(2) by (metis mset_map)
  from rebuild_map [OF assms(1) this] show ?thesis by (simp add: fold_map comp_def)
qed

lemma decode_zset:
  assumes "mwf m" "mset zs = mset (zmembers m)"
  shows "same_data (VZSet m) (VZSet (fold (\<lambda>z. mput (zm_Member z) (zm_Score z)) zs []))"
proof -
  let ?kv = "\<lambda>z. (zm_Member z, zm_Score z)"
  have "map ?kv (zmembers m) = m" by (simp add: zmembers_def comp_def case_prod_beta)
  then have "mset (map ?kv zs) = mset m" using assms(2) by (metis mset_map)
  from rebuild_map [OF assms(1) this] show ?thesis by (simp add: fold_map comp_def)
qed


definition entry_zset :: EngineEntry where
  "entry_zset = \<lparr> ee_Key = ''z'', ee_Value = VZSet [(''b'', Fin 2), (''a'', Fin 1)], ee_Type = TypeZSet,
     ee_ExpireAt = None, ee_CreatedAt = None, ee_UpdatedAt = None \<rparr>"


text \<open>
  what the JSON payloads do not carry. A list comes back exactly when all its elements are UTF-8:
  other bytes are replaced. A sorted set with an infinite score is not serialised at all.
\<close>

theorem codec_loses:
  assumes J: "json_spec J"
  shows "(\<exists>p. encodePayload J TypeList (VList xs) = Inr p \<and>
      (DecodeSerializedValue J TypeList p = Inr (VList xs) \<longleftrightarrow> (\<forall>x \<in> set xs. valid_utf8 x))) \<and>
    ((\<exists>k. mget m k \<in> {Some PInf, Some NInf, Some NaN}) \<longrightarrow> (\<exists>err. encodePayload J TypeZSet (VZSet m) = Inl err))"
proof (intro conjI impI)
  obtain p where "marshal_strs J xs = Inr p" "unmarshal_strs J p = Inr (map toValid xs)"
    using json_strs [OF J] by blast
  moreover have "map toValid xs = xs \<longleftrightarrow> (\<forall>x \<in> set xs. valid_utf8 x)"
    by (induction xs) (auto simp: valid_utf8_def)
  ultimately show "\<exists>p. encodePayload J TypeList (VList xs) = Inr p \<and>
      (DecodeSerializedValue J TypeList p = Inr (VList xs) \<longleftrightarrow> (\<forall>x \<in> set xs. valid_utf8 x))"
    by (simp add: encodePayload_def DecodeSerializedValue_def value_types)
next
  assume "\<exists>k. mget m k \<in> {Some PInf, Some NInf, Some NaN}"
  then obtain k f where "(k, f) \<in> set m" "f \<in> {PInf, NInf, NaN}" by (auto dest: map_of_SomeD)
  then have "\<exists>z \<in> set (sort_Slice zless (zmembers m)). \<not> finite_score z"
    by (force simp: zmembers_def finite_score_def)
  with json_zs_err [OF J] show "\<exists>err. encodePayload J TypeZSet (VZSet m) = Inl err"
    by (simp add: encodePayload_def value_types)
qed

theorem codec_loses_witness:
  "\<not> valid_utf8 [char_of (0xFF :: nat)] \<and>
   (\<exists>p. encodePayload json_unary TypeList (VList [[char_of (0xFF :: nat)]]) = Inr p \<and>
      DecodeSerializedValue json_unary TypeList p \<noteq> Inr (VList [[char_of (0xFF :: nat)]])) \<and>
   (\<exists>err. encodePayload json_unary TypeZSet (VZSet [(''a'', PInf)]) = Inl err)"
  using codec_loses [OF json_unary_spec, of "[[char_of (0xFF :: nat)]]" "[(''a'', PInf)]"] not_valid_utf8_FF
  by auto

end
