(* ===== verification/Store.thy ===== *)
theory Store
  imports ShardCache Codec
begin

text \<open>
  The in-memory engine, \<^verbatim>\<open>internal/engine/memory/store.go\<close>, with its evictor, \<^verbatim>\<open>eviction.go\<close>, and its
  expiry manager, \<^verbatim>\<open>expiry.go\<close>: strings in the sharded cache, the other types in the dictionary of
  objects. A \<^verbatim>\<open>*typedValue\<close> is reached only through the entry that holds it, so writing through the
  pointer is an update of that entry, \<open>setObject\<close>.

  Operations take the current time \<open>now\<close>; those that may evict also take \<open>mem\<close>, the number of
  allocated bytes that \<^verbatim>\<open>runtime.ReadMemStats\<close> reports. They return the store and the result, or
  \<open>None\<close> when the call panics or does not return.

  An argument of type \<^verbatim>\<open>interface{}\<close> is a string or another value, which is represented by what
  \<^verbatim>\<open>fmt.Sprint\<close> prints for it.
\<close>

unbundle bit_operations_syntax

datatype iface = IStr string | IOther string

definition Sprint :: "iface \<Rightarrow> string" where
  "Sprint v = (case v of IStr x \<Rightarrow> x | IOther x \<Rightarrow> x)"

section \<open>Evictor\<close>

record Evictor =
  ev_maxMemory :: int
  ev_policy :: string

definition evictSampleCount :: int where "evictSampleCount = 5"

definition NewEvictor :: "int \<Rightarrow> string \<Rightarrow> Evictor" where
  "NewEvictor maxMemory policy = \<lparr> ev_maxMemory = maxMemory, ev_policy = policy \<rparr>"

definition evictLRU :: "int \<Rightarrow> ShardedCache \<Rightarrow> bool \<Rightarrow> (ShardedCache \<times> bool) go" where
  "evictLRU now sc volatileOnly =
     (if volatileOnly then SampledEvictVolatile now sc (word_of_int now)
      else SampledEvict now sc (word_of_int now))"

definition evictLFU :: "int \<Rightarrow> ShardedCache \<Rightarrow> bool \<Rightarrow> (ShardedCache \<times> bool) go" where
  "evictLFU now sc volatileOnly =
     (if volatileOnly then SampledEvictVolatile now sc (word_of_int now)
      else SampledEvict now sc (word_of_int now))"

definition evictRandom :: "int \<Rightarrow> ShardedCache \<Rightarrow> bool \<Rightarrow> (ShardedCache \<times> bool) go" where
  "evictRandom now sc volatileOnly =
     do { keys \<leftarrow> sc_RandomKeys now sc 1;
          case keys of
            [] \<Rightarrow> Some (sc, False)
          | key # _ \<Rightarrow>
              do { keep \<leftarrow> (if volatileOnly
                            then do { (ttl, ok) \<leftarrow> sc_TTL now sc key; Some (\<not> ok \<or> ttl = -1) }
                            else Some False);
                   if keep then Some (sc, False)
                   else do { (sc', _) \<leftarrow> sc_Delete sc key; Some (sc', True) } } }"

text \<open>The key among the sample that expires before \<open>bestExpire\<close>; \<^verbatim>\<open>bestKey\<close> is the empty string until one
  is found. The search starts from \<^verbatim>\<open>^int64(0) >> 1\<close>, an arithmetic shift.\<close>

definition bestExpire0 :: int where "bestExpire0 = drop_bit 1 (NOT 0)"

fun bestTTL :: "int \<Rightarrow> ShardedCache \<Rightarrow> string list \<Rightarrow> string \<Rightarrow> int \<Rightarrow> string go" where
  "bestTTL now sc [] bestKey bestExpire = Some bestKey"
| "bestTTL now sc (key # keys) bestKey bestExpire =
     do { (ttl, ok) \<leftarrow> sc_TTL now sc key;
          if \<not> ok \<or> ttl = -1 then bestTTL now sc keys bestKey bestExpire
          else let expireAt = i64 (now + ttl)
               in if expireAt < bestExpire then bestTTL now sc keys key expireAt
                  else bestTTL now sc keys bestKey bestExpire }"

definition evictTTL :: "int \<Rightarrow> ShardedCache \<Rightarrow> (ShardedCache \<times> bool) go" where
  "evictTTL now sc =
     do { keys \<leftarrow> sc_RandomKeys now sc evictSampleCount;
          if keys = [] then Some (sc, False)
          else do {
            bestKey \<leftarrow> bestTTL now sc keys [] bestExpire0;
            if bestKey \<noteq> [] then do { (sc', _) \<leftarrow> sc_Delete sc bestKey; Some (sc', True) }
            else Some (sc, False) } }"

definition evict :: "int \<Rightarrow> Evictor \<Rightarrow> ShardedCache \<Rightarrow> (ShardedCache \<times> bool) go" where
  "evict now e sc =
     (if ev_policy e = ''allkeys-lru'' then evictLRU now sc False
      else if ev_policy e = ''volatile-lru'' then evictLRU now sc True
      else if ev_policy e = ''allkeys-lfu'' then evictLFU now sc False
      else if ev_policy e = ''volatile-lfu'' then evictLFU now sc True
      else if ev_policy e = ''allkeys-random'' then evictRandom now sc False
      else if ev_policy e = ''volatile-ttl'' then evictTTL now sc
      else Some (sc, False))"

definition TryEvict :: "int \<Rightarrow> 64 word \<Rightarrow> Evictor \<Rightarrow> ShardedCache \<Rightarrow> (ShardedCache \<times> bool) go" where
  "TryEvict now mem e sc =
     (if ev_maxMemory e \<le> 0 then Some (sc, False)
      else if sint mem < ev_maxMemory e then Some (sc, False)
      else evict now e sc)"

section \<open>The store\<close>

record typedValue =
  tv_Type :: ValueType
  tv_Value :: Value

record Stats =
  ss_Hits :: int
  ss_Misses :: int
  ss_SetOps :: int
  ss_GetOps :: int
  ss_DelOps :: int
  ss_ExpiredKeys :: int
  ss_EvictedKeys :: int

record Store =
  st_cache :: ShardedCache
  st_objects :: "typedValue Dict"
  st_evictor :: "Evictor option"
  st_maxMemory :: int
  st_evictPolicy :: string
  st_stats :: Stats

record Config =
  cf_ShardCount :: int
  cf_MaxMemory :: int
  cf_EvictPolicy :: string

definition DefaultConfig :: Config where
  "DefaultConfig = \<lparr> cf_ShardCount = 1024, cf_MaxMemory = 0, cf_EvictPolicy = ''noeviction'' \<rparr>"

text \<open>\<^verbatim>\<open>NewStore\<close>; the seeds of the two hash functions are drawn at random and are arguments here.\<close>

definition NewStore :: "(string \<Rightarrow> 64 word) \<Rightarrow> (string \<Rightarrow> 64 word) \<Rightarrow> Config option \<Rightarrow> Store" where
  "NewStore seedC seedD cfg0 =
     (let cfg = (case cfg0 of None \<Rightarrow> DefaultConfig | Some c \<Rightarrow> c)
      in \<lparr> st_cache = NewShardedCache seedC
             \<lparr> scc_ShardCount = cf_ShardCount cfg, scc_RingSize = 0, scc_LFUWidth = 0, scc_SampledEvict = 0,
               scc_SkipLFU = (cf_MaxMemory cfg \<le> 0 \<or> cf_EvictPolicy cfg = ''noeviction'') \<rparr>,
           st_objects = NewDict seedD (cf_ShardCount cfg),
           st_evictor = (if cf_MaxMemory cfg > 0 \<and> cf_EvictPolicy cfg \<noteq> ''noeviction''
                         then Some (NewEvictor (cf_MaxMemory cfg) (cf_EvictPolicy cfg)) else None),
           st_maxMemory = cf_MaxMemory cfg, st_evictPolicy = cf_EvictPolicy cfg,
           st_stats = \<lparr> ss_Hits = 0, ss_Misses = 0, ss_SetOps = 0, ss_GetOps = 0, ss_DelOps = 0,
                        ss_ExpiredKeys = 0, ss_EvictedKeys = 0 \<rparr> \<rparr>)"

subsection \<open>Objects and the slot index\<close>

definition trackKey :: "Store \<Rightarrow> string \<Rightarrow> Store" where
  "trackKey s key = s\<lparr> st_cache := slotAdd (st_cache s) key \<rparr>"

definition untrackKey :: "Store \<Rightarrow> string \<Rightarrow> Store" where
  "untrackKey s key =
     (case sc_slotFunc (st_cache s) of
        None \<Rightarrow> s
      | Some f \<Rightarrow> s\<lparr> st_cache := slotRemove (st_cache s) (f key) [key] \<rparr>)"

definition getObjectValue :: "int \<Rightarrow> Store \<Rightarrow> string \<Rightarrow> (Store \<times> (typedValue \<times> typedValue Entry) option) go" where
  "getObjectValue now s key =
     do { (d, r) \<leftarrow> dict_Get now (st_objects s) key;
          Some (s\<lparr> st_objects := d \<rparr>, map_option (\<lambda>e. (en_Value e, e)) r) }"

definition hasObjectKey :: "int \<Rightarrow> Store \<Rightarrow> string \<Rightarrow> (Store \<times> bool) go" where
  "hasObjectKey now s key = do { (s', r) \<leftarrow> getObjectValue now s key; Some (s', r \<noteq> None) }"

definition deleteObjectKey :: "Store \<Rightarrow> string \<Rightarrow> (Store \<times> bool) go" where
  "deleteObjectKey s key =
     do { (d, n) \<leftarrow> dict_Del (st_objects s) [key];
          let s1 = s\<lparr> st_objects := d \<rparr>;
          if n > 0 then Some (untrackKey s1 key, True) else Some (s1, False) }"

definition removeObjectKey :: "Store \<Rightarrow> string \<Rightarrow> Store go" where
  "removeObjectKey s key = do { (s', _) \<leftarrow> deleteObjectKey s key; Some s' }"

text \<open>\<open>tv.Value = v\<close> for the \<^verbatim>\<open>*typedValue\<close> of a key.\<close>

definition setObject :: "Store \<Rightarrow> string \<Rightarrow> Value \<Rightarrow> Store go" where
  "setObject s key v =
     do { let d = st_objects s;
          i \<leftarrow> dict_getShard d key;
          Some (case mget (dict_items d i) key of
                  None \<Rightarrow> s
                | Some e \<Rightarrow> s\<lparr> st_objects := dict_setItems d i
                    (mput key (e\<lparr> en_Value := (en_Value e)\<lparr> tv_Value := v \<rparr> \<rparr>) (dict_items d i)) \<rparr>) }"

definition newObject :: "int \<Rightarrow> Store \<Rightarrow> string \<Rightarrow> ValueType \<Rightarrow> Value \<Rightarrow> int \<Rightarrow> Store go" where
  "newObject now s key t v ttl =
     do { d \<leftarrow> dict_Set now (st_objects s) key \<lparr> tv_Type = t, tv_Value = v \<rparr> ttl;
          Some (trackKey (s\<lparr> st_objects := d \<rparr>) key) }"

subsection \<open>Strings\<close>

definition evictFirst :: "int \<Rightarrow> 64 word \<Rightarrow> Store \<Rightarrow> Store go" where
  "evictFirst now mem s =
     (case st_evictor s of
        None \<Rightarrow> Some s
      | Some e \<Rightarrow> do { (sc, _) \<leftarrow> TryEvict now mem e (st_cache s); Some (s\<lparr> st_cache := sc \<rparr>) })"

definition cacheSet :: "int \<Rightarrow> Store \<Rightarrow> string \<Rightarrow> string \<Rightarrow> int \<Rightarrow> (Store \<times> unit res) go" where
  "cacheSet now s key val ttl =
     do { (sc, r) \<leftarrow> sc_Set now (st_cache s) key val ttl; Some (s\<lparr> st_cache := sc \<rparr>, r) }"

definition cacheGet :: "int \<Rightarrow> Store \<Rightarrow> string \<Rightarrow> (Store \<times> string option) go" where
  "cacheGet now s key = do { (sc, r) \<leftarrow> GetCopy now (st_cache s) key; Some (s\<lparr> st_cache := sc \<rparr>, r) }"

definition cacheExists :: "int \<Rightarrow> Store \<Rightarrow> string \<Rightarrow> (Store \<times> bool) go" where
  "cacheExists now s key = do { (sc, r) \<leftarrow> sc_Exists now (st_cache s) key; Some (s\<lparr> st_cache := sc \<rparr>, r) }"

definition cacheDelete :: "Store \<Rightarrow> string \<Rightarrow> (Store \<times> bool) go" where
  "cacheDelete s key = do { (sc, r) \<leftarrow> sc_Delete (st_cache s) key; Some (s\<lparr> st_cache := sc \<rparr>, r) }"

definition countGet :: "Store \<Rightarrow> Store" where
  "countGet s = s\<lparr> st_stats := (st_stats s)\<lparr> ss_GetOps := ss_GetOps (st_stats s) + 1 \<rparr> \<rparr>"

definition countHit :: "Store \<Rightarrow> Store" where
  "countHit s = s\<lparr> st_stats := (st_stats s)\<lparr> ss_Hits := ss_Hits (st_stats s) + 1 \<rparr> \<rparr>"

definition countMiss :: "Store \<Rightarrow> Store" where
  "countMiss s = s\<lparr> st_stats := (st_stats s)\<lparr> ss_Misses := ss_Misses (st_stats s) + 1 \<rparr> \<rparr>"

definition countSet :: "Store \<Rightarrow> Store" where
  "countSet s = s\<lparr> st_stats := (st_stats s)\<lparr> ss_SetOps := ss_SetOps (st_stats s) + 1 \<rparr> \<rparr>"

definition countDel :: "Store \<Rightarrow> Store" where
  "countDel s = s\<lparr> st_stats := (st_stats s)\<lparr> ss_DelOps := ss_DelOps (st_stats s) + 1 \<rparr> \<rparr>"

definition st_Get :: "int \<Rightarrow> Store \<Rightarrow> string \<Rightarrow> (Store \<times> string res) go" where
  "st_Get now s0 key =
     do { let s = countGet s0;
          (s1, r) \<leftarrow> cacheGet now s key;
          case r of
            Some val \<Rightarrow> Some (countHit s1, Inr val)
          | None \<Rightarrow>
              do { (s2, obj) \<leftarrow> hasObjectKey now s1 key;
                   if obj then Some (s2, Inl ErrWrongType)
                   else Some (countMiss s2, Inl ErrKeyNotFound) } }"

definition st_GetBytes :: "int \<Rightarrow> Store \<Rightarrow> string \<Rightarrow> (Store \<times> string res) go" where
  "st_GetBytes now s0 key =
     do { let s = countGet s0;
          (sc, r) \<leftarrow> sc_Get now (st_cache s) key;
          let s1 = s\<lparr> st_cache := sc \<rparr>;
          case r of
            Some val \<Rightarrow> Some (countHit s1, Inr val)
          | None \<Rightarrow>
              do { (s2, obj) \<leftarrow> hasObjectKey now s1 key;
                   if obj then Some (s2, Inl ErrWrongType)
                   else Some (countMiss s2, Inl ErrKeyNotFound) } }"

definition st_Set :: "int \<Rightarrow> 64 word \<Rightarrow> Store \<Rightarrow> string \<Rightarrow> string \<Rightarrow> int \<Rightarrow> (Store \<times> unit res) go" where
  "st_Set now mem s key val ttl =
     do { s1 \<leftarrow> evictFirst now mem (countSet s);
          cacheSet now s1 key val ttl }"

definition st_SetNX :: "int \<Rightarrow> Store \<Rightarrow> string \<Rightarrow> string \<Rightarrow> int \<Rightarrow> (Store \<times> bool res) go" where
  "st_SetNX now s key val ttl =
     do { (s1, obj) \<leftarrow> hasObjectKey now s key;
          if obj then Some (s1, Inr False)
          else do { (sc, r) \<leftarrow> sc_SetNX now (st_cache s1) key val ttl;
                    Some (s1\<lparr> st_cache := sc \<rparr>, r) } }"

text \<open>On an error the boolean that accompanies it is dropped.\<close>

definition st_SetXX :: "int \<Rightarrow> 64 word \<Rightarrow> Store \<Rightarrow> string \<Rightarrow> string \<Rightarrow> int \<Rightarrow> (Store \<times> bool res) go" where
  "st_SetXX now mem s key val ttl =
     do { (s1, obj) \<leftarrow> hasObjectKey now s key;
          if obj then
            do { s2 \<leftarrow> removeObjectKey s1 key;
                 s3 \<leftarrow> evictFirst now mem s2;
                 (s4, r) \<leftarrow> cacheSet now s3 key val ttl;
                 Some (s4, map_sum id (\<lambda>_. True) r) }
          else do { (sc, r) \<leftarrow> sc_SetXX now (st_cache s1) key val ttl;
                    Some (s1\<lparr> st_cache := sc \<rparr>, r) } }"

text \<open>Reading the current string of a key that must not hold an object: \<open>GetSet\<close> and \<open>Append\<close>.\<close>

definition currentString :: "int \<Rightarrow> Store \<Rightarrow> string \<Rightarrow> (Store \<times> string res) go" where
  "currentString now s key =
     do { (s1, r) \<leftarrow> cacheGet now s key;
          case r of
            Some val \<Rightarrow> Some (s1, Inr val)
          | None \<Rightarrow> do { (s2, obj) \<leftarrow> hasObjectKey now s1 key;
                         Some (s2, if obj then Inl ErrWrongType else Inr []) } }"

definition st_GetSet :: "int \<Rightarrow> 64 word \<Rightarrow> Store \<Rightarrow> string \<Rightarrow> string \<Rightarrow> (Store \<times> string res) go" where
  "st_GetSet now mem s key val =
     do { (s1, r) \<leftarrow> currentString now s key;
          case r of
            Inl e \<Rightarrow> Some (s1, Inl e)
          | Inr old \<Rightarrow>
              do { s2 \<leftarrow> removeObjectKey s1 key;
                   s3 \<leftarrow> evictFirst now mem s2;
                   (s4, w) \<leftarrow> cacheSet now s3 key val 0;
                   Some (s4, map_sum id (\<lambda>_. old) w) } }"

definition st_IncrBy :: "int \<Rightarrow> Store \<Rightarrow> string \<Rightarrow> int \<Rightarrow> (Store \<times> int res) go" where
  "st_IncrBy now s key delta =
     do { (sc, r) \<leftarrow> sc_IncrBy now (st_cache s) key delta;
          Some (s\<lparr> st_cache := sc \<rparr>, case r of Inl _ \<Rightarrow> Inl ErrNotInteger | Inr v \<Rightarrow> Inr v) }"

definition st_Incr :: "int \<Rightarrow> Store \<Rightarrow> string \<Rightarrow> (Store \<times> int res) go" where
  "st_Incr now s key = st_IncrBy now s key 1"

definition st_Decr :: "int \<Rightarrow> Store \<Rightarrow> string \<Rightarrow> (Store \<times> int res) go" where
  "st_Decr now s key = st_IncrBy now s key (-1)"

definition st_DecrBy :: "int \<Rightarrow> Store \<Rightarrow> string \<Rightarrow> int \<Rightarrow> (Store \<times> int res) go" where
  "st_DecrBy now s key delta = st_IncrBy now s key (i64 (- delta))"

definition st_Append :: "int \<Rightarrow> 64 word \<Rightarrow> Store \<Rightarrow> string \<Rightarrow> string \<Rightarrow> (Store \<times> int res) go" where
  "st_Append now mem s key val =
     do { (s1, r) \<leftarrow> currentString now s key;
          case r of
            Inl e \<Rightarrow> Some (s1, Inl e)
          | Inr current \<Rightarrow>
              do { let str = current @ val;
                   s2 \<leftarrow> removeObjectKey s1 key;
                   s3 \<leftarrow> evictFirst now mem s2;
                   (s4, w) \<leftarrow> cacheSet now s3 key str 0;
                   Some (s4, map_sum id (\<lambda>_. int (length str)) w) } }"

definition st_Strlen :: "int \<Rightarrow> Store \<Rightarrow> string \<Rightarrow> (Store \<times> int res) go" where
  "st_Strlen now s key =
     do { (s1, r) \<leftarrow> cacheGet now s key;
          case r of
            Some val \<Rightarrow> Some (s1, Inr (int (length val)))
          | None \<Rightarrow> do { (s2, obj) \<leftarrow> hasObjectKey now s1 key;
                         Some (s2, if obj then Inl ErrWrongType else Inr 0) } }"

text \<open>\<^verbatim>\<open>MGet\<close>: an error leaves nil in the result.\<close>

fun st_MGet :: "int \<Rightarrow> Store \<Rightarrow> string list \<Rightarrow> (Store \<times> string option list) go" where
  "st_MGet now s [] = Some (s, [])"
| "st_MGet now s (key # keys) =
     do { (s1, r) \<leftarrow> st_Get now s key;
          (s2, rs) \<leftarrow> st_MGet now s1 keys;
          Some (s2, (case r of Inl _ \<Rightarrow> None | Inr val \<Rightarrow> Some val) # rs) }"

fun st_MGetBytes :: "int \<Rightarrow> Store \<Rightarrow> string list \<Rightarrow> (Store \<times> string option list) go" where
  "st_MGetBytes now s [] = Some (s, [])"
| "st_MGetBytes now s (key # keys) =
     do { (s1, r) \<leftarrow> st_GetBytes now s key;
          (s2, rs) \<leftarrow> st_MGetBytes now s1 keys;
          Some (s2, (case r of Inl _ \<Rightarrow> None | Inr val \<Rightarrow> Some val) # rs) }"

fun msetLoop :: "int \<Rightarrow> 64 word \<Rightarrow> Store \<Rightarrow> iface list \<Rightarrow> (Store \<times> unit res) go" where
  "msetLoop now mem s (IStr key # val # pairs) =
     do { (s1, r) \<leftarrow> st_Set now mem s key (Sprint val) 0;
          case r of Inl e \<Rightarrow> Some (s1, Inl e) | Inr _ \<Rightarrow> msetLoop now mem s1 pairs }"
| "msetLoop now mem s (IOther _ # _ # pairs) = Some (s, Inl (ErrMsg ''invalid key type''))"
| "msetLoop now mem s _ = Some (s, Inr ())"

definition st_MSet :: "int \<Rightarrow> 64 word \<Rightarrow> Store \<Rightarrow> iface list \<Rightarrow> (Store \<times> unit res) go" where
  "st_MSet now mem s pairs =
     (if odd (length pairs) then Some (s, Inl (ErrMsg ''wrong number of arguments''))
      else msetLoop now mem s pairs)"

subsection \<open>Keys\<close>

fun delLoop :: "Store \<Rightarrow> string list \<Rightarrow> (Store \<times> int) go" where
  "delLoop s [] = Some (s, 0)"
| "delLoop s (key # keys) =
     do { (s1, a) \<leftarrow> cacheDelete s key;
          (s2, b) \<leftarrow> deleteObjectKey s1 key;
          (s3, n) \<leftarrow> delLoop s2 keys;
          Some (s3, (if a \<or> b then 1 else 0) + n) }"

definition st_Del :: "Store \<Rightarrow> string list \<Rightarrow> (Store \<times> int) go" where
  "st_Del s keys = delLoop (countDel s) keys"

definition existsKey :: "int \<Rightarrow> Store \<Rightarrow> string \<Rightarrow> (Store \<times> bool) go" where
  "existsKey now s key =
     do { (s1, a) \<leftarrow> cacheExists now s key;
          if a then Some (s1, True) else hasObjectKey now s1 key }"

fun st_Exists :: "int \<Rightarrow> Store \<Rightarrow> string list \<Rightarrow> (Store \<times> int) go" where
  "st_Exists now s [] = Some (s, 0)"
| "st_Exists now s (key # keys) =
     do { (s1, a) \<leftarrow> existsKey now s key;
          (s2, n) \<leftarrow> st_Exists now s1 keys;
          Some (s2, (if a then 1 else 0) + n) }"

definition containsKey :: "string list \<Rightarrow> string \<Rightarrow> bool" where
  "containsKey keys target = (target \<in> set keys)"

definition st_Keys :: "int \<Rightarrow> Store \<Rightarrow> string \<Rightarrow> string list go" where
  "st_Keys now s pattern =
     do { keys \<leftarrow> sc_Keys now (st_cache s) pattern;
          Some (fold (\<lambda>key keys. if containsKey keys key then keys else keys @ [key])
                 (dict_Keys now (st_objects s) pattern) keys) }"

definition st_TTL :: "int \<Rightarrow> Store \<Rightarrow> string \<Rightarrow> (Store \<times> int) go" where
  "st_TTL now s key =
     do { (ttl, ok) \<leftarrow> sc_TTL now (st_cache s) key;
          if ok then Some (s, ttl)
          else do { (d, ttl', ok') \<leftarrow> dict_TTL now (st_objects s) key;
                    Some (s\<lparr> st_objects := d \<rparr>, if ok' then ttl' else - 2000000000) } }"

definition ttlOrZero :: "int \<Rightarrow> Store \<Rightarrow> string \<Rightarrow> (Store \<times> int) go" where
  "ttlOrZero now s key = do { (s', ttl) \<leftarrow> st_TTL now s key; Some (s', if ttl < 0 then 0 else ttl) }"

definition st_GetEntry :: "int \<Rightarrow> Store \<Rightarrow> string \<Rightarrow> (Store \<times> EngineEntry res) go" where
  "st_GetEntry now s key =
     do { (s1, r) \<leftarrow> cacheGet now s key;
          case r of
            Some val \<Rightarrow>
              do { (ttl, ok) \<leftarrow> sc_TTL now (st_cache s1) key;
                   Some (s1, Inr \<lparr> ee_Key = key, ee_Value = VBytes val, ee_Type = TypeString,
                                   ee_ExpireAt = (if ok \<and> ttl > 0 then Some (now + ttl) else None),
                                   ee_CreatedAt = None, ee_UpdatedAt = None \<rparr>) }
          | None \<Rightarrow>
              do { (s2, ob) \<leftarrow> getObjectValue now s1 key;
                   Some (s2, case ob of
                               None \<Rightarrow> Inl ErrKeyNotFound
                             | Some (tv, e) \<Rightarrow>
                                 Inr \<lparr> ee_Key = key, ee_Value = tv_Value tv, ee_Type = tv_Type tv,
                                       ee_ExpireAt = (if en_expireAt e > 0 then Some (en_expireAt e) else None),
                                       ee_CreatedAt = None, ee_UpdatedAt = None \<rparr>) } }"

definition st_RestoreEntry ::
    "Json \<Rightarrow> int \<Rightarrow> 64 word \<Rightarrow> Store \<Rightarrow> string \<Rightarrow> ValueType \<Rightarrow> string \<Rightarrow> int \<Rightarrow> (Store \<times> unit res) go" where
  "st_RestoreEntry J now mem s key valueType payload ttl =
     (case DecodeSerializedValue J valueType payload of
        Inl e \<Rightarrow> Some (s, Inl e)
      | Inr decoded \<Rightarrow>
          do { (s1, _) \<leftarrow> cacheDelete s key;
               (s2, _) \<leftarrow> deleteObjectKey s1 key;
               if valueType = TypeString then
                 (case decoded of
                    VStr val \<Rightarrow>
                      do { s3 \<leftarrow> removeObjectKey s2 key;
                           s4 \<leftarrow> evictFirst now mem s3;
                           cacheSet now s4 key val ttl }
                  | _ \<Rightarrow> Some (s2, Inl (ErrMsg (''decoded string payload has type '' @ typeName decoded))))
               else do { s3 \<leftarrow> newObject now s2 key valueType decoded ttl; Some (s3, Inr ()) } })"

definition st_Type :: "int \<Rightarrow> Store \<Rightarrow> string \<Rightarrow> (Store \<times> string) go" where
  "st_Type now s key =
     do { (sc, r) \<leftarrow> sc_Get now (st_cache s) key;
          let s1 = s\<lparr> st_cache := sc \<rparr>;
          case r of
            Some _ \<Rightarrow> Some (s1, ''string'')
          | None \<Rightarrow>
              do { (s2, ob) \<leftarrow> getObjectValue now s1 key;
                   Some (s2, case ob of
                               None \<Rightarrow> ''none''
                             | Some (tv, _) \<Rightarrow>
                                 if tv_Type tv = TypeHash then ''hash''
                                 else if tv_Type tv = TypeList then ''list''
                                 else if tv_Type tv = TypeSet then ''set''
                                 else if tv_Type tv = TypeZSet then ''zset''
                                 else ''none'') } }"

definition st_Rename :: "int \<Rightarrow> Store \<Rightarrow> string \<Rightarrow> string \<Rightarrow> (Store \<times> unit res) go" where
  "st_Rename now s key newkey =
     do { (s1, r) \<leftarrow> cacheGet now s key;
          case r of
            Some val \<Rightarrow>
              do { (s2, ttl) \<leftarrow> ttlOrZero now s1 key;
                   (s3, _) \<leftarrow> cacheDelete s2 key;
                   (s4, _) \<leftarrow> deleteObjectKey s3 newkey;
                   cacheSet now s4 newkey val ttl }
          | None \<Rightarrow>
              do { (s2, ob) \<leftarrow> getObjectValue now s1 key;
                   case ob of
                     None \<Rightarrow> Some (s2, Inl ErrKeyNotFound)
                   | Some (_, e) \<Rightarrow>
                       do { (s3, _) \<leftarrow> deleteObjectKey s2 key;
                            (s4, _) \<leftarrow> cacheDelete s3 newkey;
                            d \<leftarrow> dict_SetEntry (st_objects s4) newkey e;
                            Some (trackKey (s4\<lparr> st_objects := d \<rparr>) newkey, Inr ()) } } }"

definition st_Expire :: "int \<Rightarrow> Store \<Rightarrow> string \<Rightarrow> int \<Rightarrow> (Store \<times> bool) go" where
  "st_Expire now s key ttl =
     do { (sc, a) \<leftarrow> sc_Expire now (st_cache s) key ttl;
          let s1 = s\<lparr> st_cache := sc \<rparr>;
          if a then Some (s1, True)
          else do { (d, b) \<leftarrow> dict_Expire now (st_objects s1) key ttl;
                    Some (s1\<lparr> st_objects := d \<rparr>, b) } }"

text \<open>\<^verbatim>\<open>ExpireAt\<close>; \<open>t\<close> is the point in time in nanoseconds. \<^verbatim>\<open>time.Until\<close> saturates at the bounds of a duration.\<close>

definition st_ExpireAt :: "int \<Rightarrow> Store \<Rightarrow> string \<Rightarrow> int \<Rightarrow> (Store \<times> bool) go" where
  "st_ExpireAt now s key t =
     (let ttl = max (- (2 ^ 63)) (min (2 ^ 63 - 1) (t - now))
      in if ttl < 0 then
           do { (s1, a) \<leftarrow> cacheDelete s key;
                (s2, b) \<leftarrow> deleteObjectKey s1 key;
                Some (s2, a \<or> b) }
         else st_Expire now s key ttl)"

definition st_Persist :: "int \<Rightarrow> Store \<Rightarrow> string \<Rightarrow> (Store \<times> bool) go" where
  "st_Persist now s key = st_Expire now s key 0"

definition st_DBSize :: "Store \<Rightarrow> int" where
  "st_DBSize s = sc_Len (st_cache s) + dict_Len (st_objects s)"

definition st_FlushDB :: "Store \<Rightarrow> Store" where
  "st_FlushDB s = s\<lparr> st_cache := sc_Clear (st_cache s), st_objects := dict_Clear (st_objects s) \<rparr>"

subsection \<open>Scanning\<close>

definition scanPhaseFlag :: "64 word" where "scanPhaseFlag = push_bit 63 1"

definition liveKeys :: "int \<Rightarrow> typedValue Shard \<Rightarrow> string list go" where
  "liveKeys now items = Some (map fst (filter (\<lambda>(k, e). \<not> IsExpired now e) items))"

text \<open>The loop over the dictionary shards is the loop of the cache, over other shards.\<close>

definition scanDictKeys :: "int \<Rightarrow> Store \<Rightarrow> string \<Rightarrow> int \<Rightarrow> 64 word \<Rightarrow> (string list \<times> 64 word) go" where
  "scanDictKeys now s pattern cnt0 cursor =
     do { let cnt = (if cnt0 \<le> 0 then 10 else nat cnt0);
          (result, next_pos) \<leftarrow>
            scanLoop (liveKeys now) pattern cnt (drop (cursorShard cursor) (d_shards (st_objects s)))
              (cursorShard cursor) (cursorPos cursor) [];
          Some (result, case next_pos of None \<Rightarrow> 0 | Some p \<Rightarrow> makeCursor p) }"

definition st_Scan :: "int \<Rightarrow> Store \<Rightarrow> 64 word \<Rightarrow> string \<Rightarrow> int \<Rightarrow> (string list \<times> 64 word) go" where
  "st_Scan now s cursor pattern0 cnt0 =
     do { let cnt = (if cnt0 \<le> 0 then 10 else cnt0);
          let pattern = (if pattern0 = ''*'' then [] else pattern0);
          let innerCursor = cursor AND NOT scanPhaseFlag;
          if cursor AND scanPhaseFlag = 0 then
            do { (keys, nextInner) \<leftarrow> sc_Scan now (st_cache s) innerCursor pattern cnt;
                 if int (length keys) \<ge> cnt then Some (keys, nextInner)
                 else if nextInner \<noteq> 0 then Some (keys, nextInner)
                 else do {
                   (dictKeys, nextDict) \<leftarrow> scanDictKeys now s pattern (cnt - int (length keys)) 0;
                   Some (keys @ dictKeys, if nextDict \<noteq> 0 then nextDict OR scanPhaseFlag else 0) } }
          else
            do { (dictKeys, nextInner) \<leftarrow>
                   scanDictKeys now s (if pattern = [] then ''*'' else pattern) cnt innerCursor;
                 Some (dictKeys, if nextInner \<noteq> 0 then nextInner OR scanPhaseFlag else 0) } }"

definition st_SetSlotFunc :: "Store \<Rightarrow> (string \<Rightarrow> 16 word) \<Rightarrow> Store" where
  "st_SetSlotFunc s fn = s\<lparr> st_cache := SetSlotFunc (st_cache s) fn \<rparr>"

fun slotKeysLoop :: "int \<Rightarrow> Store \<Rightarrow> int \<Rightarrow> string list \<Rightarrow> string list \<Rightarrow> (Store \<times> string list) go" where
  "slotKeysLoop now s cnt [] result = Some (s, result)"
| "slotKeysLoop now s cnt (key # keys) result =
     (if cnt > 0 \<and> int (length result) \<ge> cnt then Some (s, result)
      else do { (s1, ok) \<leftarrow> existsKey now s key;
                slotKeysLoop now s1 cnt keys (if ok then result @ [key] else result) })"

definition st_KeysInSlot :: "int \<Rightarrow> Store \<Rightarrow> 16 word \<Rightarrow> int \<Rightarrow> (Store \<times> string list) go" where
  "st_KeysInSlot now s slot cnt =
     (case mget (sc_slotIndex (st_cache s)) slot of
        None \<Rightarrow> Some (s, [])
      | Some keySet \<Rightarrow>
          if keySet = [] then Some (s, [])
          else slotKeysLoop now s cnt (sort (mkeys keySet)) [])"

definition st_CountKeysInSlot :: "int \<Rightarrow> Store \<Rightarrow> 16 word \<Rightarrow> (Store \<times> int) go" where
  "st_CountKeysInSlot now s slot =
     do { (s', keys) \<leftarrow> st_KeysInSlot now s slot 0; Some (s', int (length keys)) }"

section \<open>Active expiry\<close>

definition expireScanCount :: int where "expireScanCount = 20"

text \<open>One pass over a sample of the cache, and over a sample of the objects. \<open>4 * expired < len\<close> is the
  test of the ratio against the threshold 0.25, which is exact for samples of at most 20 keys.\<close>

fun expireCacheKeys :: "int \<Rightarrow> ShardedCache \<Rightarrow> string list \<Rightarrow> (ShardedCache \<times> nat) go" where
  "expireCacheKeys now sc [] = Some (sc, 0)"
| "expireCacheKeys now sc (key # keys) =
     do { (ttl, ok) \<leftarrow> sc_TTL now sc key;
          if ok \<and> ttl \<noteq> -1 \<and> ttl \<le> 0
          then do { (sc1, _) \<leftarrow> sc_Delete sc key;
                    (sc2, n) \<leftarrow> expireCacheKeys now sc1 keys;
                    Some (sc2, n + 1) }
          else expireCacheKeys now sc keys }"

partial_function (option) expireCache :: "int \<Rightarrow> ShardedCache \<Rightarrow> ShardedCache option" where
  "expireCache now sc =
     do { keys \<leftarrow> sc_RandomKeys now sc expireScanCount;
          if keys = [] then Some sc
          else do { (sc1, expired) \<leftarrow> expireCacheKeys now sc keys;
                    if 4 * expired < length keys then Some sc1 else expireCache now sc1 } }"

fun expireObjectKeys :: "int \<Rightarrow> Store \<Rightarrow> string list \<Rightarrow> (Store \<times> nat) go" where
  "expireObjectKeys now s [] = Some (s, 0)"
| "expireObjectKeys now s (key # keys) =
     do { (d, ttl, ok) \<leftarrow> dict_TTL now (st_objects s) key;
          let s1 = s\<lparr> st_objects := d \<rparr>;
          if ok \<and> ttl \<noteq> -1 \<and> ttl \<le> 0
          then do { (d1, n) \<leftarrow> dict_Del (st_objects s1) [key];
                    let s2 = s1\<lparr> st_objects := d1 \<rparr>;
                    if n > 0 then do { (s3, m) \<leftarrow> expireObjectKeys now (untrackKey s2 key) keys; Some (s3, m + 1) }
                    else expireObjectKeys now s2 keys }
          else expireObjectKeys now s1 keys }"

partial_function (option) expireObjects :: "int \<Rightarrow> Store \<Rightarrow> Store option" where
  "expireObjects now s =
     do { keys \<leftarrow> dict_RandomKeys (st_objects s) expireScanCount;
          if keys = [] then Some s
          else do { (s1, expired) \<leftarrow> expireObjectKeys now s keys;
                    if 4 * expired < length keys then Some s1 else expireObjects now s1 } }"

definition activeExpireCycle :: "int \<Rightarrow> Store \<Rightarrow> Store option" where
  "activeExpireCycle now s =
     do { sc \<leftarrow> expireCache now (st_cache s);
          expireObjects now (s\<lparr> st_cache := sc \<rparr>) }"

end
