(* ===== verification/Collections.thy ===== *)
theory Collections
  imports Store
begin

text \<open>
  The collection types of the in-memory engine: \<^verbatim>\<open>list.go\<close>, \<^verbatim>\<open>hash.go\<close>, \<^verbatim>\<open>set.go\<close> and \<^verbatim>\<open>zset.go\<close> in
  \<^verbatim>\<open>internal/engine/memory\<close>. Go updates the map of a collection in place, also when the call then
  returns an error; the loops below return the updated map with their result.
\<close>

section \<open>Reading a typed object\<close>

text \<open>The checks every read starts with: a string under the key, and the type of the object.
  \<open>getHashValue\<close> is the preamble that the hash operations repeat; its type assertion panics.\<close>

definition getTyped :: "int \<Rightarrow> Store \<Rightarrow> string \<Rightarrow> ValueType \<Rightarrow> (Store \<times> Value res) go" where
  "getTyped now s key t =
     do { (s1, ex) \<leftarrow> cacheExists now s key;
          if ex then Some (s1, Inl ErrWrongType)
          else do { (s2, ob) \<leftarrow> getObjectValue now s1 key;
                    Some (s2, case ob of
                                None \<Rightarrow> Inl ErrKeyNotFound
                              | Some (tv, _) \<Rightarrow> if tv_Type tv \<noteq> t then Inl ErrWrongType else Inr (tv_Value tv)) } }"

definition getListValue :: "int \<Rightarrow> Store \<Rightarrow> string \<Rightarrow> (Store \<times> string list res) go" where
  "getListValue now s key =
     do { (s1, r) \<leftarrow> getTyped now s key TypeList;
          Some (s1, case r of Inl e \<Rightarrow> Inl e | Inr (VList xs) \<Rightarrow> Inr xs | Inr _ \<Rightarrow> Inl ErrWrongType) }"

definition getSetValue :: "int \<Rightarrow> Store \<Rightarrow> string \<Rightarrow> (Store \<times> (string, unit) gomap res) go" where
  "getSetValue now s key =
     do { (s1, r) \<leftarrow> getTyped now s key TypeSet;
          Some (s1, case r of Inl e \<Rightarrow> Inl e | Inr (VSet m) \<Rightarrow> Inr m | Inr _ \<Rightarrow> Inl ErrWrongType) }"

definition getZSetValue :: "int \<Rightarrow> Store \<Rightarrow> string \<Rightarrow> (Store \<times> (string, float64) gomap res) go" where
  "getZSetValue now s key =
     do { (s1, r) \<leftarrow> getTyped now s key TypeZSet;
          Some (s1, case r of Inl e \<Rightarrow> Inl e | Inr (VZSet m) \<Rightarrow> Inr m | Inr _ \<Rightarrow> Inl ErrWrongType) }"

definition getHashValue :: "int \<Rightarrow> Store \<Rightarrow> string \<Rightarrow> (Store \<times> (string, string) gomap option res) go" where
  "getHashValue now s key =
     do { (s1, r) \<leftarrow> getTyped now s key TypeHash;
          case r of
            Inl e \<Rightarrow> Some (s1, Inl e)
          | Inr (VHash m) \<Rightarrow> Some (s1, Inr m)
          | Inr _ \<Rightarrow> None }"

text \<open>Reading a nil map is reading an empty one.\<close>

definition hashMap :: "(string, string) gomap option \<Rightarrow> (string, string) gomap" where
  "hashMap m = (case m of None \<Rightarrow> [] | Some m' \<Rightarrow> m')"

text \<open>A read that returns \<open>z\<close> for a missing key.\<close>

definition orMissing :: "'a \<Rightarrow> 'a res \<Rightarrow> 'a res" where
  "orMissing z r = (if r = Inl ErrKeyNotFound then Inr z else r)"

section \<open>Lists\<close>

definition normalizeIndex :: "nat \<Rightarrow> int \<Rightarrow> nat option" where
  "normalizeIndex len index0 =
     (if len = 0 then None
      else let index = (if index0 < 0 then int len + index0 else index0)
           in if index < 0 \<or> index \<ge> int len then None else Some (nat index))"

definition normalizeRange :: "nat \<Rightarrow> int \<Rightarrow> int \<Rightarrow> (nat \<times> nat) option" where
  "normalizeRange len start0 stop0 =
     (if len = 0 then None
      else let start1 = (if start0 < 0 then int len + start0 else start0);
               stop1 = (if stop0 < 0 then int len + stop0 else stop0);
               start = (if start1 < 0 then 0 else start1);
               stop = (if stop1 \<ge> int len then int len - 1 else stop1)
           in if start > stop \<or> start \<ge> int len then None else Some (nat start, nat stop))"

text \<open>\<^verbatim>\<open>list[start : stop+1]\<close> for a normalised range.\<close>

definition subrange :: "'a list \<Rightarrow> nat \<times> nat \<Rightarrow> 'a list" where
  "subrange xs r = take (snd r + 1 - fst r) (drop (fst r) xs)"

definition rangeOf :: "'a list \<Rightarrow> int \<Rightarrow> int \<Rightarrow> 'a list" where
  "rangeOf xs start stop =
     (case normalizeRange (length xs) start stop of None \<Rightarrow> [] | Some r \<Rightarrow> subrange xs r)"

fun stringArgs :: "iface list \<Rightarrow> string list option" where
  "stringArgs [] = Some []"
| "stringArgs (IStr x # vs) = map_option (Cons x) (stringArgs vs)"
| "stringArgs (IOther _ # vs) = None"

text \<open>A new list is stored before the arguments are checked.\<close>

definition pushList :: "int \<Rightarrow> Store \<Rightarrow> string \<Rightarrow> bool \<Rightarrow> iface list \<Rightarrow> (Store \<times> int res) go" where
  "pushList now s key left vals =
     (if vals = [] then Some (s, Inl ErrInvalidArgs)
      else do {
        (s1, r) \<leftarrow> getListValue now s key;
        (s2, r2) \<leftarrow>
          (case r of
             Inr xs \<Rightarrow> Some (s1, Inr xs)
           | Inl e \<Rightarrow> if e = ErrKeyNotFound
                      then do { s2 \<leftarrow> newObject now s1 key TypeList (VList []) 0; Some (s2, Inr []) }
                      else Some (s1, Inl e));
        case r2 of
          Inl e \<Rightarrow> Some (s2, Inl e)
        | Inr xs \<Rightarrow>
            (case stringArgs vals of
               None \<Rightarrow> Some (s2, Inl ErrInvalidArgs)
             | Some items \<Rightarrow>
                 do { let xs' = (if left then fold Cons items xs else xs @ items);
                      s3 \<leftarrow> setObject s2 key (VList xs');
                      Some (s3, Inr (int (length xs'))) }) })"

definition st_LPush :: "int \<Rightarrow> Store \<Rightarrow> string \<Rightarrow> iface list \<Rightarrow> (Store \<times> int res) go" where
  "st_LPush now s key vals = pushList now s key True vals"

definition st_RPush :: "int \<Rightarrow> Store \<Rightarrow> string \<Rightarrow> iface list \<Rightarrow> (Store \<times> int res) go" where
  "st_RPush now s key vals = pushList now s key False vals"

definition popList :: "int \<Rightarrow> Store \<Rightarrow> string \<Rightarrow> bool \<Rightarrow> (Store \<times> string res) go" where
  "popList now s key left =
     do { (s1, r) \<leftarrow> getListValue now s key;
          case r of
            Inl e \<Rightarrow> Some (s1, Inl e)
          | Inr xs \<Rightarrow>
              if xs = [] then Some (s1, Inl ErrKeyNotFound)
              else do {
                let val = (if left then hd xs else last xs);
                let rest = (if left then tl xs else butlast xs);
                s2 \<leftarrow> (if rest = [] then removeObjectKey s1 key else setObject s1 key (VList rest));
                Some (s2, Inr val) } }"

definition st_LPop :: "int \<Rightarrow> Store \<Rightarrow> string \<Rightarrow> (Store \<times> string res) go" where
  "st_LPop now s key = popList now s key True"

definition st_RPop :: "int \<Rightarrow> Store \<Rightarrow> string \<Rightarrow> (Store \<times> string res) go" where
  "st_RPop now s key = popList now s key False"

definition st_LRange :: "int \<Rightarrow> Store \<Rightarrow> string \<Rightarrow> int \<Rightarrow> int \<Rightarrow> (Store \<times> string list res) go" where
  "st_LRange now s key start stop =
     do { (s1, r) \<leftarrow> getListValue now s key;
          Some (s1, orMissing [] (map_sum id (\<lambda>xs. rangeOf xs start stop) r)) }"

definition st_LLen :: "int \<Rightarrow> Store \<Rightarrow> string \<Rightarrow> (Store \<times> int res) go" where
  "st_LLen now s key =
     do { (s1, r) \<leftarrow> getListValue now s key;
          Some (s1, orMissing 0 (map_sum id (\<lambda>xs. int (length xs)) r)) }"

definition st_LIndex :: "int \<Rightarrow> Store \<Rightarrow> string \<Rightarrow> int \<Rightarrow> (Store \<times> string res) go" where
  "st_LIndex now s key index =
     do { (s1, r) \<leftarrow> getListValue now s key;
          Some (s1, case r of
                      Inl e \<Rightarrow> Inl e
                    | Inr xs \<Rightarrow> (case normalizeIndex (length xs) index of
                                   None \<Rightarrow> Inl ErrKeyNotFound
                                 | Some i \<Rightarrow> Inr (xs ! i))) }"

definition st_LSet :: "int \<Rightarrow> Store \<Rightarrow> string \<Rightarrow> int \<Rightarrow> string \<Rightarrow> (Store \<times> unit res) go" where
  "st_LSet now s key index val =
     do { (s1, r) \<leftarrow> getListValue now s key;
          case r of
            Inl e \<Rightarrow> Some (s1, Inl e)
          | Inr xs \<Rightarrow>
              (case normalizeIndex (length xs) index of
                 None \<Rightarrow> Some (s1, Inl ErrKeyNotFound)
               | Some i \<Rightarrow> do { s2 \<leftarrow> setObject s1 key (VList (xs[i := val])); Some (s2, Inr ()) }) }"

definition st_LTrim :: "int \<Rightarrow> Store \<Rightarrow> string \<Rightarrow> int \<Rightarrow> int \<Rightarrow> (Store \<times> unit res) go" where
  "st_LTrim now s key start stop =
     do { (s1, r) \<leftarrow> getListValue now s key;
          case r of
            Inl e \<Rightarrow> Some (s1, if e = ErrKeyNotFound then Inr () else Inl e)
          | Inr xs \<Rightarrow>
              do { s2 \<leftarrow> (case normalizeRange (length xs) start stop of
                           None \<Rightarrow> removeObjectKey s1 key
                         | Some rg \<Rightarrow> setObject s1 key (VList (subrange xs rg)));
                   Some (s2, Inr ()) } }"

section \<open>Hashes\<close>

text \<open>The loop over the pairs; writing to a nil map panics.\<close>

fun hsetLoop :: "(string, string) gomap option \<Rightarrow> iface list \<Rightarrow> int \<Rightarrow>
    ((string, string) gomap option \<times> int res) go" where
  "hsetLoop h (IStr field # IStr val # pairs) added =
     (case h of
        None \<Rightarrow> None
      | Some m \<Rightarrow> hsetLoop (Some (mput field val m)) pairs (if mget m field = None then added + 1 else added))"
| "hsetLoop h (_ # _ # pairs) added = Some (h, Inl ErrInvalidArgs)"
| "hsetLoop h _ added = Some (h, Inr added)"

definition st_HSet :: "int \<Rightarrow> Store \<Rightarrow> string \<Rightarrow> iface list \<Rightarrow> (Store \<times> int res) go" where
  "st_HSet now s key pairs =
     (if pairs = [] \<or> odd (length pairs) then Some (s, Inl ErrInvalidArgs)
      else do {
        (s1, r) \<leftarrow> getHashValue now s key;
        (s2, r2) \<leftarrow>
          (case r of
             Inr h \<Rightarrow> Some (s1, Inr h)
           | Inl e \<Rightarrow> if e = ErrKeyNotFound
                      then do { s2 \<leftarrow> newObject now s1 key TypeHash (VHash (Some [])) 0; Some (s2, Inr (Some [])) }
                      else Some (s1, Inl e));
        case r2 of
          Inl e \<Rightarrow> Some (s2, Inl e)
        | Inr h \<Rightarrow>
            do { (h', res) \<leftarrow> hsetLoop h pairs 0;
                 s3 \<leftarrow> setObject s2 key (VHash h');
                 Some (s3, res) } })"

definition st_HGet :: "int \<Rightarrow> Store \<Rightarrow> string \<Rightarrow> string \<Rightarrow> (Store \<times> string res) go" where
  "st_HGet now s key field =
     do { (s1, r) \<leftarrow> getHashValue now s key;
          Some (s1, case r of
                      Inl e \<Rightarrow> Inl e
                    | Inr h \<Rightarrow> (case mget (hashMap h) field of None \<Rightarrow> Inl ErrKeyNotFound | Some v \<Rightarrow> Inr v)) }"

text \<open>The deletion loop of \<open>HDel\<close>, \<open>SRem\<close> and \<open>ZRem\<close>.\<close>

fun remLoop :: "('k, 'v) gomap \<Rightarrow> 'k list \<Rightarrow> int \<Rightarrow> ('k, 'v) gomap \<times> int" where
  "remLoop m [] n = (m, n)"
| "remLoop m (k # ks) n = (if mget m k \<noteq> None then remLoop (mdel k m) ks (n + 1) else remLoop m ks n)"

definition st_HDel :: "int \<Rightarrow> Store \<Rightarrow> string \<Rightarrow> string list \<Rightarrow> (Store \<times> int res) go" where
  "st_HDel now s key flds =
     do { (s1, r) \<leftarrow> getHashValue now s key;
          case r of
            Inl e \<Rightarrow> Some (s1, if e = ErrKeyNotFound then Inr 0 else Inl e)
          | Inr h \<Rightarrow>
              do { let (m, deleted) = remLoop (hashMap h) flds 0;
                   s2 \<leftarrow> (if m = [] then removeObjectKey s1 key
                         else setObject s1 key (VHash (map_option (\<lambda>_. m) h)));
                   Some (s2, Inr deleted) } }"

definition st_HExists :: "int \<Rightarrow> Store \<Rightarrow> string \<Rightarrow> string \<Rightarrow> (Store \<times> bool res) go" where
  "st_HExists now s key field =
     do { (s1, r) \<leftarrow> getHashValue now s key;
          Some (s1, orMissing False (map_sum id (\<lambda>h. mget (hashMap h) field \<noteq> None) r)) }"

definition st_HGetAll :: "int \<Rightarrow> Store \<Rightarrow> string \<Rightarrow> (Store \<times> (string, string) gomap res) go" where
  "st_HGetAll now s key =
     do { (s1, r) \<leftarrow> getHashValue now s key;
          Some (s1, orMissing [] (map_sum id hashMap r)) }"

definition st_HKeys :: "int \<Rightarrow> Store \<Rightarrow> string \<Rightarrow> (Store \<times> string list res) go" where
  "st_HKeys now s key =
     do { (s1, r) \<leftarrow> st_HGetAll now s key; Some (s1, map_sum id (\<lambda>m. sort (mkeys m)) r) }"

definition st_HVals :: "int \<Rightarrow> Store \<Rightarrow> string \<Rightarrow> (Store \<times> string list res) go" where
  "st_HVals now s key =
     do { (s1, r) \<leftarrow> st_HGetAll now s key;
          Some (s1, map_sum id (\<lambda>m. map (\<lambda>field. case mget m field of None \<Rightarrow> [] | Some v \<Rightarrow> v) (sort (mkeys m))) r) }"

definition st_HLen :: "int \<Rightarrow> Store \<Rightarrow> string \<Rightarrow> (Store \<times> int res) go" where
  "st_HLen now s key =
     do { (s1, r) \<leftarrow> getHashValue now s key;
          Some (s1, orMissing 0 (map_sum id (\<lambda>h. int (length (hashMap h))) r)) }"

section \<open>Sets\<close>

text \<open>A member that is not a string ends the loop; what was added before stays.\<close>

fun saddLoop :: "(string, unit) gomap \<Rightarrow> iface list \<Rightarrow> int \<Rightarrow> (string, unit) gomap \<times> int res" where
  "saddLoop m [] added = (m, Inr added)"
| "saddLoop m (IStr x # vs) added =
     (if mget m x = None then saddLoop (mput x () m) vs (added + 1) else saddLoop m vs added)"
| "saddLoop m (IOther _ # vs) added = (m, Inl ErrInvalidArgs)"

fun sremLoop :: "(string, unit) gomap \<Rightarrow> iface list \<Rightarrow> int \<Rightarrow> (string, unit) gomap \<times> int res" where
  "sremLoop m [] removed = (m, Inr removed)"
| "sremLoop m (IStr x # vs) removed =
     (if mget m x \<noteq> None then sremLoop (mdel x m) vs (removed + 1) else sremLoop m vs removed)"
| "sremLoop m (IOther _ # vs) removed = (m, Inl ErrInvalidArgs)"

definition st_SAdd :: "int \<Rightarrow> Store \<Rightarrow> string \<Rightarrow> iface list \<Rightarrow> (Store \<times> int res) go" where
  "st_SAdd now s key members =
     (if members = [] then Some (s, Inl ErrInvalidArgs)
      else do {
        (s1, r) \<leftarrow> getSetValue now s key;
        (s2, r2) \<leftarrow>
          (case r of
             Inr m \<Rightarrow> Some (s1, Inr m)
           | Inl e \<Rightarrow> if e = ErrKeyNotFound
                      then do { s2 \<leftarrow> newObject now s1 key TypeSet (VSet []) 0; Some (s2, Inr []) }
                      else Some (s1, Inl e));
        case r2 of
          Inl e \<Rightarrow> Some (s2, Inl e)
        | Inr m \<Rightarrow>
            do { let (m', res) = saddLoop m members 0;
                 s3 \<leftarrow> setObject s2 key (VSet m');
                 Some (s3, res) } })"

text \<open>\<open>SRem\<close> removes an emptied set only when every member was a string.\<close>

definition st_SRem :: "int \<Rightarrow> Store \<Rightarrow> string \<Rightarrow> iface list \<Rightarrow> (Store \<times> int res) go" where
  "st_SRem now s key members =
     do { (s1, r) \<leftarrow> getSetValue now s key;
          case r of
            Inl e \<Rightarrow> Some (s1, if e = ErrKeyNotFound then Inr 0 else Inl e)
          | Inr m \<Rightarrow>
              do { let (m', res) = sremLoop m members 0;
                   s2 \<leftarrow> (if m' = [] \<and> \<not> isl res then removeObjectKey s1 key
                         else setObject s1 key (VSet m'));
                   Some (s2, res) } }"

definition st_SMembers :: "int \<Rightarrow> Store \<Rightarrow> string \<Rightarrow> (Store \<times> string list res) go" where
  "st_SMembers now s key =
     do { (s1, r) \<leftarrow> getSetValue now s key;
          Some (s1, orMissing [] (map_sum id (\<lambda>m. sort (mkeys m)) r)) }"

definition st_SIsMember :: "int \<Rightarrow> Store \<Rightarrow> string \<Rightarrow> string \<Rightarrow> (Store \<times> bool res) go" where
  "st_SIsMember now s key member =
     do { (s1, r) \<leftarrow> getSetValue now s key;
          Some (s1, orMissing False (map_sum id (\<lambda>m. mget m member \<noteq> None) r)) }"

definition st_SCard :: "int \<Rightarrow> Store \<Rightarrow> string \<Rightarrow> (Store \<times> int res) go" where
  "st_SCard now s key =
     do { (s1, r) \<leftarrow> getSetValue now s key;
          Some (s1, orMissing 0 (map_sum id (\<lambda>m. int (length m)) r)) }"

definition st_SPop :: "Store \<Rightarrow> string \<Rightarrow> (Store \<times> string res) go" where
  "st_SPop s key = Some (s, Inl ErrKeyNotFound)"

definition st_SRandMember :: "Store \<Rightarrow> string \<Rightarrow> int \<Rightarrow> (Store \<times> string list res) go" where
  "st_SRandMember s key cnt = Some (s, Inl ErrNotSupported)"

definition st_SUnion :: "Store \<Rightarrow> string list \<Rightarrow> (Store \<times> string list res) go" where
  "st_SUnion s keys = Some (s, Inl ErrNotSupported)"

definition st_SInter :: "Store \<Rightarrow> string list \<Rightarrow> (Store \<times> string list res) go" where
  "st_SInter s keys = Some (s, Inl ErrNotSupported)"

definition st_SDiff :: "Store \<Rightarrow> string list \<Rightarrow> (Store \<times> string list res) go" where
  "st_SDiff s keys = Some (s, Inl ErrNotSupported)"

section \<open>Sorted sets\<close>

fun zaddLoop :: "(string, float64) gomap \<Rightarrow> ZMember list \<Rightarrow> int \<Rightarrow> (string, float64) gomap \<times> int" where
  "zaddLoop m [] added = (m, added)"
| "zaddLoop m (z # zs) added =
     zaddLoop (mput (zm_Member z) (zm_Score z) m) zs (if mget m (zm_Member z) = None then added + 1 else added)"

definition openZSet :: "int \<Rightarrow> Store \<Rightarrow> string \<Rightarrow> (Store \<times> (string, float64) gomap res) go" where
  "openZSet now s key =
     do { (s1, r) \<leftarrow> getZSetValue now s key;
          case r of
            Inr m \<Rightarrow> Some (s1, Inr m)
          | Inl e \<Rightarrow> if e = ErrKeyNotFound
                     then do { s2 \<leftarrow> newObject now s1 key TypeZSet (VZSet []) 0; Some (s2, Inr []) }
                     else Some (s1, Inl e) }"

definition st_ZAdd :: "int \<Rightarrow> Store \<Rightarrow> string \<Rightarrow> ZMember list \<Rightarrow> (Store \<times> int res) go" where
  "st_ZAdd now s key members =
     (if members = [] then Some (s, Inl ErrInvalidArgs)
      else do {
        (s2, r) \<leftarrow> openZSet now s key;
        case r of
          Inl e \<Rightarrow> Some (s2, Inl e)
        | Inr m \<Rightarrow>
            do { let (m', added) = zaddLoop m members 0;
                 s3 \<leftarrow> setObject s2 key (VZSet m');
                 Some (s3, Inr added) } })"

definition st_ZRem :: "int \<Rightarrow> Store \<Rightarrow> string \<Rightarrow> string list \<Rightarrow> (Store \<times> int res) go" where
  "st_ZRem now s key members =
     do { (s1, r) \<leftarrow> getZSetValue now s key;
          case r of
            Inl e \<Rightarrow> Some (s1, if e = ErrKeyNotFound then Inr 0 else Inl e)
          | Inr m \<Rightarrow>
              do { let (m', removed) = remLoop m members 0;
                   s2 \<leftarrow> (if m' = [] then removeObjectKey s1 key else setObject s1 key (VZSet m'));
                   Some (s2, Inr removed) } }"

definition sortedZMembers :: "int \<Rightarrow> Store \<Rightarrow> string \<Rightarrow> (Store \<times> ZMember list res) go" where
  "sortedZMembers now s key =
     do { (s1, r) \<leftarrow> getZSetValue now s key;
          Some (s1, map_sum id (\<lambda>m. sort_Slice zless (zmembers m)) r) }"

definition st_ZRange :: "int \<Rightarrow> Store \<Rightarrow> string \<Rightarrow> int \<Rightarrow> int \<Rightarrow> (Store \<times> string list res) go" where
  "st_ZRange now s key start stop =
     do { (s1, r) \<leftarrow> sortedZMembers now s key;
          Some (s1, orMissing [] (map_sum id (\<lambda>zs. map zm_Member (rangeOf zs start stop)) r)) }"

definition st_ZRangeWithScores :: "int \<Rightarrow> Store \<Rightarrow> string \<Rightarrow> int \<Rightarrow> int \<Rightarrow> (Store \<times> ZMember list res) go" where
  "st_ZRangeWithScores now s key start stop =
     do { (s1, r) \<leftarrow> sortedZMembers now s key;
          Some (s1, orMissing [] (map_sum id (\<lambda>zs. rangeOf zs start stop) r)) }"

definition st_ZRevRange :: "int \<Rightarrow> Store \<Rightarrow> string \<Rightarrow> int \<Rightarrow> int \<Rightarrow> (Store \<times> string list res) go" where
  "st_ZRevRange now s key start stop =
     do { (s1, r) \<leftarrow> st_ZRangeWithScores now s key 0 (-1);
          Some (s1, map_sum id (\<lambda>zs. map zm_Member (rangeOf (rev zs) start stop)) r) }"

definition st_ZScore :: "int \<Rightarrow> Store \<Rightarrow> string \<Rightarrow> string \<Rightarrow> (Store \<times> float64 res) go" where
  "st_ZScore now s key member =
     do { (s1, r) \<leftarrow> getZSetValue now s key;
          Some (s1, case r of
                      Inl e \<Rightarrow> Inl e
                    | Inr m \<Rightarrow> (case mget m member of None \<Rightarrow> Inl ErrKeyNotFound | Some x \<Rightarrow> Inr x)) }"

fun zrankLoop :: "string \<Rightarrow> int \<Rightarrow> ZMember list \<Rightarrow> int res" where
  "zrankLoop member idx [] = Inl ErrKeyNotFound"
| "zrankLoop member idx (z # zs) = (if zm_Member z = member then Inr idx else zrankLoop member (idx + 1) zs)"

definition st_ZRank :: "int \<Rightarrow> Store \<Rightarrow> string \<Rightarrow> string \<Rightarrow> (Store \<times> int res) go" where
  "st_ZRank now s key member =
     do { (s1, r) \<leftarrow> sortedZMembers now s key;
          Some (s1, case r of Inl e \<Rightarrow> Inl e | Inr zs \<Rightarrow> zrankLoop member 0 zs) }"

definition st_ZCard :: "int \<Rightarrow> Store \<Rightarrow> string \<Rightarrow> (Store \<times> int res) go" where
  "st_ZCard now s key =
     do { (s1, r) \<leftarrow> getZSetValue now s key;
          Some (s1, orMissing 0 (map_sum id (\<lambda>m. int (length m)) r)) }"

definition st_ZCount :: "int \<Rightarrow> Store \<Rightarrow> string \<Rightarrow> float64 \<Rightarrow> float64 \<Rightarrow> (Store \<times> int res) go" where
  "st_ZCount now s key mn mx =
     do { (s1, r) \<leftarrow> getZSetValue now s key;
          Some (s1, orMissing 0
            (map_sum id (\<lambda>m. int (length (filter (\<lambda>(_, score). fle mn score \<and> fle score mx) m))) r)) }"

text \<open>\<^verbatim>\<open>zset[member] += delta\<close>: a missing member counts as 0.\<close>

definition st_ZIncrBy ::
    "(rat \<Rightarrow> float64) \<Rightarrow> int \<Rightarrow> Store \<Rightarrow> string \<Rightarrow> string \<Rightarrow> float64 \<Rightarrow> (Store \<times> float64 res) go" where
  "st_ZIncrBy rnd now s key member delta =
     do { (s2, r) \<leftarrow> openZSet now s key;
          case r of
            Inl e \<Rightarrow> Some (s2, Inl e)
          | Inr m \<Rightarrow>
              do { let x = fadd rnd (case mget m member of None \<Rightarrow> Fin 0 | Some x \<Rightarrow> x) delta;
                   s3 \<leftarrow> setObject s2 key (VZSet (mput member x m));
                   Some (s3, Inr x) } }"

end
