(* ===== verification/ShardCacheProps.thy ===== *)
theory ShardCacheProps
  imports ShardCache
begin

text \<open>
  Correctness of the string cache (\<open>ShardCache\<close>): the words of the index, what \<open>recordAccess\<close> does, the
  invariant \<open>cache_inv\<close> and its preservation by every operation, and the round trips of \<open>Set\<close>, \<open>IncrBy\<close>
  and \<open>Get\<close>. \<open>cache_inv K\<close> holds for a set \<open>K\<close> of keys in use with distinct hashes.
\<close>

unbundle bit_operations_syntax

section \<open>Index words\<close>

lemma bit_inlineFlag: "bit inlineFlag n \<longleftrightarrow> n = 63"
  unfolding inlineFlag_def bit_push_bit_iff by (auto simp: bit_1_iff)

lemma isInlineInt_bit: "isInlineInt v \<longleftrightarrow> bit v 63"
  unfolding isInlineInt_def bit_eq_iff [of _ 0] bit_and_iff bit_inlineFlag by auto

lemma isInlineInt_iff: "isInlineInt v \<longleftrightarrow> sint v < 0"
proof -
  have "isInlineInt v \<longleftrightarrow> bit v 63"
    by (rule isInlineInt_bit)
  then show ?thesis using bit_last_iff [of v] by simp
qed

lemma offset_word:
  assumes "0 \<le> off" "off < 2 ^ 63"
  shows "sint (word_of_int off :: 64 word) = off" "\<not> isInlineInt (word_of_int off)"
proof -
  show "sint (word_of_int off :: 64 word) = off"
    using assms by (intro sint_word_of_int_64) (simp add: is_i64_def)
  with assms show "\<not> isInlineInt (word_of_int off)" by (simp add: isInlineInt_iff)
qed

lemma and_inlineMask: "w AND inlineMask = take_bit 63 w"
  by (rule bit_eqI)
    (auto simp: inlineMask_def bit_inlineFlag bit_and_iff bit_not_iff bit_take_bit_iff less_Suc_eq)

lemma decodeInlineInt_eq: "decodeInlineInt w = uint w mod 2 ^ 63"
proof -
  have u: "uint (take_bit 63 w) = uint w mod 2 ^ 63"
    by (subst unsigned_take_bit_eq) (simp only: take_bit_eq_mod)
  moreover have "sint (take_bit 63 w) = uint (take_bit 63 w)"
    using u pos_mod_bound [of "2 ^ 63" "uint w"] pos_mod_sign [of "2 ^ 63" "uint w"]
    by (subst sint_uint) (simp add: signed_take_bit_int_eq_self)
  ultimately show ?thesis by (simp add: decodeInlineInt_def and_inlineMask)
qed

lemma inline_encode [simp]: "isInlineInt (encodeInlineInt v)"
  by (simp add: isInlineInt_bit encodeInlineInt_def bit_or_iff bit_inlineFlag)

lemma decode_encode: "decodeInlineInt (encodeInlineInt v) = v mod 2 ^ 63"
proof -
  have "encodeInlineInt v AND inlineMask = word_of_int v AND inlineMask"
    by (rule bit_eqI)
      (auto simp: encodeInlineInt_def inlineMask_def bit_inlineFlag bit_and_iff bit_or_iff bit_not_iff)
  then have "decodeInlineInt (encodeInlineInt v) = decodeInlineInt (word_of_int v)"
    by (simp only: decodeInlineInt_def)
  also have "\<dots> = v mod 2 ^ 64 mod 2 ^ 63"
    by (simp only: decodeInlineInt_eq uint_word_of_int) simp
  also have "\<dots> = v mod 2 ^ 63"
    by (rule mod_mod_cancel) simp
  finally show ?thesis .
qed

section \<open>Access recording\<close>

lemma recordAccess_Some: "recordAccess sc shard hash = Some u \<Longrightarrow> sc_skipLFU sc"
  by (rule recordAccess.raw_induct [where P = "\<lambda>sc _ _ _. sc_skipLFU sc"]) (auto split: if_splits)

lemma recordAccess_eq [simp, code]:
  "recordAccess sc shard hash = (if sc_skipLFU sc then Some () else None)"
  using recordAccess_Some [of sc shard hash] recordAccess.simps [of sc shard hash]
  by (cases "recordAccess sc shard hash") auto

section \<open>The invariant\<close>

text \<open>
  \<open>shard_inv seed K\<close>: the index is a Go map, the ring buffer satisfies its invariant, and an offset
  in the index was given out to a key of \<open>K\<close> with that hash, whose bytes fit in the buffer there. \<open>K\<close>
  is the set of keys in use; the theorems assume that no two of them have the same hash.
\<close>

definition shard_inv :: "(string \<Rightarrow> 64 word) \<Rightarrow> string set \<Rightarrow> ZeroGCShard \<Rightarrow> bool" where
  "shard_inv seed K s \<longleftrightarrow>
     mwf (zs_index s) \<and> ring_inv (zs_ring s) \<and> rb_capacity (zs_ring s) < 2 ^ 63 \<and>
     (\<forall>h raw. mget (zs_index s) h = Some raw \<and> \<not> isInlineInt raw \<longrightarrow>
        (\<exists>k \<in> K. seed k = h \<and> sint raw + 24 + int (length k) \<le> rb_capacity (zs_ring s)))"

definition cache_inv :: "string set \<Rightarrow> ShardedCache \<Rightarrow> bool" where
  "cache_inv K sc \<longleftrightarrow>
     0 < unat (sc_shardCount sc) \<and> length (sc_shards sc) = unat (sc_shardCount sc) \<and>
     (\<forall>s \<in> set (sc_shards sc). shard_inv (sc_seed sc) K s) \<and> inj_on (sc_seed sc) K \<and> sc_skipLFU sc"

definition sc_idx :: "ShardedCache \<Rightarrow> string \<Rightarrow> nat" where
  "sc_idx sc key = unat (sc_hash sc key) mod unat (sc_shardCount sc)"

abbreviation sc_shard :: "ShardedCache \<Rightarrow> string \<Rightarrow> ZeroGCShard" where
  "sc_shard sc key \<equiv> sc_shards sc ! sc_idx sc key"

lemma sc_idx_bound: "cache_inv K sc \<Longrightarrow> sc_idx sc key < length (sc_shards sc)"
  by (simp add: cache_inv_def sc_idx_def)

lemma sc_getShard_eq: "cache_inv K sc \<Longrightarrow> sc_getShard sc (sc_hash sc key) = Some (sc_idx sc key)"
  using sc_idx_bound [of K sc key]
  by (auto simp: sc_getShard_def sc_idx_def cache_inv_def unat_mod_distrib)

lemma cache_inv_shard: "cache_inv K sc \<Longrightarrow> shard_inv (sc_seed sc) K (sc_shard sc key)"
  using sc_idx_bound [of K sc key] by (simp add: cache_inv_def)

lemma cache_inv_setShard:
  assumes "cache_inv K sc" "shard_inv (sc_seed sc) K s"
  shows "cache_inv K (setShard sc i s)"
  using assms set_update_subset_insert [of "sc_shards sc" i s] by (auto simp: cache_inv_def setShard_def)

lemma cache_inv_slot [simp]:
  "cache_inv K (slotAdd sc key) \<longleftrightarrow> cache_inv K sc" "cache_inv K (slotRemove sc slot stale) \<longleftrightarrow> cache_inv K sc"
  by (auto simp: cache_inv_def slotAdd_def slotRemove_def Let_def split: option.splits)

lemma sc_simps [simp]:
  "sc_seed (setShard sc i s) = sc_seed sc" "sc_skipLFU (setShard sc i s) = sc_skipLFU sc"
  "sc_slotFunc (setShard sc i s) = sc_slotFunc sc" "sc_idx (setShard sc i s) = sc_idx sc"
  "sc_hash (setShard sc i s) = sc_hash sc"
  "sc_seed (slotAdd sc k) = sc_seed sc" "sc_skipLFU (slotAdd sc k) = sc_skipLFU sc"
  "sc_idx (slotAdd sc k) = sc_idx sc" "sc_hash (slotAdd sc k) = sc_hash sc"
  "sc_shards (slotAdd sc k) = sc_shards sc" "sc_shards (slotRemove sc slot stale) = sc_shards sc"
  "sc_idx (slotRemove sc slot stale) = sc_idx sc" "sc_hash (slotRemove sc slot stale) = sc_hash sc"
  by (auto simp: setShard_def slotAdd_def slotRemove_def sc_idx_def sc_hash_def fun_eq_iff Let_def split: option.splits)

lemma sc_shards_setShard [simp]:
  "i < length (sc_shards sc) \<Longrightarrow> sc_shards (setShard sc i s) ! i = s"
  "length (sc_shards (setShard sc i s)) = length (sc_shards sc)"
  by (simp_all add: setShard_def)

text \<open>Indexes an operation may leave: deletions, inline integers, and offsets for keys of \<open>K\<close>.\<close>

lemma shard_inv_mdel: "shard_inv seed K s \<Longrightarrow> shard_inv seed K (s\<lparr> zs_index := mdel h (zs_index s) \<rparr>)"
  by (simp add: shard_inv_def go_map)

lemma shard_inv_inline:
  "shard_inv seed K s \<Longrightarrow> shard_inv seed K (s\<lparr> zs_index := mput h (encodeInlineInt v) (zs_index s) \<rparr>)"
  by (auto simp: shard_inv_def go_map)

lemma dropEvicted_sub:
  "mwf ix \<Longrightarrow> mwf (dropEvicted evd ix) \<and> mget (dropEvicted evd ix) \<subseteq>\<^sub>m mget ix"
  unfolding dropEvicted_def
proof (induction evd arbitrary: ix)
  case (Cons ev evd)
  let ?ix = "if mget ix (ev_Hash ev) = Some (word_of_int (ev_Offset ev)) then mdel (ev_Hash ev) ix else ix"
  have ix: "mwf ?ix" "mget ?ix \<subseteq>\<^sub>m mget ix" using Cons.prems by (auto simp: go_map map_le_def)
  from Cons.IH [OF ix(1)] ix(2) show ?case
    unfolding fold.simps comp_def by (blast intro: map_le_trans)
qed simp

lemma shardWrite_ok:
  assumes inv: "shard_inv seed K s" and k: "key \<in> K" "seed key = hash"
    and fits: "esize key val \<le> rb_capacity (zs_ring s)"
  obtains s' off where "shardWrite s hash h key val = Some (s', Inr ())" "shard_inv seed K s'"
    "mget (zs_index s') hash = Some (word_of_int off)" "0 \<le> off" "off < 2 ^ 63"
    "holds (rb_data (zs_ring s')) off h key val" "rb_capacity (zs_ring s') = rb_capacity (zs_ring s)"
proof -
  have ri: "ring_inv (zs_ring s)" and cap: "rb_capacity (zs_ring s) < 2 ^ 63"
    and mw: "mwf (zs_index s)" using inv by (simp_all add: shard_inv_def)
  obtain ring off evd where w: "WriteWithEvict (zs_ring s) h key val = Some (ring, Inr (off, evd))"
    "ring_inv ring" "rb_capacity ring = rb_capacity (zs_ring s)" "0 \<le> off"
    "off + esize key val \<le> rb_capacity (zs_ring s)"
    "writeEntryAt (rb_data (zs_ring s)) off h key val = Some (rb_data ring)"
    by (rule WriteWithEvict_ok [OF ri fits, of h])
  have b: "off < 2 ^ 63" "off + 24 + int (length key) \<le> rb_capacity (zs_ring s)"
    using w(5) cap by (simp_all add: esize_def)
  let ?s = "s\<lparr> zs_ring := ring, zs_index := mput hash (word_of_int off) (dropEvicted evd (zs_index s)) \<rparr>"
  note sub = dropEvicted_sub [OF mw, of evd]
  have "\<exists>k \<in> K. seed k = h' \<and> sint raw + 24 + int (length k) \<le> rb_capacity ring"
    if "mget (zs_index ?s) h' = Some raw" "\<not> isInlineInt raw" for h' raw
  proof (cases "h' = hash")
    case True
    with that(1) have "raw = word_of_int off" by (simp add: go_map)
    with True k b(2) w(3) offset_word(1) [OF w(4) b(1)] show ?thesis by auto
  next
    case False
    with that(1) have "mget (dropEvicted evd (zs_index s)) h' = Some raw" by (simp add: go_map)
    with sub have "mget (zs_index s) h' = Some raw" by (metis domI map_le_def)
    with inv that(2) w(3) show ?thesis by (simp add: shard_inv_def)
  qed
  then have "shard_inv seed K ?s"
    using w(2,3) cap sub by (simp add: shard_inv_def)
  moreover have "holds (rb_data ring) off h key val"
    using holds_writeEntryAt_same [OF w(6,4)] w(5) ri by (simp add: ring_inv_def)
  ultimately show thesis
    using w b by (intro that [of ?s off]) (simp_all add: shardWrite_def go_map)
qed


section \<open>Operations\<close>

text \<open>\<open>sc_holds sc key h v\<close>: the index sends the key to an entry of the ring buffer with this header,
  key and value.\<close>

definition sc_holds :: "ShardedCache \<Rightarrow> string \<Rightarrow> EntryHeader \<Rightarrow> string \<Rightarrow> bool" where
  "sc_holds sc key h v \<longleftrightarrow>
     (\<exists>off. mget (zs_index (sc_shard sc key)) (sc_hash sc key) = Some (word_of_int off) \<and>
        0 \<le> off \<and> off < 2 ^ 63 \<and> holds (rb_data (zs_ring (sc_shard sc key))) off h key v)"

lemma shard_ring: "cache_inv K sc \<Longrightarrow> ring_inv (zs_ring (sc_shard sc key))"
  using cache_inv_shard [of K sc key] by (simp add: shard_inv_def)

lemma shard_cap:
  "cache_inv K sc \<Longrightarrow>
     rb_capacity (zs_ring (sc_shard sc key)) = int (length (rb_data (zs_ring (sc_shard sc key))))"
  using shard_ring [of K sc key] by (simp add: ring_inv_def)

lemma sc_Get_holds:
  assumes inv: "cache_inv K sc" and hold: "sc_holds sc key h v"
    and h: "is_i64 (eh_ExpireAt h)" "unat (eh_KeyLen h) = length key" "unat (eh_ValLen h) \<le> length v"
    and live: "\<not> entryExpired now h"
  shows "sc_Get now sc key = Some (sc, Some (take (unat (eh_ValLen h)) v))"
proof -
  from hold obtain off where off: "mget (zs_index (sc_shard sc key)) (sc_hash sc key) = Some (word_of_int off)"
    "0 \<le> off" "off < 2 ^ 63" "holds (rb_data (zs_ring (sc_shard sc key))) off h key v"
    unfolding sc_holds_def by blast
  note w = offset_word [OF off(2,3)]
  have "sc_skipLFU sc" using inv by (simp add: cache_inv_def)
  with w off(1) live ReadAt_prefix [OF off(4) shard_cap [OF inv] h] show ?thesis
    by (simp add: sc_Get_def sc_getShard_eq [OF inv])
qed

lemma sc_Get_total:
  assumes "cache_inv K sc"
  shows "\<exists>sc' r. sc_Get now sc key = Some (sc', r) \<and> cache_inv K sc'"
proof (cases "mget (zs_index (sc_shard sc key)) (sc_hash sc key)")
  case None
  then show ?thesis using assms by (simp add: sc_Get_def sc_getShard_eq)
next
  case (Some raw)
  have skip: "sc_skipLFU sc" using assms by (simp add: cache_inv_def)
  obtain r where r: "ReadAt (zs_ring (sc_shard sc key)) (sint raw) = Some r"
    using ReadAt_total [OF shard_ring [OF assms]] by blast
  have del: "cache_inv K (setShard sc (sc_idx sc key)
      ((sc_shard sc key)\<lparr> zs_index := mdel (sc_hash sc key) (zs_index (sc_shard sc key)) \<rparr>))"
    by (intro cache_inv_setShard shard_inv_mdel cache_inv_shard assms)
  show ?thesis
    using Some skip r del assms
    by (cases r) (auto simp: sc_Get_def sc_getShard_eq Let_def split: prod.splits)
qed

lemma GetCopy_eq: "GetCopy = sc_Get"
  by (intro ext) (simp only: GetCopy_def sc_Get_def ReadAtCopy_eq)

lemma newHeader_wf:
  "length key < 65536 \<Longrightarrow> length val < 65536 \<Longrightarrow> entry_wf (newHeader now hash key val ttl) key val"
  by (simp add: entry_wf_def newHeader_def)

lemma newHeader_i64: "is_i64 (eh_ExpireAt (newHeader now hash key val ttl))"
  by (simp add: newHeader_def)

lemma sc_holds_setShard:
  assumes "cache_inv K sc" "mget (zs_index s) (sc_hash sc key) = Some (word_of_int off)"
    "0 \<le> off" "off < 2 ^ 63" "holds (rb_data (zs_ring s)) off h key v"
  shows "sc_holds (setShard sc (sc_idx sc key) s) key h v"
  using assms sc_idx_bound [OF assms(1), of key] unfolding sc_holds_def by (intro exI [of _ off]) simp

lemma sc_holds_slotAdd [simp]: "sc_holds (slotAdd sc k) key h v = sc_holds sc key h v"
  by (simp add: sc_holds_def)

text \<open>The append of an entry for a key of \<open>K\<close>, on a shard with the index that \<open>Set\<close> leaves there.\<close>

lemma write_step:
  assumes inv: "cache_inv K sc" and k: "key \<in> K"
    and s: "shard_inv (sc_seed sc) K s" "rb_capacity (zs_ring s) = rb_capacity (zs_ring (sc_shard sc key))"
    and fits: "esize key val \<le> rb_capacity (zs_ring (sc_shard sc key))"
  shows "\<exists>s'. shardWrite s (sc_hash sc key) h key val = Some (s', Inr ()) \<and>
    cache_inv K (setShard sc (sc_idx sc key) s') \<and> sc_holds (setShard sc (sc_idx sc key) s') key h val"
proof -
  obtain s' off where s': "shardWrite s (sc_hash sc key) h key val = Some (s', Inr ())"
    "shard_inv (sc_seed sc) K s'" "mget (zs_index s') (sc_hash sc key) = Some (word_of_int off)"
    "0 \<le> off" "off < 2 ^ 63" "holds (rb_data (zs_ring s')) off h key val"
    by (rule shardWrite_ok [OF s(1) k, of "sc_hash sc key" val h]) (use s(2) fits in \<open>auto simp: sc_hash_def\<close>)
  then show ?thesis
    using cache_inv_setShard [OF inv s'(2)] sc_holds_setShard [OF inv s'(3-6)] by blast
qed


lemma index_bound:
  assumes inv: "cache_inv K sc" and k: "key \<in> K"
    and raw: "mget (zs_index (sc_shard sc key)) (sc_hash sc key) = Some raw" "\<not> isInlineInt raw"
  shows "0 \<le> sint raw" "sint raw + 24 + int (length key) \<le> rb_capacity (zs_ring (sc_shard sc key))"
proof -
  show "0 \<le> sint raw" using raw(2) by (simp add: isInlineInt_iff)
  from cache_inv_shard [OF inv, of key] raw obtain k' where k':
    "k' \<in> K" "sc_seed sc k' = sc_hash sc key"
    "sint raw + 24 + int (length k') \<le> rb_capacity (zs_ring (sc_shard sc key))"
    unfolding shard_inv_def by blast
  moreover have "k' = key"
    using inv k k'(1,2) by (auto simp: cache_inv_def sc_hash_def dest: inj_onD)
  ultimately show "sint raw + 24 + int (length key) \<le> rb_capacity (zs_ring (sc_shard sc key))" by simp
qed

lemma shard_inv_ring:
  "shard_inv seed K s \<Longrightarrow> ring_inv ring \<Longrightarrow> rb_capacity ring = rb_capacity (zs_ring s) \<Longrightarrow>
     shard_inv seed K (s\<lparr> zs_ring := ring \<rparr>)"
  by (simp add: shard_inv_def)

text \<open>What \<open>Set\<close> leaves for the key: its entry, or, when an in-place update ran past the end of the
  buffer, an offset that cannot be read.\<close>

definition sc_broken :: "ShardedCache \<Rightarrow> string \<Rightarrow> bool" where
  "sc_broken sc key \<longleftrightarrow>
     (\<exists>raw. mget (zs_index (sc_shard sc key)) (sc_hash sc key) = Some raw \<and> \<not> isInlineInt raw \<and>
        ReadAt (zs_ring (sc_shard sc key)) (sint raw) = Some (Inl ErrInvalidOffset))"

lemma update_step:
  assumes inv: "cache_inv K sc" and k: "key \<in> K"
    and raw: "mget (zs_index (sc_shard sc key)) (sc_hash sc key) = Some raw" "\<not> isInlineInt raw"
    and wf: "entry_wf h key val"
  shows "UpdateInPlace (zs_ring (sc_shard sc key)) (sint raw) h key val = Some (zs_ring (sc_shard sc key), False) \<or>
    (\<exists>ring. UpdateInPlace (zs_ring (sc_shard sc key)) (sint raw) h key val = Some (ring, True) \<and>
      (let sc' = setShard sc (sc_idx sc key) ((sc_shard sc key)\<lparr> zs_ring := ring \<rparr>)
       in cache_inv K sc' \<and>
          (if sint raw + esize key val \<le> rb_capacity (zs_ring (sc_shard sc key))
           then sc_holds sc' key h val else sc_broken sc' key)))"
proof -
  let ?s = "sc_shard sc key"
  note b = index_bound [OF inv k raw]
  have ri: "ring_inv (zs_ring ?s)" and cap: "rb_capacity (zs_ring ?s) = int (length (rb_data (zs_ring ?s)))"
    using shard_ring [OF inv] shard_cap [OF inv] by simp_all
  have i: "sc_idx sc key < length (sc_shards sc)" by (rule sc_idx_bound [OF inv])
  have lt: "sint raw < 2 ^ 63" using sint_lt [of raw] by simp
  consider "UpdateInPlace (zs_ring ?s) (sint raw) h key val = Some (zs_ring ?s, False)"
    | d where "UpdateInPlace (zs_ring ?s) (sint raw) h key val =
        Some ((zs_ring ?s)\<lparr> rb_data := d, rb_writeCount := i64 (rb_writeCount (zs_ring ?s) + 1) \<rparr>, True)"
      "writeEntryAt (rb_data (zs_ring ?s)) (sint raw) h key val = Some d" "length d = length (rb_data (zs_ring ?s))"
    using UpdateInPlace_ok [OF ri b, of h val] by blast
  then show ?thesis
  proof cases
    case (2 d)
    let ?ring = "(zs_ring ?s)\<lparr> rb_data := d, rb_writeCount := i64 (rb_writeCount (zs_ring ?s) + 1) \<rparr>"
    let ?sc = "setShard sc (sc_idx sc key) (?s\<lparr> zs_ring := ?ring \<rparr>)"
    have "ring_inv ?ring" using ri 2(3) by (simp add: ring_inv_def)
    then have ci: "cache_inv K ?sc"
      by (intro cache_inv_setShard [OF inv] shard_inv_ring cache_inv_shard [OF inv]) simp_all
    have "if sint raw + esize key val \<le> rb_capacity (zs_ring ?s) then sc_holds ?sc key h val
          else sc_broken ?sc key"
    proof (cases "sint raw + esize key val \<le> rb_capacity (zs_ring ?s)")
      case True
      then have "holds d (sint raw) h key val"
        using holds_writeEntryAt_same [OF 2(2) b(1)] cap by simp
      then show ?thesis
        using True raw b(1) lt i by (auto simp: sc_holds_def intro!: exI [of _ "sint raw"])
    next
      case False
      then have "ReadAt ?ring (sint raw) = Some (Inl ErrInvalidOffset)"
        using b cap wf by (intro ReadAt_cut [OF b(1) _ _ 2(2)]) simp_all
      with False raw i show ?thesis by (auto simp: sc_broken_def)
    qed
    with 2(1) ci show ?thesis by (auto simp: Let_def)
  qed simp
qed


abbreviation fits_in :: "ShardedCache \<Rightarrow> string \<Rightarrow> string \<Rightarrow> bool" where
  "fits_in sc key val \<equiv>
     esize key val \<le> rb_capacity (zs_ring (sc_shard sc key)) \<and> length key < 65536 \<and> length val < 65536"

lemma sc_Set_ok:
  fixes now ttl :: int
  assumes inv: "cache_inv K sc" and k: "key \<in> K" and fits: "fits_in sc key val"
  defines "h \<equiv> newHeader now (sc_hash sc key) key val ttl"
  shows "\<exists>sc'. sc_Set now sc key val ttl = Some (sc', Inr ()) \<and> cache_inv K sc' \<and>
    (sc_holds sc' key h val \<or>
     sc_broken sc' key \<and> (\<exists>raw. mget (zs_index (sc_shard sc key)) (sc_hash sc key) = Some raw \<and>
       \<not> isInlineInt raw \<and> rb_capacity (zs_ring (sc_shard sc key)) < sint raw + esize key val))"
proof -
  let ?s = "sc_shard sc key" and ?i = "sc_idx sc key" and ?hash = "sc_hash sc key"
  have skip: "sc_skipLFU sc" using inv by (simp add: cache_inv_def)
  have wf: "entry_wf h key val" using fits by (simp add: h_def newHeader_wf)
  have wr: "\<exists>s'. shardWrite s ?hash h key val = Some (s', Inr ()) \<and> cache_inv K (setShard sc ?i s') \<and>
      sc_holds (setShard sc ?i s') key h val"
    if "shard_inv (sc_seed sc) K s" "zs_ring s = zs_ring ?s" for s
    using write_step [OF inv k that(1)] that(2) fits by simp
  note defs = sc_Set_def sc_getShard_eq [OF inv] h_def [symmetric]
  show ?thesis
  proof (cases "mget (zs_index ?s) ?hash")
    case None
    with wr [OF cache_inv_shard [OF inv] refl] skip show ?thesis by (auto simp: defs)
  next
    case (Some raw)
    show ?thesis
    proof (cases "isInlineInt raw")
      case True
      with Some skip wr [OF shard_inv_mdel [OF cache_inv_shard [OF inv, of key], of ?hash]] show ?thesis
        by (auto simp: defs)
    next
      case False
      from update_step [OF inv k Some False wf] consider
        "UpdateInPlace (zs_ring ?s) (sint raw) h key val = Some (zs_ring ?s, False)"
        | ring where "UpdateInPlace (zs_ring ?s) (sint raw) h key val = Some (ring, True)"
          "cache_inv K (setShard sc ?i (?s\<lparr> zs_ring := ring \<rparr>))"
          "if sint raw + esize key val \<le> rb_capacity (zs_ring ?s)
           then sc_holds (setShard sc ?i (?s\<lparr> zs_ring := ring \<rparr>)) key h val
           else sc_broken (setShard sc ?i (?s\<lparr> zs_ring := ring \<rparr>)) key"
        by (auto simp: Let_def)
      then show ?thesis
      proof cases
        case 1
        with Some False skip wr [OF cache_inv_shard [OF inv] refl] show ?thesis by (auto simp: defs)
      next
        case (2 ring)
        with Some False skip show ?thesis by (auto simp: defs not_le split: if_splits)
      qed
    qed
  qed
qed


lemma shard_read:
  assumes "cache_inv K sc"
  shows "\<exists>rd. \<forall>raw :: 64 word. ReadAt (zs_ring (sc_shard sc key)) (sint raw) = Some (rd raw)"
  by (intro choice allI ReadAt_total shard_ring [OF assms])

text \<open>Every operation that stores keeps the invariant, whether it succeeds or not.\<close>

lemma shardWrite_total:
  assumes inv: "shard_inv seed K s" and k: "key \<in> K" "seed key = hash"
  shows "\<exists>s' r. shardWrite s hash h key val = Some (s', r) \<and> shard_inv seed K s'"
proof (cases "esize key val \<le> rb_capacity (zs_ring s)")
  case True
  then show ?thesis by (metis shardWrite_ok [OF inv k])
next
  case False
  then show ?thesis using inv by (simp add: shardWrite_def WriteWithEvict_too_large)
qed

lemma write_total:
  assumes "cache_inv K sc" "key \<in> K" "shard_inv (sc_seed sc) K s"
  shows "\<exists>s' r. shardWrite s (sc_hash sc key) h key val = Some (s', r) \<and>
    cache_inv K (setShard sc (sc_idx sc key) s')"
  using shardWrite_total [OF assms(3,2), of "sc_hash sc key" h val] cache_inv_setShard [OF assms(1)]
  by (auto simp: sc_hash_def)

lemma update_total:
  assumes inv: "cache_inv K sc" and k: "key \<in> K"
    and raw: "mget (zs_index (sc_shard sc key)) (sc_hash sc key) = Some raw" "\<not> isInlineInt raw"
  shows "\<exists>ring ok. UpdateInPlace (zs_ring (sc_shard sc key)) (sint raw) h key val = Some (ring, ok) \<and>
    shard_inv (sc_seed sc) K ((sc_shard sc key)\<lparr> zs_ring := ring \<rparr>)"
proof -
  note ri = shard_ring [OF inv, of key]
  from UpdateInPlace_ok [OF ri index_bound [OF inv k raw], of h val] show ?thesis
  proof (elim disjE exE conjE)
    assume "UpdateInPlace (zs_ring (sc_shard sc key)) (sint raw) h key val = Some (zs_ring (sc_shard sc key), False)"
    then show ?thesis using cache_inv_shard [OF inv, of key] by auto
  next
    fix d assume d: "UpdateInPlace (zs_ring (sc_shard sc key)) (sint raw) h key val =
        Some ((zs_ring (sc_shard sc key))\<lparr> rb_data := d,
          rb_writeCount := i64 (rb_writeCount (zs_ring (sc_shard sc key)) + 1) \<rparr>, True)"
      "length d = length (rb_data (zs_ring (sc_shard sc key)))"
    then show ?thesis
      using ri by (auto simp: ring_inv_def intro!: shard_inv_ring cache_inv_shard [OF inv])
  qed
qed

lemma sc_Set_total:
  assumes inv: "cache_inv K sc" and k: "key \<in> K"
  shows "\<exists>sc' r. sc_Set now sc key val ttl = Some (sc', r) \<and> cache_inv K sc'"
proof -
  let ?s = "sc_shard sc key" and ?hash = "sc_hash sc key" and ?i = "sc_idx sc key"
  let ?h = "newHeader now ?hash key val ttl"
  have skip: "sc_skipLFU sc" using inv by (simp add: cache_inv_def)
  have fin: ?thesis
    if "(case mget (zs_index ?s) ?hash of
          None \<Rightarrow> Some (?s, False)
        | Some raw \<Rightarrow> if isInlineInt raw then Some (?s\<lparr> zs_index := mdel ?hash (zs_index ?s) \<rparr>, False)
            else do { (ring, ok) \<leftarrow> UpdateInPlace (zs_ring ?s) (sint raw) ?h key val;
                      Some (?s\<lparr> zs_ring := ring \<rparr>, ok) }) = Some (s1, upd)"
      and s1: "shard_inv (sc_seed sc) K s1" for s1 upd
  proof -
    obtain s' r where "shardWrite s1 ?hash ?h key val = Some (s', r)" "cache_inv K (setShard sc ?i s')"
      using write_total [OF inv k s1] by blast
    with that(1) skip cache_inv_setShard [OF inv s1] show ?thesis
      by (cases upd; cases r) (auto simp: sc_Set_def sc_getShard_eq [OF inv] Let_def)
  qed
  show ?thesis
  proof (cases "mget (zs_index ?s) ?hash")
    case None
    then show ?thesis by (intro fin [of ?s False] cache_inv_shard [OF inv]) simp
  next
    case (Some raw)
    show ?thesis
    proof (cases "isInlineInt raw")
      case True
      with Some show ?thesis
        by (intro fin [OF _ shard_inv_mdel [OF cache_inv_shard [OF inv, of key], of ?hash], of False]) simp
    next
      case False
      obtain ring ok where "UpdateInPlace (zs_ring ?s) (sint raw) ?h key val = Some (ring, ok)"
        "shard_inv (sc_seed sc) K (?s\<lparr> zs_ring := ring \<rparr>)"
        using update_total [OF inv k Some False] by blast
      with Some False show ?thesis by (intro fin [of "?s\<lparr> zs_ring := ring \<rparr>" ok]) simp_all
    qed
  qed
qed

lemma sc_IncrBy_total:
  assumes inv: "cache_inv K sc"
  shows "\<exists>sc' r. sc_IncrBy now sc key delta = Some (sc', r) \<and> cache_inv K sc'"
proof -
  let ?s = "sc_shard sc key"
  have skip: "sc_skipLFU sc" using inv by (simp add: cache_inv_def)
  have store: "cache_inv K (setShard sc (sc_idx sc key)
      (?s\<lparr> zs_index := mput (sc_hash sc key) (encodeInlineInt v) (zs_index ?s) \<rparr>))" for v
    by (intro cache_inv_setShard [OF inv] shard_inv_inline cache_inv_shard [OF inv])
  obtain rd where "\<And>raw :: 64 word. ReadAt (zs_ring ?s) (sint raw) = Some (rd raw)"
    using shard_read [OF inv, of key] by blast
  then show ?thesis
    using skip store inv
    by (auto simp: sc_IncrBy_def sc_getShard_eq [OF inv] Let_def split: option.splits sum.splits prod.splits)
qed

lemma sc_Delete_total:
  assumes inv: "cache_inv K sc"
  shows "\<exists>sc' r. sc_Delete sc key = Some (sc', r) \<and> cache_inv K sc'"
proof -
  let ?s = "sc_shard sc key"
  have "cache_inv K (setShard sc (sc_idx sc key) (?s\<lparr> zs_index := mdel (sc_hash sc key) (zs_index ?s) \<rparr>))"
    by (intro cache_inv_setShard [OF inv] shard_inv_mdel cache_inv_shard [OF inv])
  with inv show ?thesis
    by (auto simp: sc_Delete_def sc_getShard_eq [OF inv] Let_def split: option.splits)
qed

lemma sc_SetNX_total:
  assumes inv: "cache_inv K sc" and k: "key \<in> K"
  shows "\<exists>sc' r. sc_SetNX now sc key val ttl = Some (sc', r) \<and> cache_inv K sc'"
proof -
  have skip: "sc_skipLFU sc" using inv by (simp add: cache_inv_def)
  obtain rd where rd: "\<And>raw :: 64 word. ReadAt (zs_ring (sc_shard sc key)) (sint raw) = Some (rd raw)"
    using shard_read [OF inv, of key] by blast
  obtain s' r where "shardWrite (sc_shard sc key) (sc_hash sc key)
      (newHeader now (sc_hash sc key) key val ttl) key val = Some (s', r)"
    "cache_inv K (setShard sc (sc_idx sc key) s')"
    using write_total [OF inv k cache_inv_shard [OF inv]] by blast
  with skip rd inv show ?thesis
    by (cases "mget (zs_index (sc_shard sc key)) (sc_hash sc key)"; cases r)
      (auto simp: sc_SetNX_def sc_getShard_eq [OF inv] Let_def)
qed

lemma sc_SetXX_total:
  assumes inv: "cache_inv K sc" and k: "key \<in> K"
  shows "\<exists>sc' r. sc_SetXX now sc key val ttl = Some (sc', r) \<and> cache_inv K sc'"
proof -
  have skip: "sc_skipLFU sc" using inv by (simp add: cache_inv_def)
  obtain rd where rd: "\<And>raw :: 64 word. ReadAt (zs_ring (sc_shard sc key)) (sint raw) = Some (rd raw)"
    using shard_read [OF inv, of key] by blast
  obtain s' r where "shardWrite (sc_shard sc key) (sc_hash sc key)
      (newHeader now (sc_hash sc key) key val ttl) key val = Some (s', r)"
    "cache_inv K (setShard sc (sc_idx sc key) s')"
    using write_total [OF inv k cache_inv_shard [OF inv]] by blast
  with skip rd inv show ?thesis
    by (cases "mget (zs_index (sc_shard sc key)) (sc_hash sc key)"; cases r)
      (auto simp: sc_SetXX_def sc_getShard_eq [OF inv] Let_def)
qed

lemma sc_Expire_total:
  assumes inv: "cache_inv K sc" and k: "key \<in> K"
  shows "\<exists>sc' r. sc_Expire now sc key ttl = Some (sc', r) \<and> cache_inv K sc'"
proof (cases "mget (zs_index (sc_shard sc key)) (sc_hash sc key)")
  case None
  with inv show ?thesis by (auto simp: sc_Expire_def sc_getShard_eq Let_def)
next
  case (Some raw)
  obtain r where r: "ReadAt (zs_ring (sc_shard sc key)) (sint raw) = Some r"
    using ReadAt_total [OF shard_ring [OF inv, of key]] by blast
  show ?thesis
  proof (cases r)
    case (Inl e)
    with inv Some r show ?thesis by (auto simp: sc_Expire_def sc_getShard_eq Let_def)
  next
    case (Inr t)
    obtain k0 v0 h0 where t: "t = (k0, v0, h0)" by (cases t)
    obtain s' w where "shardWrite (sc_shard sc key) (sc_hash sc key)
        (h0\<lparr> eh_ExpireAt := if ttl > 0 then i64 (now + ttl) else 0, eh_KeyLen := of_nat (length key),
             eh_ValLen := of_nat (length v0) \<rparr>) key v0 = Some (s', w)"
      "cache_inv K (setShard sc (sc_idx sc key) s')"
      using write_total [OF inv k cache_inv_shard [OF inv]] by blast
    with inv Some r Inr t show ?thesis
      by (auto simp: sc_Expire_def sc_getShard_eq valueForOffset_def ReadAtCopy_eq Let_def)
  qed
qed


section \<open>Properties\<close>


definition cache_small :: ShardedCache where
  "cache_small = \<lparr> sc_shards = [\<lparr> zs_index = [], zs_ring = ring_small, zs_lfu = NewTinyLFU 16 \<rparr>],
     sc_shardCount = 1, sc_seed = (\<lambda>k. of_nat (length k)), sc_sampleSize = 5, sc_skipLFU = True,
     sc_slotIndex = [], sc_slotFunc = None \<rparr>"

lemma cache_small_idx [simp]: "sc_idx cache_small k = 0"
  by (simp add: sc_idx_def cache_small_def)

lemma cache_small_inv: "cache_inv {''k''} cache_small"
  by (simp add: cache_inv_def shard_inv_def cache_small_def) (simp add: ring_small_def)




lemma newHeader_live:
  assumes "ttl \<le> 0 \<or> is_i64 (now + ttl) \<and> now' \<le> now + ttl"
  shows "\<not> entryExpired now' (newHeader now hash key val ttl)"
  using assms by (auto simp: entryExpired_def newHeader_def)



text \<open>
  a value of \<open>2 ^ 16\<close> bytes or more is accepted, and \<open>Get\<close> returns only the first
  \<open>length val mod 2 ^ 16\<close> bytes of it, because its length is stored in 16 bits.
\<close>

theorem sc_Set_truncates:
  assumes inv: "cache_inv K sc" "key \<in> K" and new: "mget (zs_index (sc_shard sc key)) (sc_hash sc key) = None"
    and fits: "esize key val \<le> rb_capacity (zs_ring (sc_shard sc key))" "length key < 65536"
  shows "\<exists>sc'. sc_Set now sc key val 0 = Some (sc', Inr ()) \<and>
    sc_Get now' sc' key = Some (sc', Some (take (length val mod 65536) val))"
proof -
  let ?h = "newHeader now (sc_hash sc key) key val 0"
  have skip: "sc_skipLFU sc" using inv by (simp add: cache_inv_def)
  obtain s' where s': "shardWrite (sc_shard sc key) (sc_hash sc key) ?h key val = Some (s', Inr ())"
    "cache_inv K (setShard sc (sc_idx sc key) s')" "sc_holds (setShard sc (sc_idx sc key) s') key ?h val"
    using write_step [OF inv cache_inv_shard [OF inv(1)] refl fits(1)] by blast
  let ?sc = "slotAdd (setShard sc (sc_idx sc key) s') key"
  have "sc_Set now sc key val 0 = Some (?sc, Inr ())"
    using new s'(1) skip by (simp add: sc_Set_def sc_getShard_eq [OF inv(1)])
  moreover have "unat (eh_ValLen ?h) = length val mod 65536" "unat (eh_KeyLen ?h) = length key"
    using fits(2) by (simp_all add: newHeader_def unsigned_of_nat take_bit_eq_mod)
  ultimately show ?thesis
    using sc_Get_holds [of K ?sc key ?h val now'] s'(2,3) newHeader_i64 newHeader_live [of 0 now now']
    by simp
qed

definition cache_big :: ShardedCache where
  "cache_big = cache_small\<lparr> sc_shards := [\<lparr> zs_index = [], zs_ring = NewRingBuffer 0, zs_lfu = NewTinyLFU 16 \<rparr>] \<rparr>"

lemma NewRingBuffer_inv: "ring_inv (NewRingBuffer c)" "ring_log (NewRingBuffer c) []"
  by (simp_all add: NewRingBuffer_def ring_inv_def ring_log_def minRingBufferSize_def Let_def)

lemma cache_big_inv: "cache_inv {''k''} cache_big"
  using NewRingBuffer_inv(1) [of 0]
  by (simp add: cache_inv_def shard_inv_def cache_big_def cache_small_def)
    (simp add: NewRingBuffer_def minRingBufferSize_def)

theorem sc_Set_truncates_witness:
  "\<exists>sc'. sc_Set 0 cache_big ''k'' (replicate 65536 (CHR ''x'')) 0 = Some (sc', Inr ()) \<and>
     sc_Get 1 sc' ''k'' = Some (sc', Some [])"
  using sc_Set_truncates [OF cache_big_inv, of "''k''" "replicate 65536 (CHR ''x'')" 0 1]
  by (simp add: esize_def sc_idx_def) (simp add: cache_big_def cache_small_def NewRingBuffer_def minRingBufferSize_def)

text \<open>
  a counter that is created by \<open>IncrBy\<close> is stored in 63 bits. \<open>IncrBy\<close> returns the delta, but
  \<open>Get\<close> prints it modulo \<open>2 ^ 63\<close>: the two agree exactly when the delta is not negative.
\<close>

theorem sc_IncrBy_Get:
  assumes inv: "cache_inv K sc" and new: "mget (zs_index (sc_shard sc key)) (sc_hash sc key) = None"
    and d: "is_i64 delta"
  shows "\<exists>sc' v. sc_IncrBy now sc key delta = Some (sc', Inr delta) \<and>
    sc_Get now' sc' key = Some (sc', Some (FormatInt v)) \<and> v = delta mod 2 ^ 63 \<and> (v = delta \<longleftrightarrow> 0 \<le> delta)"
proof -
  have skip: "sc_skipLFU sc" using inv by (simp add: cache_inv_def)
  let ?s = "(sc_shard sc key)\<lparr> zs_index := mput (sc_hash sc key) (encodeInlineInt delta) (zs_index (sc_shard sc key)) \<rparr>"
  let ?sc = "slotAdd (setShard sc (sc_idx sc key) ?s) key"
  have ci: "cache_inv K ?sc"
    by (simp add: cache_inv_setShard [OF inv] shard_inv_inline cache_inv_shard [OF inv])
  have 1: "sc_IncrBy now sc key delta = Some (?sc, Inr delta)"
    using new skip by (simp add: sc_IncrBy_def sc_getShard_eq [OF inv] Let_def)
  have "sc_shard ?sc key = ?s" using sc_idx_bound [OF inv, of key] by simp
  then have 2: "sc_Get now' ?sc key = Some (?sc, Some (FormatInt (delta mod 2 ^ 63)))"
    using skip sc_getShard_eq [OF ci, of key] by (simp add: sc_Get_def go_map decode_encode)
  have "delta mod 2 ^ 63 = delta \<longleftrightarrow> 0 \<le> delta"
    using d pos_mod_sign [of "2 ^ 63" delta] by (auto simp: is_i64_def mod_pos_pos_trivial)
  with 1 2 show ?thesis by blast
qed

theorem sc_IncrBy_Get_witness:
  "\<exists>sc'. sc_IncrBy 0 cache_small ''k'' (- 1) = Some (sc', Inr (- 1)) \<and>
     sc_Get 0 sc' ''k'' = Some (sc', Some (FormatInt 9223372036854775807))"
  using sc_IncrBy_Get [OF cache_small_inv, of "''k''" "- 1" 0 0]
  by (simp add: is_i64_def) (simp add: cache_small_def)

text \<open>
  a counter held in the index is invisible to the operations that read the ring buffer: \<open>SetNX\<close>
  overwrites it although \<open>Get\<close> finds it, \<open>SetXX\<close> and \<open>Expire\<close> report that the key does not exist, and
  its key is not listed.
\<close>

theorem sc_counter_invisible:
  assumes inv: "cache_inv K sc" "key \<in> K" and fits: "fits_in sc key val"
    and ctr: "mget (zs_index (sc_shard sc key)) (sc_hash sc key) = Some (encodeInlineInt v)"
  shows "sc_Get now sc key = Some (sc, Some (FormatInt (v mod 2 ^ 63))) \<and>
    (\<exists>sc'. sc_SetNX now sc key val 0 = Some (sc', Inr True) \<and> sc_Get now sc' key = Some (sc', Some val)) \<and>
    sc_SetXX now sc key val 0 = Some (sc, Inr False) \<and> sc_Expire now sc key ttl = Some (sc, False) \<and>
    keyForOffset now (sc_shard sc key) (sint (encodeInlineInt v)) = Some None"
proof -
  let ?h = "newHeader now (sc_hash sc key) key val 0"
  have skip: "sc_skipLFU sc" using inv by (simp add: cache_inv_def)
  have "sint (encodeInlineInt v) < 0" using inline_encode [of v] by (simp add: isInlineInt_iff)
  then have rd: "ReadAt ring (sint (encodeInlineInt v)) = Some (Inl ErrInvalidOffset)" for ring
    by (simp add: ReadAt_def)
  obtain s' where s': "shardWrite (sc_shard sc key) (sc_hash sc key) ?h key val = Some (s', Inr ())"
    "cache_inv K (setShard sc (sc_idx sc key) s')" "sc_holds (setShard sc (sc_idx sc key) s') key ?h val"
    using write_step [OF inv cache_inv_shard [OF inv(1)] refl] fits by blast
  let ?sc = "slotAdd (setShard sc (sc_idx sc key) s') key"
  have "sc_SetNX now sc key val 0 = Some (?sc, Inr True)"
    using ctr rd s'(1) skip by (simp add: sc_SetNX_def sc_getShard_eq [OF inv(1)])
  moreover have "sc_Get now ?sc key = Some (?sc, Some val)"
    using sc_Get_holds [of K ?sc key ?h val now] s'(2,3) newHeader_i64 newHeader_live [of 0 now now]
      entry_wf_lens(3,4) [OF newHeader_wf [of key val now "sc_hash sc key" 0]] fits by simp
  ultimately show ?thesis
    using ctr rd skip
    by (auto simp: sc_Get_def sc_SetXX_def sc_Expire_def keyForOffset_def sc_getShard_eq [OF inv(1)] decode_encode)
qed

definition cache_ctr :: ShardedCache where
  "cache_ctr = cache_small\<lparr> sc_shards :=
     [\<lparr> zs_index = [(1, encodeInlineInt 5)], zs_ring = ring_small, zs_lfu = NewTinyLFU 16 \<rparr>] \<rparr>"

lemma cache_ctr_inv: "cache_inv {''k''} cache_ctr"
  by (simp add: cache_inv_def shard_inv_def cache_ctr_def cache_small_def mwf_def)
    (simp add: ring_small_def)

theorem sc_counter_invisible_witness:
  "sc_Get 0 cache_ctr ''k'' = Some (cache_ctr, Some ''5'') \<and>
   (\<exists>sc'. sc_SetNX 0 cache_ctr ''k'' ''x'' 0 = Some (sc', Inr True) \<and> sc_Get 0 sc' ''k'' = Some (sc', Some ''x''))"
proof -
  have "char_of (53 :: nat) = CHR ''5''" by code_simp
  then have "FormatInt 5 = ''5''" by (simp add: FormatInt_def format_nat.simps digit_char_def)
  then show ?thesis
    using sc_counter_invisible [OF cache_ctr_inv, of "''k''" "''x''" 5 0]
    by (simp add: esize_def sc_idx_def sc_hash_def) (simp add: cache_ctr_def cache_small_def ring_small_def)
qed

end
