(* ===== verification/CacheScan.thy ===== *)
theory CacheScan
  imports ShardCacheProps "HOL-Library.Multiset"
begin

text \<open>
  The iteration over the cache with \<open>Scan\<close>: what one call consumes, the cursor encoding, and that a
  complete iteration returns what \<open>Keys\<close> returns. \<open>scanLoop_spec\<close> is stated for any list of shards
  with a function that lists the keys of a shard; the object dictionary is scanned by the same loop.
\<close>

unbundle bit_operations_syntax

section \<open>Iteration\<close>

lemma scanKeys_spec:
  "\<exists>taken rest. keys = taken @ rest \<and>
     scanKeys pattern cnt keys i result = (result @ filter (scanMatch pattern) taken, i + length taken) \<and>
     (rest \<noteq> [] \<longrightarrow> cnt \<le> length (result @ filter (scanMatch pattern) taken)) \<and>
     (length result \<le> cnt \<longrightarrow> length (result @ filter (scanMatch pattern) taken) \<le> cnt)"
proof (induction keys arbitrary: i result)
  case (Cons key keys)
  show ?case
  proof (cases "length result < cnt")
    case True
    let ?result = "if scanMatch pattern key then result @ [key] else result"
    from Cons.IH [of "i + 1" ?result] obtain taken rest where
      "keys = taken @ rest"
      "scanKeys pattern cnt keys (i + 1) ?result = (?result @ filter (scanMatch pattern) taken, i + 1 + length taken)"
      "rest \<noteq> [] \<longrightarrow> cnt \<le> length (?result @ filter (scanMatch pattern) taken)"
      "length ?result \<le> cnt \<longrightarrow> length (?result @ filter (scanMatch pattern) taken) \<le> cnt"
      by blast
    with True show ?thesis by (intro exI [of _ "key # taken"] exI [of _ rest]) auto
  next
    case False
    then show ?thesis by (intro exI [of _ "[]"] exI [of _ "key # keys"]) auto
  qed
qed simp

text \<open>The keys that are still ahead, in order, at a position of the first shard of a list.\<close>

fun ahead :: "('a \<Rightarrow> string list) \<Rightarrow> 'a list \<Rightarrow> nat \<Rightarrow> string list" where
  "ahead K [] pos = []"
| "ahead K (s # ss) pos = drop pos (K s) @ ahead K ss 0"

lemma ahead_0: "ahead K ss 0 = concat (map K ss)"
  by (induction ss) simp_all

lemma length_ahead: "length (ahead K ss pos) \<le> length (ahead K ss 0)"
  by (cases ss) simp_all

lemma scanLoop_spec:
  assumes "\<And>s. s \<in> set shards \<Longrightarrow> keysOf s = Some (ks s)" "length result \<le> cnt"
  defines "K \<equiv> (\<lambda>s. sort (ks s))"
  shows "\<exists>taken. (scanLoop keysOf pattern cnt shards i pos result =
        Some (result @ filter (scanMatch pattern) taken, None) \<and> ahead K shards pos = taken) \<or>
    (\<exists>j q. scanLoop keysOf pattern cnt shards i pos result =
        Some (result @ filter (scanMatch pattern) taken, Some (i + j, q)) \<and>
      ahead K shards pos = taken @ ahead K (drop j shards) q \<and> j < length shards \<and>
      q \<le> max pos (length (K (shards ! j))) \<and>
      length (result @ filter (scanMatch pattern) taken) = cnt)"
  using assms(1,2)
proof (induction shards arbitrary: i pos result)
  case (Cons shard shards)
  show ?case
  proof (cases "length result < cnt")
    case True
    have ks: "keysOf shard = Some (ks shard)" using Cons.prems(1) by simp
    obtain t1 r1 where t1: "drop pos (K shard) = t1 @ r1"
      "scanKeys pattern cnt (drop pos (K shard)) pos result = (result @ filter (scanMatch pattern) t1, pos + length t1)"
      "r1 \<noteq> [] \<longrightarrow> cnt \<le> length (result @ filter (scanMatch pattern) t1)"
      "length (result @ filter (scanMatch pattern) t1) \<le> cnt"
      using scanKeys_spec [of "drop pos (K shard)" pattern cnt pos result] True by fastforce
    have len: "length (K shard) - pos = length t1 + length r1"
      using arg_cong [OF t1(1), of length] by simp
    show ?thesis
    proof (cases "r1 = []")
      case True
      with len have "pos + length t1 \<ge> length (K shard)" by simp
      with ks t1(2) \<open>length result < cnt\<close> have
        step: "scanLoop keysOf pattern cnt (shard # shards) i pos result =
          scanLoop keysOf pattern cnt shards (i + 1) 0 (result @ filter (scanMatch pattern) t1)"
        by (simp add: K_def [symmetric] Let_def) (simp add: K_def)
      from Cons.IH [of "result @ filter (scanMatch pattern) t1" "i + 1" 0] Cons.prems(1) t1(4) obtain t2 where
        "(scanLoop keysOf pattern cnt shards (i + 1) 0 (result @ filter (scanMatch pattern) t1) =
            Some (result @ filter (scanMatch pattern) (t1 @ t2), None) \<and> ahead K shards 0 = t2) \<or>
         (\<exists>j q. scanLoop keysOf pattern cnt shards (i + 1) 0 (result @ filter (scanMatch pattern) t1) =
            Some (result @ filter (scanMatch pattern) (t1 @ t2), Some (i + 1 + j, q)) \<and>
          ahead K shards 0 = t2 @ ahead K (drop j shards) q \<and> j < length shards \<and>
          q \<le> max 0 (length (K (shards ! j))) \<and> length (result @ filter (scanMatch pattern) (t1 @ t2)) = cnt)"
        by auto
      then show ?thesis
      proof (elim disjE exE conjE)
        assume "scanLoop keysOf pattern cnt shards (i + 1) 0 (result @ filter (scanMatch pattern) t1) =
            Some (result @ filter (scanMatch pattern) (t1 @ t2), None)" "ahead K shards 0 = t2"
        with step t1(1) True show ?thesis by (intro exI [of _ "t1 @ t2"]) simp
      next
        fix j q
        assume "scanLoop keysOf pattern cnt shards (i + 1) 0 (result @ filter (scanMatch pattern) t1) =
            Some (result @ filter (scanMatch pattern) (t1 @ t2), Some (i + 1 + j, q))"
          "ahead K shards 0 = t2 @ ahead K (drop j shards) q" "j < length shards"
          "q \<le> max 0 (length (K (shards ! j)))" "length (result @ filter (scanMatch pattern) (t1 @ t2)) = cnt"
        with step t1(1) True show ?thesis
          by (intro exI [of _ "t1 @ t2"] disjI2 exI [of _ "Suc j"] exI [of _ q]) (auto simp: max_def)
      qed
    next
      case False
      with len have lt: "pos + length t1 < length (K shard)" by (cases r1) simp_all
      with ks t1(2) \<open>length result < cnt\<close> have
        step: "scanLoop keysOf pattern cnt (shard # shards) i pos result =
          Some (result @ filter (scanMatch pattern) t1, Some (i, pos + length t1))"
        by (simp add: K_def [symmetric] Let_def) (simp add: K_def)
      have "drop (pos + length t1) (K shard) = r1"
        using arg_cong [OF t1(1), of "drop (length t1)"] by (simp add: add.commute)
      with step t1 lt False show ?thesis
        by (intro exI [of _ t1] disjI2 exI [of _ 0] exI [of _ "pos + length t1"]) auto
    qed
  next
    case False
    with Cons.prems(2) show ?thesis
      by (intro exI [of _ "[]"] disjI2 exI [of _ 0] exI [of _ pos]) auto
  qed
qed simp


section \<open>Cursors\<close>

lemma cursor_roundtrip:
  assumes "i < 2 ^ 32" "p < 2 ^ 32"
  shows "cursorShard (makeCursor (i, p)) = i" "cursorPos (makeCursor (i, p)) = p"
proof -
  let ?i = "of_nat i :: 64 word" and ?p = "of_nat p :: 64 word"
  have p: "take_bit 32 ?p = ?p" and i: "take_bit 32 ?i = ?i"
    using assms by (simp_all add: take_bit_of_nat take_bit_nat_eq_self)
  have m: "(w AND 0xFFFFFFFF :: 64 word) = take_bit 32 w" for w
    by (simp add: take_bit_eq_mask mask_eq_exp_minus_1)
  have ui: "unat ?i = i" and up: "unat ?p = p"
    using assms by (simp_all add: unsigned_of_nat take_bit_nat_eq_self)
  have "drop_bit 32 (makeCursor (i, p)) = take_bit 32 ?i"
    unfolding makeCursor_def
    by (rule bit_eqI) (simp add: bit_drop_bit_eq bit_or_iff bit_push_bit_iff bit_take_bit_iff, subst p [symmetric], auto simp: bit_take_bit_iff)
  then show "cursorShard (makeCursor (i, p)) = i" by (simp add: cursorShard_def i ui)
  have "take_bit 32 (makeCursor (i, p)) = take_bit 32 ?p"
    unfolding makeCursor_def
    by (rule bit_eqI) (auto simp: bit_or_iff bit_push_bit_iff bit_take_bit_iff)
  then show "cursorPos (makeCursor (i, p)) = p" by (simp add: cursorPos_def m p up)
qed

lemma cursor_zero: "i < 2 ^ 32 \<Longrightarrow> p < 2 ^ 32 \<Longrightarrow> makeCursor (i, p) = 0 \<longleftrightarrow> i = 0 \<and> p = 0"
  using cursor_roundtrip [of i p] by (auto simp: cursorShard_def cursorPos_def makeCursor_def)


lemma keysForOffsets_total:
  assumes "ring_inv (zs_ring s)"
  shows "\<exists>ks. keysForOffsets now s raws = Some ks \<and> length ks \<le> length raws"
proof (induction raws)
  case (Cons raw raws)
  obtain r where "ReadAt (zs_ring s) (sint raw) = Some r" using ReadAt_total [OF assms] by blast
  with Cons show ?case by (auto simp: keyForOffset_def le_Suc_eq split: option.splits)
qed simp

definition shard_list :: "int \<Rightarrow> ZeroGCShard \<Rightarrow> string list" where
  "shard_list now s = the (shardKeys now s)"

lemma shardKeys_eq:
  assumes "ring_inv (zs_ring s)"
  shows "shardKeys now s = Some (shard_list now s)" "length (shard_list now s) \<le> length (zs_index s)"
  using keysForOffsets_total [OF assms, of now "map snd (zs_index s)"]
  by (auto simp: shard_list_def shardKeys_def)

text \<open>A cache whose shards and positions fit in the two halves of a cursor.\<close>

definition scan_ok :: "ShardedCache \<Rightarrow> bool" where
  "scan_ok sc \<longleftrightarrow> length (sc_shards sc) < 2 ^ 32 \<and>
     (\<forall>s \<in> set (sc_shards sc). ring_inv (zs_ring s) \<and> length (zs_index s) < 2 ^ 32)"

definition scan_ahead :: "int \<Rightarrow> ShardedCache \<Rightarrow> 64 word \<Rightarrow> string list" where
  "scan_ahead now sc cursor =
     ahead (\<lambda>s. sort (shard_list now s)) (drop (cursorShard cursor) (sc_shards sc)) (cursorPos cursor)"

lemma cursor_bounds: "cursorShard c < 2 ^ 32" "cursorPos c < 2 ^ 32"
proof -
  have "drop_bit 32 c = take_bit 32 (drop_bit 32 c)"
    by (rule bit_eqI) (auto simp: bit_take_bit_iff bit_drop_bit_eq dest: bit_imp_le_length)
  then have "unat (drop_bit 32 c) = take_bit 32 (unat (drop_bit 32 c))"
    by (metis unsigned_take_bit_eq)
  then show "cursorShard c < 2 ^ 32" unfolding cursorShard_def
    by (metis take_bit_nat_less_exp)
  have "c AND 0xFFFFFFFF = take_bit 32 c" by (simp add: take_bit_eq_mask mask_eq_exp_minus_1)
  then show "cursorPos c < 2 ^ 32" unfolding cursorPos_def
    by (metis unsigned_take_bit_eq take_bit_nat_less_exp)
qed

lemma scan_step:
  fixes c :: int
  assumes ok: "scan_ok sc"
  defines "n \<equiv> if c \<le> 0 then 10 else nat c"
  shows "\<exists>taken next. sc_Scan now sc cursor pattern c = Some (filter (scanMatch pattern) taken, next) \<and>
    scan_ahead now sc cursor = taken @ (if next = 0 then [] else scan_ahead now sc next) \<and>
    (next \<noteq> 0 \<longrightarrow> taken \<noteq> [] \<and> length (filter (scanMatch pattern) taken) = n)"
proof -
  let ?i = "cursorShard cursor" and ?pos = "cursorPos cursor"
  let ?ss = "drop ?i (sc_shards sc)" and ?K = "\<lambda>s. sort (shard_list now s)"
  have sh: "ring_inv (zs_ring s)" "length (zs_index s) < 2 ^ 32" if "s \<in> set ?ss" for s
    using ok that by (auto simp: scan_ok_def dest: in_set_dropD)
  have n: "0 < n" by (simp add: n_def)
  obtain taken where "(scanLoop (shardKeys now) pattern n ?ss ?i ?pos [] =
        Some (filter (scanMatch pattern) taken, None) \<and> ahead ?K ?ss ?pos = taken) \<or>
    (\<exists>j q. scanLoop (shardKeys now) pattern n ?ss ?i ?pos [] =
        Some (filter (scanMatch pattern) taken, Some (?i + j, q)) \<and>
      ahead ?K ?ss ?pos = taken @ ahead ?K (drop j ?ss) q \<and> j < length ?ss \<and>
      q \<le> max ?pos (length (?K (?ss ! j))) \<and> length (filter (scanMatch pattern) taken) = n)"
    using scanLoop_spec [of ?ss "shardKeys now" "shard_list now" "[]" n pattern ?i ?pos] shardKeys_eq(1) sh(1)
    by auto
  then consider "scanLoop (shardKeys now) pattern n ?ss ?i ?pos [] = Some (filter (scanMatch pattern) taken, None)"
      "ahead ?K ?ss ?pos = taken"
    | j q where "scanLoop (shardKeys now) pattern n ?ss ?i ?pos [] =
        Some (filter (scanMatch pattern) taken, Some (?i + j, q))"
      "ahead ?K ?ss ?pos = taken @ ahead ?K (drop j ?ss) q" "j < length ?ss"
      "q \<le> max ?pos (length (?K (?ss ! j)))" "length (filter (scanMatch pattern) taken) = n"
    by blast
  then show ?thesis
  proof cases
    case 1
    then show ?thesis
      by (intro exI [of _ taken] exI [of _ 0]) (simp add: sc_Scan_def n_def [symmetric] scan_ahead_def)
  next
    case (2 j q)
    have mem: "?ss ! j \<in> set ?ss" using 2(3) by (rule nth_mem)
    have "length (?K (?ss ! j)) < 2 ^ 32"
      using le_less_trans [OF shardKeys_eq(2) [OF sh(1) [OF mem]] sh(2) [OF mem], of now] by simp
    then have q: "q < 2 ^ 32" using 2(4) cursor_bounds(2) [of cursor] by simp
    have ij: "?i + j < 2 ^ 32" using 2(3) ok unfolding scan_ok_def length_drop by linarith
    have t: "taken \<noteq> []" using 2(5) n by auto
    have "makeCursor (?i + j, q) \<noteq> 0"
    proof
      assume "makeCursor (?i + j, q) = 0"
      then have "?i = 0" "j = 0" "q = 0" using cursor_zero [OF ij q] by auto
      then have "length taken + length (ahead ?K ?ss 0) = length (ahead ?K ?ss ?pos)"
        using arg_cong [OF 2(2), of length] by simp
      with length_ahead [of ?K ?ss ?pos] t show False by (cases taken) simp_all
    qed
    with 2 t q ij show ?thesis
      by (intro exI [of _ taken] exI [of _ "makeCursor (?i + j, q)"])
        (simp add: sc_Scan_def n_def [symmetric] scan_ahead_def cursor_roundtrip add.commute)
  qed
qed

fun scanAll :: "nat \<Rightarrow> int \<Rightarrow> ShardedCache \<Rightarrow> 64 word \<Rightarrow> string \<Rightarrow> int \<Rightarrow> string list option" where
  "scanAll 0 now sc cursor pattern c = None"
| "scanAll (Suc fuel) now sc cursor pattern c =
     do { (res, next) \<leftarrow> sc_Scan now sc cursor pattern c;
          if next = 0 then Some res
          else do { rest \<leftarrow> scanAll fuel now sc next pattern c; Some (res @ rest) } }"

lemma scanAll_ahead:
  assumes ok: "scan_ok sc"
  shows "length (scan_ahead now sc cursor) < fuel \<Longrightarrow>
    scanAll fuel now sc cursor pattern c = Some (filter (scanMatch pattern) (scan_ahead now sc cursor))"
proof (induction fuel arbitrary: cursor)
  case (Suc fuel)
  from scan_step [OF ok, of now cursor pattern c] obtain taken "next" where
    st: "sc_Scan now sc cursor pattern c = Some (filter (scanMatch pattern) taken, next)"
    "scan_ahead now sc cursor = taken @ (if next = 0 then [] else scan_ahead now sc next)"
    "next \<noteq> 0 \<longrightarrow> taken \<noteq> []" by blast
  show ?case
  proof (cases "next = 0")
    case False
    with st Suc.prems have "length (scan_ahead now sc next) < fuel" by (cases taken) auto
    with Suc.IH [of "next"] st False show ?thesis by simp
  qed (use st in simp)
qed simp

lemma keysLoop_eq:
  assumes "\<And>s. s \<in> set ss \<Longrightarrow> shardKeys now s = Some (shard_list now s)"
  shows "keysLoop now pattern ss = Some (filter (scanMatch pattern) (concat (map (shard_list now) ss)))"
  using assms by (induction ss) auto


text \<open>
  C30: a complete \<open>Scan\<close>, repeated from cursor 0 until it returns cursor 0 on an unchanged cache, ends
  after at most one call per key and one more, and it returns every key that \<open>Keys\<close> lists for the
  pattern, as often as \<open>Keys\<close> does.
\<close>

theorem sc_Scan_complete:
  assumes ok: "scan_ok sc"
  shows "\<exists>keys all. sc_Keys now sc pattern = Some keys \<and>
    (\<forall>fuel > nat (sc_Len sc). scanAll fuel now sc 0 pattern c = Some all) \<and> mset all = mset keys"
proof -
  have ks: "shardKeys now s = Some (shard_list now s)" "length (shard_list now s) \<le> length (zs_index s)"
    if "s \<in> set (sc_shards sc)" for s
    using shardKeys_eq [of s now] ok that by (auto simp: scan_ok_def)
  have 0: "scan_ahead now sc 0 = concat (map (\<lambda>s. sort (shard_list now s)) (sc_shards sc))"
    by (simp add: scan_ahead_def cursorShard_def cursorPos_def ahead_0)
  have "int (length (concat (map (\<lambda>s. sort (shard_list now s)) ss))) \<le> (\<Sum>s \<leftarrow> ss. int (length (zs_index s)))"
    if "set ss \<subseteq> set (sc_shards sc)" for ss
    using that by (induction ss) (use ks(2) in \<open>force+\<close>)
  from this [OF order_refl] have len: "length (scan_ahead now sc 0) \<le> nat (sc_Len sc)"
    unfolding 0 sc_Len_def by linarith
  have "mset (concat (map (\<lambda>s. sort (shard_list now s)) ss)) = mset (concat (map (shard_list now) ss))" for ss
    by (induction ss) simp_all
  then have "mset (filter (scanMatch pattern) (scan_ahead now sc 0)) =
      mset (filter (scanMatch pattern) (concat (map (shard_list now) (sc_shards sc))))"
    by (simp add: 0 mset_filter)
  with keysLoop_eq [of "sc_shards sc" now pattern] ks(1) len show ?thesis
    by (auto simp: sc_Keys_def scanAll_ahead [OF ok])
qed

lemma cache_small_scan: "scan_ok cache_small"
  by (simp add: scan_ok_def cache_small_def)

theorem sc_Scan_complete_witness:
  "\<exists>all. scanAll 1 0 cache_small 0 ''*'' 10 = Some all \<and> sc_Keys 0 cache_small ''*'' = Some []"
proof -
  have "sc_Keys 0 cache_small ''*'' = Some []" "sc_Len cache_small = 0"
    by (simp_all add: sc_Len_def cache_small_def sc_Keys_def shardKeys_def)
  then show ?thesis
    using sc_Scan_complete [OF cache_small_scan, of 0 "''*''" 10] by force
qed

end
