(* ===== verification/StoreProps.thy ===== *)
theory StoreProps
  imports Store CacheScan
begin

text \<open>
  What the clients of the store rely on: the invariant \<open>st_ok\<close>, the live objects \<open>objs\<close> as a map from
  keys to typed values, and the contract \<open>typed_objects\<close> of the operations that change it. The
  properties concern the two halves of the store together, strings and objects, eviction and active
  expiry.
\<close>

section \<open>Invariant and view\<close>

definition st_ok :: "string set \<Rightarrow> Store \<Rightarrow> bool" where
  "st_ok K s \<longleftrightarrow> cache_inv K (st_cache s) \<and> dict_wf (st_objects s)"

definition objs :: "int \<Rightarrow> Store \<Rightarrow> string \<Rightarrow> typedValue option" where
  "objs now s key = map_option en_Value (dict_live now (st_objects s) key)"

definition noStr :: "int \<Rightarrow> Store \<Rightarrow> string \<Rightarrow> bool" where
  "noStr now s key \<longleftrightarrow> map_option snd (sc_Get now (st_cache s) key) = Some None"

lemma noStr_E:
  assumes "noStr now s key"
  obtains sc' where "sc_Get now (st_cache s) key = Some (sc', None)"
  using assms by (auto simp: noStr_def)

text \<open>A miss leaves a cache in which the key misses again, and nothing else changes there.\<close>

lemma sc_Get_miss:
  assumes inv: "cache_inv K sc" and miss: "sc_Get now sc key = Some (sc', None)"
  shows "sc_Get now sc' key = Some (sc', None)" "cache_inv K sc'"
proof -
  from miss have "sc' = sc \<or> sc' = setShard sc (sc_idx sc key)
      ((sc_shard sc key)\<lparr> zs_index := mdel (sc_hash sc key) (zs_index (sc_shard sc key)) \<rparr>)"
    by (auto simp: sc_Get_def sc_getShard_eq [OF inv] Let_def
        split: option.splits if_splits sum.splits Option.bind_splits)
  then show "sc_Get now sc' key = Some (sc', None)"
  proof
    assume s: "sc' = setShard sc (sc_idx sc key)
      ((sc_shard sc key)\<lparr> zs_index := mdel (sc_hash sc key) (zs_index (sc_shard sc key)) \<rparr>)"
    have "cache_inv K sc'" unfolding s
      by (intro cache_inv_setShard shard_inv_mdel cache_inv_shard inv)
    moreover have "mget (zs_index (sc_shard sc' key)) (sc_hash sc' key) = None"
      using sc_idx_bound [OF inv, of key] by (simp add: s go_map)
    ultimately show ?thesis by (simp add: sc_Get_def sc_getShard_eq)
  qed (use miss in simp)
  show "cache_inv K sc'" using sc_Get_total [OF inv, of now key] miss by auto
qed

lemma sc_Get_shards:
  assumes "sc_shards a = sc_shards b" "sc_shardCount a = sc_shardCount b" "sc_seed a = sc_seed b"
    "sc_skipLFU a = sc_skipLFU b"
  shows "map_option snd (sc_Get now a key) = map_option snd (sc_Get now b key)"
  using assms
  by (auto simp: sc_Get_def sc_hash_def sc_getShard_def Let_def split: option.splits sum.splits Option.bind_splits)

lemma slot_keeps:
  "sc_shards (slotAdd sc k) = sc_shards sc" "sc_shardCount (slotAdd sc k) = sc_shardCount sc"
  "sc_seed (slotAdd sc k) = sc_seed sc" "sc_skipLFU (slotAdd sc k) = sc_skipLFU sc"
  "sc_shards (slotRemove sc n ks) = sc_shards sc" "sc_shardCount (slotRemove sc n ks) = sc_shardCount sc"
  "sc_seed (slotRemove sc n ks) = sc_seed sc" "sc_skipLFU (slotRemove sc n ks) = sc_skipLFU sc"
  by (auto simp: slotAdd_def slotRemove_def Let_def split: option.splits)

lemma noStr_track [simp]:
  "noStr now (trackKey s k) key = noStr now s key" "noStr now (untrackKey s k) key = noStr now s key"
  using sc_Get_shards [OF slot_keeps(1-4), of now] sc_Get_shards [OF slot_keeps(5-8), of now]
  by (simp_all add: noStr_def trackKey_def untrackKey_def del: map_option_eq_Some split: option.splits)

lemma track_simps [simp]:
  "st_objects (trackKey s k) = st_objects s" "st_objects (untrackKey s k) = st_objects s"
  "st_ok K (trackKey s k) = st_ok K s" "st_ok K (untrackKey s k) = st_ok K s"
  "objs now (trackKey s k) = objs now s" "objs now (untrackKey s k) = objs now s"
  by (auto simp: trackKey_def untrackKey_def st_ok_def objs_def fun_eq_iff split: option.splits)

section \<open>The contract of the object half\<close>

locale typed_objects =
  fixes view :: "'s \<Rightarrow> string \<Rightarrow> typedValue option"
    and put_obj :: "'s \<Rightarrow> string \<Rightarrow> Value \<Rightarrow> 's option"
    and new_obj :: "'s \<Rightarrow> string \<Rightarrow> ValueType \<Rightarrow> Value \<Rightarrow> 's option"
    and rem_obj :: "'s \<Rightarrow> string \<Rightarrow> 's option"
    and ok :: "'s \<Rightarrow> bool"
  assumes put_law: "ok s \<Longrightarrow> view s k = Some tv \<Longrightarrow>
      \<exists>s'. put_obj s k v = Some s' \<and> ok s' \<and> view s' = (view s)(k \<mapsto> tv\<lparr> tv_Value := v \<rparr>)"
    and new_law: "ok s \<Longrightarrow>
      \<exists>s'. new_obj s k t v = Some s' \<and> ok s' \<and> view s' = (view s)(k \<mapsto> \<lparr> tv_Type = t, tv_Value = v \<rparr>)"
    and rem_law: "ok s \<Longrightarrow> \<exists>s'. rem_obj s k = Some s' \<and> ok s' \<and> view s' = (view s)(k := None)"
begin

text \<open>Storing a fresh object and filling it at once, and storing a result that may be empty.\<close>

lemma new_put:
  assumes "ok s"
  shows "\<exists>s1 s2. new_obj s k t v0 = Some s1 \<and> put_obj s1 k v = Some s2 \<and> ok s1 \<and> ok s2 \<and>
    view s2 = (view s)(k \<mapsto> \<lparr> tv_Type = t, tv_Value = v \<rparr>)"
proof -
  obtain s1 where s1: "new_obj s k t v0 = Some s1" "ok s1" "view s1 = (view s)(k \<mapsto> \<lparr> tv_Type = t, tv_Value = v0 \<rparr>)"
    using new_law [OF assms] by blast
  then have "view s1 k = Some \<lparr> tv_Type = t, tv_Value = v0 \<rparr>" by simp
  from put_law [OF s1(2) this] s1 show ?thesis by fastforce
qed

lemma put_or_rem:
  assumes "ok s" "view s k = Some tv"
  shows "\<exists>s'. (if e then rem_obj s k else put_obj s k v) = Some s' \<and> ok s' \<and>
    view s' = (view s)(k := if e then None else Some (tv\<lparr> tv_Value := v \<rparr>))"
  using put_law [OF assms, of v] rem_law [OF assms(1), of k] by auto

end

lemma setObject_law:
  assumes "st_ok K s" "objs now s k = Some tv"
  shows "\<exists>s'. setObject s k v = Some s' \<and> st_ok K s' \<and> st_cache s' = st_cache s \<and>
    objs now s' = (objs now s)(k \<mapsto> tv\<lparr> tv_Value := v \<rparr>)"
proof -
  from assms have wf: "dict_wf (st_objects s)" by (simp add: st_ok_def)
  from assms(2) obtain e where e: "dict_lookup (st_objects s) k = Some e" "\<not> IsExpired now e" "tv = en_Value e"
    by (auto simp: objs_def dict_live_def split: option.splits if_splits)
  let ?e = "e\<lparr> en_Value := (en_Value e)\<lparr> tv_Value := v \<rparr> \<rparr>"
  have "setObject s k v = Some (s\<lparr> st_objects := dict_put k ?e (st_objects s) \<rparr>)"
    using e(1) by (simp add: setObject_def dict_getShard_eq [OF wf] dict_put_def dict_lookup_def dict_items_def Let_def)
  moreover have "\<not> IsExpired now ?e" using e(2) by (simp add: IsExpired_def split: if_splits)
  ultimately show ?thesis
    using assms(1) e wf by (auto simp: st_ok_def objs_def dict_live_put dk.inv_insert fun_eq_iff)
qed

lemma newObject_law:
  assumes "st_ok K s"
  shows "\<exists>s'. newObject now s k t v 0 = Some s' \<and> st_ok K s' \<and> noStr now' s' = noStr now' s \<and>
    objs now s' = (objs now s)(k \<mapsto> \<lparr> tv_Type = t, tv_Value = v \<rparr>)"
proof -
  from assms have wf: "dict_wf (st_objects s)" by (simp add: st_ok_def)
  let ?tv = "\<lparr> tv_Type = t, tv_Value = v \<rparr>"
  let ?s = "s\<lparr> st_objects := dict_put k (newEntry now ?tv 0) (st_objects s) \<rparr>"
  have "\<not> IsExpired now (newEntry now ?tv 0)" "en_Value (newEntry now ?tv 0) = ?tv"
    by (simp_all add: IsExpired_def newEntry_def)
  then have "st_ok K ?s" "noStr now' ?s = noStr now' s" "objs now ?s = (objs now s)(k \<mapsto> ?tv)"
    using assms wf by (auto simp: st_ok_def noStr_def objs_def dict_live_put dk.inv_insert fun_eq_iff)
  then show ?thesis by (auto simp: newObject_def dict_Set_eq [OF wf] fun_eq_iff)
qed

lemma deleteObjectKey_law:
  assumes "st_ok K s"
  shows "\<exists>s'. deleteObjectKey s k = Some (s', dict_lookup (st_objects s) k \<noteq> None) \<and> st_ok K s' \<and>
    noStr now' s' = noStr now' s \<and> objs now s' = (objs now s)(k := None) \<and> sc_shards (st_cache s') = sc_shards (st_cache s) \<and>
    st_objects s' = dict_rem k (st_objects s) \<and> st_evictor s' = st_evictor s"
proof -
  from assms have wf: "dict_wf (st_objects s)" by (simp add: st_ok_def)
  let ?s = "s\<lparr> st_objects := dict_rem k (st_objects s) \<rparr>"
  have ok: "st_ok K ?s" "noStr now' ?s = noStr now' s" "objs now ?s = (objs now s)(k := None)"
    using assms wf by (auto simp: st_ok_def objs_def noStr_def dict_live_rem dk.inv_delete fun_eq_iff)
  show ?thesis
  proof (cases "dict_lookup (st_objects s) k")
    case None
    with ok wf show ?thesis by (auto simp: deleteObjectKey_def dict_Del1_eq Let_def)
  next
    case (Some e)
    have "st_cache (untrackKey ?s k) = st_cache s \<or> (\<exists>n ks. st_cache (untrackKey ?s k) = slotRemove (st_cache s) n ks)"
      "st_evictor (untrackKey ?s k) = st_evictor s"
      by (auto simp: untrackKey_def split: option.splits)
    with Some ok wf show ?thesis
      by (auto simp: deleteObjectKey_def dict_Del1_eq Let_def fun_eq_iff)
  qed
qed

interpretation ob: typed_objects "objs now" setObject "\<lambda>s k t v. newObject now s k t v 0" removeObjectKey
  "\<lambda>s. st_ok K s \<and> noStr now s key0"
proof
  fix s k tv v t
  show "st_ok K s \<and> noStr now s key0 \<Longrightarrow> objs now s k = Some tv \<Longrightarrow>
      \<exists>s'. setObject s k v = Some s' \<and> (st_ok K s' \<and> noStr now s' key0) \<and>
        objs now s' = (objs now s)(k \<mapsto> tv\<lparr> tv_Value := v \<rparr>)"
    using setObject_law [of K s now k tv v] by (auto simp: noStr_def)
  show "st_ok K s \<and> noStr now s key0 \<Longrightarrow>
      \<exists>s'. newObject now s k t v 0 = Some s' \<and> (st_ok K s' \<and> noStr now s' key0) \<and>
        objs now s' = (objs now s)(k \<mapsto> \<lparr> tv_Type = t, tv_Value = v \<rparr>)"
    using newObject_law [of K s now k t v now] by auto
  show "st_ok K s \<and> noStr now s key0 \<Longrightarrow>
      \<exists>s'. removeObjectKey s k = Some s' \<and> (st_ok K s' \<and> noStr now s' key0) \<and>
        objs now s' = (objs now s)(k := None)"
    using deleteObjectKey_law [of K s k now now] by (auto simp: removeObjectKey_def)
qed

text \<open>Reading an object changes its access statistics, and drops it when it has expired; the view
  stays.\<close>

lemma getObjectValue_law:
  assumes "st_ok K s"
  shows "\<exists>s'. getObjectValue now s k =
      Some (s', map_option (\<lambda>e. (en_Value e, UpdateAccessStats now e)) (dict_live now (st_objects s) k)) \<and>
    st_ok K s' \<and> st_cache s' = st_cache s \<and> objs now s' = objs now s \<and> st_evictor s' = st_evictor s"
proof -
  from assms have wf: "dict_wf (st_objects s)" by (simp add: st_ok_def)
  have val: "en_Value (UpdateAccessStats now e) = en_Value e" for e :: "typedValue Entry"
    by (simp add: UpdateAccessStats_def)
  show ?thesis
  proof (cases "dict_live now (st_objects s) k")
    case None
    with wf assms show ?thesis
      by (auto simp: getObjectValue_def dict_Get_eq objs_def dict_live_rem st_ok_def dk.inv_delete fun_eq_iff)
  next
    case (Some e)
    then have "\<not> IsExpired now e" by (auto simp: dict_live_def split: option.splits if_splits)
    with Some wf assms show ?thesis
      by (auto simp: getObjectValue_def dict_Get_eq objs_def dict_live_put st_ok_def dk.inv_insert fun_eq_iff val)
  qed
qed

lemma hasObjectKey_law:
  assumes "st_ok K s"
  shows "\<exists>s'. hasObjectKey now s k = Some (s', objs now s k \<noteq> None) \<and>
    st_ok K s' \<and> st_cache s' = st_cache s \<and> objs now s' = objs now s \<and> st_evictor s' = st_evictor s"
  using getObjectValue_law [OF assms, of now k] by (auto simp: hasObjectKey_def objs_def)

text \<open>A small store: one cache shard without entries, and one shard of objects.\<close>

definition store_small :: "(string, typedValue Entry) gomap \<Rightarrow> Store" where
  "store_small items =
     \<lparr> st_cache = cache_small,
       st_objects = \<lparr> d_shards = [items], d_shardCount = 1, d_seed = (\<lambda>k. of_nat (length k)) \<rparr>,
       st_evictor = None, st_maxMemory = 0, st_evictPolicy = ''noeviction'',
       st_stats = \<lparr> ss_Hits = 0, ss_Misses = 0, ss_SetOps = 0, ss_GetOps = 0, ss_DelOps = 0,
                    ss_ExpiredKeys = 0, ss_EvictedKeys = 0 \<rparr> \<rparr>"

lemma cache_small_miss: "sc_Get now cache_small key = Some (cache_small, None)"
proof -
  have "zs_index (sc_shard cache_small key) = []" by (simp add: sc_idx_def cache_small_def)
  then show ?thesis by (simp add: sc_Get_def sc_getShard_eq [OF cache_small_inv])
qed

lemma store_small_free:
  assumes "mwf items"
  shows "st_ok {''k''} (store_small items)" "noStr now (store_small items) key"
  using assms cache_small_inv
  by (simp_all add: st_ok_def store_small_def dict_wf_def dict_idx_def noStr_def cache_small_miss)

lemma store_small_objs [simp]:
  "objs now (store_small items) key = map_option en_Value
     (case mget items key of None \<Rightarrow> None | Some e \<Rightarrow> if IsExpired now e then None else Some e)"
  by (simp add: objs_def store_small_def dict_live_def dict_lookup_def dict_idx_def)

section \<open>Expiry times in the cache\<close>

text \<open>A property of the headers of all index entries that can be read.\<close>

definition all_headers :: "(EntryHeader \<Rightarrow> bool) \<Rightarrow> ShardedCache \<Rightarrow> bool" where
  "all_headers P sc \<longleftrightarrow>
     (\<forall>s \<in> set (sc_shards sc). \<forall>(h, raw) \<in> set (zs_index s).
        case ReadAt (zs_ring s) (sint raw) of Some (Inr (_, _, header)) \<Rightarrow> P header | _ \<Rightarrow> True)"

lemma sc_TTL_cases:
  assumes inv: "cache_inv K sc" and P: "all_headers P sc"
  obtains (missing) n where "sc_TTL now sc key = Some (n, False)"
    | (persistent) "sc_TTL now sc key = Some (-1, True)"
        "mget (zs_index (sc_shard sc key)) (sc_hash sc key) \<noteq> None"
    | (volatile) h where "P h" "sc_TTL now sc key = Some (i64 (eh_ExpireAt h - now), True)"
        "0 \<le> i64 (eh_ExpireAt h - now)" "mget (zs_index (sc_shard sc key)) (sc_hash sc key) \<noteq> None"
proof (cases "mget (zs_index (sc_shard sc key)) (sc_hash sc key)")
  case None
  then show ?thesis by (intro missing) (simp add: sc_TTL_def sc_getShard_eq [OF inv])
next
  case (Some raw)
  obtain r where r: "ReadAt (zs_ring (sc_shard sc key)) (sint raw) = Some r"
    using ReadAt_total [OF shard_ring [OF inv]] by blast
  show ?thesis
  proof (cases "isInlineInt raw")
    case True
    with Some show ?thesis by (intro persistent) (simp_all add: sc_TTL_def sc_getShard_eq [OF inv])
  next
    case False
    show ?thesis
    proof (cases r)
      case (Inl e)
      with Some r False show ?thesis by (intro missing) (simp add: sc_TTL_def sc_getShard_eq [OF inv])
    next
      case (Inr x)
      obtain k v h where x: "x = (k, v, h)" by (cases x)
      have "sc_shard sc key \<in> set (sc_shards sc)" "(sc_hash sc key, raw) \<in> set (zs_index (sc_shard sc key))"
        using sc_idx_bound [OF inv, of key] map_of_SomeD [OF Some] by simp_all
      with P r Inr x have "P h" by (fastforce simp: all_headers_def)
      with Some r False Inr x show ?thesis
        by (cases "eh_ExpireAt h = 0"; cases "i64 (eh_ExpireAt h - now) < 0")
          (auto simp: sc_TTL_def sc_getShard_eq [OF inv] Let_def intro: missing persistent volatile)
    qed
  qed
qed

lemma randomShardKeys_total:
  "ring_inv (zs_ring s) \<Longrightarrow> \<exists>ks. randomShardKeys now s n raws acc = Some ks"
proof (induction raws arbitrary: acc)
  case (Cons raw raws)
  obtain r where "ReadAt (zs_ring s) (sint raw) = Some r" using ReadAt_total [OF Cons.prems] by blast
  with Cons show ?case by (auto simp: keyForOffset_def)
qed simp

lemma sc_RandomKeys_total:
  assumes "cache_inv K sc"
  shows "\<exists>ks. sc_RandomKeys now sc n = Some ks"
proof -
  have "\<exists>ks. randomKeysLoop now n ss acc = Some ks" if "\<forall>s \<in> set ss. ring_inv (zs_ring s)" for ss acc
    using that
  proof (induction ss arbitrary: acc)
    case (Cons s ss)
    obtain ks where "randomShardKeys now s n (map snd (zs_index s)) acc = Some ks"
      using randomShardKeys_total [of s now n _ acc] Cons.prems by auto
    with Cons show ?case by auto
  qed simp
  then show ?thesis using assms by (auto simp: sc_RandomKeys_def cache_inv_def shard_inv_def)
qed

lemma i64_add_diff: "i64 (now + i64 (e - now)) = i64 e"
proof -
  have "i64 (now + i64 x) = i64 (now + x)" for x
  proof -
    have "(now + ((x + 2 ^ 63) mod 2 ^ 64 - 2 ^ 63) + 2 ^ 63) mod 2 ^ 64 = (now + x + 2 ^ 63) mod (2 ^ 64 :: int)"
      by (simp add: mod_simps add.assoc)
    then show ?thesis by (simp add: i64_def)
  qed
  then show ?thesis by simp
qed

section \<open>Properties\<close>

text \<open>
  the policy \<^verbatim>\<open>volatile-ttl\<close> never evicts. The search for the key that expires first starts from
  \<^verbatim>\<open>^int64(0) >> 1\<close>, which is -1, so no expiry time is ever smaller.
\<close>

theorem evictTTL_never:
  assumes inv: "cache_inv K sc" and hs: "all_headers (\<lambda>h. 0 \<le> eh_ExpireAt h \<and> is_i64 (eh_ExpireAt h)) sc"
  shows "evictTTL now sc = Some (sc, False)"
proof -
  have "bestTTL now sc keys [] (-1) = Some []" for keys
  proof (induction keys)
    case (Cons key keys)
    show ?case
      by (rule sc_TTL_cases [OF inv hs, of now key]) (use Cons in \<open>auto simp: i64_add_diff Let_def\<close>)
  qed simp
  moreover have "bestExpire0 = -1" by (simp add: bestExpire0_def)
  ultimately show ?thesis
    using sc_RandomKeys_total [OF inv, of now evictSampleCount] by (auto simp: evictTTL_def)
qed

text \<open>A cache with one key that expires at 5.\<close>

definition cache_ttl :: ShardedCache where
  "cache_ttl = (case sc_Set 0 cache_small ''k'' ''v'' 5 of Some (sc, _) \<Rightarrow> sc | None \<Rightarrow> cache_small)"

lemma cache_ttl_inv: "cache_inv {''k''} cache_ttl"
  using sc_Set_total [OF cache_small_inv, of "''k''" 0 "''v''" 5] by (auto simp: cache_ttl_def)

lemma cache_ttl_run:
  "all_headers (\<lambda>h. 0 \<le> eh_ExpireAt h \<and> is_i64 (eh_ExpireAt h)) cache_ttl"
  "sc_TTL 0 cache_ttl ''k'' = Some (5, True)" "sc_RandomKeys 0 cache_ttl 5 = Some [''k'']"
  by code_simp+

theorem evictTTL_never_witness:
  "sc_TTL 0 cache_ttl ''k'' = Some (5, True) \<and> evictTTL 0 cache_ttl = Some (cache_ttl, False)"
  using evictTTL_never [OF cache_ttl_inv cache_ttl_run(1), of 0] cache_ttl_run(2) by simp

subsection \<open>Active expiry\<close>

lemma mdel_length: "mwf m \<Longrightarrow> mget m k \<noteq> None \<Longrightarrow> int (length (mdel k m)) = int (length m) - 1"
proof -
  assume wf: "mwf m" and k: "mget m k \<noteq> None"
  have "length (mdel k m) = card (dom (mget (mdel k m)))" using wf by (simp add: mwf_card)
  also have "\<dots> = card (dom (mget m) - {k})" by (simp add: go_map)
  finally have "length (mdel k m) = length m - 1"
    using k by (simp add: mwf_card [OF wf] card_Diff_singleton domIff)
  moreover have "0 < length m" using k by (cases m) auto
  ultimately show ?thesis by linarith
qed

lemma sum_list_update_int:
  fixes f :: "'a \<Rightarrow> int"
  shows "i < length xs \<Longrightarrow> sum_list (map f (xs[i := y])) = sum_list (map f xs) - f (xs ! i) + f y"
  by (induction xs arbitrary: i) (auto split: nat.splits)

lemma sc_Delete_len:
  assumes inv: "cache_inv K sc" and key: "mget (zs_index (sc_shard sc key)) (sc_hash sc key) \<noteq> None"
  shows "\<exists>sc'. sc_Delete sc key = Some (sc', True) \<and> cache_inv K sc' \<and> sc_Len sc' = sc_Len sc - 1"
proof -
  let ?s = "sc_shard sc key" and ?h = "sc_hash sc key"
  let ?sc = "setShard sc (sc_idx sc key) (?s\<lparr> zs_index := mdel ?h (zs_index ?s) \<rparr>)"
  have "mwf (zs_index ?s)" using cache_inv_shard [OF inv, of key] by (simp add: shard_inv_def)
  then have "sc_Len ?sc = sc_Len sc - 1"
    using mdel_length [OF _ key] sum_list_update_int [OF sc_idx_bound [OF inv, of key]]
    by (simp add: sc_Len_def setShard_def)
  moreover have "cache_inv K ?sc" by (intro cache_inv_setShard [OF inv] shard_inv_mdel cache_inv_shard [OF inv])
  ultimately show ?thesis
    using key by (auto simp: sc_Delete_def sc_getShard_eq [OF inv] Let_def sc_Len_def split: option.splits)
qed

lemma all_headers_True: "all_headers (\<lambda>_. True) sc"
  by (auto simp: all_headers_def split: option.splits sum.splits)

lemma expireCacheKeys_total:
  "cache_inv K sc \<Longrightarrow> \<exists>sc' n. expireCacheKeys now sc keys = Some (sc', n) \<and> cache_inv K sc' \<and>
     sc_Len sc' = sc_Len sc - int n"
proof (induction keys arbitrary: sc)
  case (Cons key keys)
  obtain sc1 where del: "mget (zs_index (sc_shard sc key)) (sc_hash sc key) \<noteq> None \<longrightarrow>
      sc_Delete sc key = Some (sc1, True) \<and> cache_inv K sc1 \<and> sc_Len sc1 = sc_Len sc - 1"
    using sc_Delete_len [OF Cons.prems] by blast
  show ?case
  proof (rule sc_TTL_cases [OF Cons.prems all_headers_True, of now key])
    fix h assume *: "sc_TTL now sc key = Some (i64 (eh_ExpireAt h - now), True)"
      "mget (zs_index (sc_shard sc key)) (sc_hash sc key) \<noteq> None"
    show ?case
    proof (cases "i64 (eh_ExpireAt h - now) \<noteq> -1 \<and> i64 (eh_ExpireAt h - now) \<le> 0")
      case True
      with * del Cons.IH [of sc1] show ?thesis by fastforce
    next
      case False
      with * Cons.IH [OF Cons.prems] show ?thesis by auto
    qed
  qed (use Cons.IH [OF Cons.prems] in auto)
qed simp

lemma sc_Len_nonneg: "0 \<le> sc_Len sc"
  by (auto simp: sc_Len_def intro!: sum_list_nonneg)

lemma expireCache_total:
  "cache_inv K sc \<Longrightarrow> \<exists>sc'. expireCache now sc = Some sc' \<and> cache_inv K sc'"
proof (induction "nat (sc_Len sc)" arbitrary: sc rule: less_induct)
  case less
  obtain keys where keys: "sc_RandomKeys now sc expireScanCount = Some keys"
    using sc_RandomKeys_total [OF less.prems] by blast
  obtain sc1 n where sc1: "expireCacheKeys now sc keys = Some (sc1, n)" "cache_inv K sc1" "sc_Len sc1 = sc_Len sc - int n"
    using expireCacheKeys_total [OF less.prems] by blast
  show ?case
  proof (cases "keys = [] \<or> 4 * n < length keys")
    case True
    with keys sc1 less.prems show ?thesis by (subst expireCache.simps) auto
  next
    case False
    then have "0 < n" by (cases keys) auto
    then have "nat (sc_Len sc1) < nat (sc_Len sc)" using sc1(3) sc_Len_nonneg [of sc1] by linarith
    with less.hyps sc1(2) keys sc1(1) False show ?thesis by (subst expireCache.simps) auto
  qed
qed

lemma dict_TTL_law:
  assumes "dict_wf d"
  shows "\<exists>d'. dict_TTL now d k = (case dict_live now d k of
      None \<Rightarrow> Some (d', -2, False)
    | Some e \<Rightarrow> if en_expireAt e = 0 then Some (d', -1, True)
        else if i64 (en_expireAt e - now) < 0 then Some (d', -2, False)
        else Some (d', i64 (en_expireAt e - now), True)) \<and>
    dict_wf d' \<and> (\<forall>k'. map_option (\<lambda>e. (en_Value e, en_expireAt e)) (dict_live now d' k') =
      map_option (\<lambda>e. (en_Value e, en_expireAt e)) (dict_live now d k')) \<and>
    dom (dict_lookup d') \<subseteq> dom (dict_lookup d)"
proof (cases "dict_live now d k")
  case None
  then show ?thesis
    using assms by (auto simp: dict_TTL_def dict_Get_eq dict_live_rem dk.inv_delete dk.lookup_delete split: if_splits)
next
  case (Some e)
  then have e: "\<not> IsExpired now e" "dict_lookup d k = Some e"
    by (auto simp: dict_live_def split: option.splits if_splits)
  have u: "en_Value (UpdateAccessStats now e) = en_Value e" "en_expireAt (UpdateAccessStats now e) = en_expireAt e"
    by (simp_all add: UpdateAccessStats_def)
  show ?thesis
    using assms Some e u
    by (auto simp: dict_TTL_def dict_Get_eq dict_live_put dk.inv_insert dk.lookup_insert Let_def split: if_splits)
qed

lemma dict_finite: "dict_wf d \<Longrightarrow> finite (dom (dict_lookup d))"
proof -
  assume wf: "dict_wf d"
  have "dom (dict_lookup d) \<subseteq> set (map fst (dict_all d))"
    using dict_all_mem [OF wf] by (force simp: image_iff)
  then show ?thesis by (rule finite_subset) simp
qed

lemma dict_Len_mono:
  "dict_wf d \<Longrightarrow> dict_wf d' \<Longrightarrow> dom (dict_lookup d') \<subseteq> dom (dict_lookup d) \<Longrightarrow> dict_Len d' \<le> dict_Len d"
  by (simp add: dict_Len_eq card_mono dict_finite)

lemma dict_Len_rem:
  assumes "dict_wf d" "dict_lookup d k \<noteq> None"
  shows "dict_Len (dict_rem k d) = dict_Len d - 1"
proof -
  have "dom (dict_lookup (dict_rem k d)) = dom (dict_lookup d) - {k}"
    using assms by (auto simp: dk.lookup_delete split: if_splits)
  then show ?thesis
    using assms dict_finite [OF assms(1)] card_Diff_singleton [of k "dom (dict_lookup d)"]
      card_gt_0_iff [of "dom (dict_lookup d)"]
    by (auto simp: dict_Len_eq dk.inv_delete domIff)
qed

text \<open>Objects without expiry, or with time left, stay as they are.\<close>

definition keeps_live :: "int \<Rightarrow> typedValue Dict \<Rightarrow> typedValue Dict \<Rightarrow> bool" where
  "keeps_live now d d' \<longleftrightarrow> (\<forall>k e. dict_live now d k = Some e \<and> (en_expireAt e = 0 \<or> 0 < i64 (en_expireAt e - now)) \<longrightarrow>
     (\<exists>e'. dict_live now d' k = Some e' \<and> en_Value e' = en_Value e \<and> en_expireAt e' = en_expireAt e))"

lemma keeps_live_trans: "keeps_live now d d1 \<Longrightarrow> keeps_live now d1 d2 \<Longrightarrow> keeps_live now d d2"
  unfolding keeps_live_def by metis

lemma keeps_live_view:
  "\<forall>k'. map_option (\<lambda>e. (en_Value e, en_expireAt e)) (dict_live now d' k') =
      map_option (\<lambda>e. (en_Value e, en_expireAt e)) (dict_live now d k') \<Longrightarrow> keeps_live now d d'"
proof (unfold keeps_live_def, intro allI impI)
  fix k e
  assume v: "\<forall>k'. map_option (\<lambda>e. (en_Value e, en_expireAt e)) (dict_live now d' k') =
      map_option (\<lambda>e. (en_Value e, en_expireAt e)) (dict_live now d k')"
    and e: "dict_live now d k = Some e \<and> (en_expireAt e = 0 \<or> 0 < i64 (en_expireAt e - now))"
  show "\<exists>e'. dict_live now d' k = Some e' \<and> en_Value e' = en_Value e \<and> en_expireAt e' = en_expireAt e"
    using spec [OF v, of k] e by (cases "dict_live now d' k") simp_all
qed

lemma keeps_live_rem:
  "dict_wf d \<Longrightarrow> dict_live now d k = Some e \<Longrightarrow> en_expireAt e \<noteq> 0 \<Longrightarrow> i64 (en_expireAt e - now) \<le> 0 \<Longrightarrow>
     keeps_live now d (dict_rem k d)"
  by (auto simp: keeps_live_def dict_live_rem)

lemma expireObject_step:
  assumes ok: "st_ok K s"
  shows "\<exists>s' n. st_ok K s' \<and> dict_Len (st_objects s') \<le> dict_Len (st_objects s) - int n \<and>
    keeps_live now (st_objects s) (st_objects s') \<and>
    (\<forall>keys. expireObjectKeys now s (key # keys) =
       do { (s2, m) \<leftarrow> expireObjectKeys now s' keys; Some (s2, m + n) })"
proof -
  from ok have wf: "dict_wf (st_objects s)" by (simp add: st_ok_def)
  obtain d where d: "dict_TTL now (st_objects s) key = (case dict_live now (st_objects s) key of
      None \<Rightarrow> Some (d, -2, False)
    | Some e \<Rightarrow> if en_expireAt e = 0 then Some (d, -1, True)
        else if i64 (en_expireAt e - now) < 0 then Some (d, -2, False)
        else Some (d, i64 (en_expireAt e - now), True))" "dict_wf d"
    "\<forall>k'. map_option (\<lambda>e. (en_Value e, en_expireAt e)) (dict_live now d k') =
      map_option (\<lambda>e. (en_Value e, en_expireAt e)) (dict_live now (st_objects s) k')"
    "dom (dict_lookup d) \<subseteq> dom (dict_lookup (st_objects s))"
    using dict_TTL_law [OF wf] by blast
  let ?s = "s\<lparr> st_objects := d \<rparr>"
  have len: "dict_Len d \<le> dict_Len (st_objects s)" by (rule dict_Len_mono [OF wf d(2,4)])
  note keep = keeps_live_view [OF d(3)]
  have ok1: "st_ok K ?s" using ok d(2) by (simp add: st_ok_def)
  show ?thesis
  proof (cases "\<exists>e. dict_live now (st_objects s) key = Some e \<and> en_expireAt e \<noteq> 0 \<and> i64 (en_expireAt e - now) = 0")
    case False
    then have "expireObjectKeys now s (key # keys) = expireObjectKeys now ?s keys" for keys
      using d(1) by (cases "dict_live now (st_objects s) key") (auto simp: Let_def)
    moreover have "do { (s2, m) \<leftarrow> r; Some (s2, m + 0) } = r" for r :: "(Store \<times> nat) option"
      by (cases r) auto
    ultimately show ?thesis using ok1 len keep
      by (intro exI [of _ ?s] exI [of _ "0 :: nat"]) simp
  next
    case True
    then obtain e where e: "dict_live now (st_objects s) key = Some e" "en_expireAt e \<noteq> 0" "i64 (en_expireAt e - now) = 0"
      by blast
    from d(3) [rule_format, of key] e obtain e1 where e1: "dict_live now d key = Some e1" "en_expireAt e1 = en_expireAt e"
      by auto
    then have "dict_lookup d key \<noteq> None" by (auto simp: dict_live_def split: option.splits)
    moreover from this d(2) have "dict_Del d [key] = Some (dict_rem key d, 1)" by (simp add: dict_Del1_eq)
    moreover have "keeps_live now d (dict_rem key d)" by (rule keeps_live_rem [OF d(2) e1(1)]) (use e e1 in auto)
    moreover have "st_ok K (?s\<lparr> st_objects := dict_rem key d \<rparr>)"
      using ok d(2) by (simp add: st_ok_def dk.inv_delete)
    ultimately show ?thesis
      using d(1,2) e len keep dict_Len_rem [of d key]
      by (intro exI [of _ "untrackKey (?s\<lparr> st_objects := dict_rem key d \<rparr>) key"] exI [of _ 1])
        (auto simp: Let_def intro: keeps_live_trans)
  qed
qed

lemma expireObjectKeys_total:
  "st_ok K s \<Longrightarrow> \<exists>s' n. expireObjectKeys now s keys = Some (s', n) \<and> st_ok K s' \<and>
     dict_Len (st_objects s') \<le> dict_Len (st_objects s) - int n \<and> keeps_live now (st_objects s) (st_objects s')"
proof (induction keys arbitrary: s)
  case Nil
  then show ?case by (simp add: keeps_live_def)
next
  case (Cons key keys)
  obtain s1 n where s1: "st_ok K s1" "dict_Len (st_objects s1) \<le> dict_Len (st_objects s) - int n"
    "keeps_live now (st_objects s) (st_objects s1)"
    "expireObjectKeys now s (key # keys) = do { (s2, m) \<leftarrow> expireObjectKeys now s1 keys; Some (s2, m + n) }"
    using expireObject_step [OF Cons.prems, of now key] by blast
  obtain s2 m where s2: "expireObjectKeys now s1 keys = Some (s2, m)" "st_ok K s2"
    "dict_Len (st_objects s2) \<le> dict_Len (st_objects s1) - int m" "keeps_live now (st_objects s1) (st_objects s2)"
    using Cons.IH [OF s1(1)] by blast
  have "dict_Len (st_objects s2) \<le> dict_Len (st_objects s) - int (m + n)" using s1(2) s2(3) by simp
  with s1(4) s2(1,2) keeps_live_trans [OF s1(3) s2(4)] show ?case by simp
qed

lemma expireObjects_total:
  "st_ok K s \<Longrightarrow> \<exists>s'. expireObjects now s = Some s' \<and> st_ok K s' \<and> keeps_live now (st_objects s) (st_objects s')"
proof (induction "nat (dict_Len (st_objects s))" arbitrary: s rule: less_induct)
  case less
  obtain keys where keys: "dict_RandomKeys (st_objects s) expireScanCount = Some keys"
    by (simp add: dict_RandomKeys_def expireScanCount_def)
  obtain s1 n where s1: "expireObjectKeys now s keys = Some (s1, n)" "st_ok K s1"
    "dict_Len (st_objects s1) \<le> dict_Len (st_objects s) - int n" "keeps_live now (st_objects s) (st_objects s1)"
    using expireObjectKeys_total [OF less.prems] by blast
  show ?case
  proof (cases "keys = [] \<or> 4 * n < length keys")
    case True
    with keys s1 less.prems show ?thesis by (subst expireObjects.simps) (auto simp: keeps_live_def)
  next
    case False
    then have "0 < n" by (cases keys) auto
    moreover have "0 \<le> dict_Len (st_objects s1)" by (auto simp: dict_Len_def intro!: sum_list_nonneg)
    ultimately have "nat (dict_Len (st_objects s1)) < nat (dict_Len (st_objects s))" using s1(3) by linarith
    from less.hyps [OF this s1(2)] obtain s2 where s2: "expireObjects now s1 = Some s2" "st_ok K s2"
      "keeps_live now (st_objects s1) (st_objects s2)" by blast
    have "expireObjects now s = Some s2"
      using keys s1(1) s2(1) False by (subst expireObjects.simps) auto
    with s2(2) keeps_live_trans [OF s1(4) s2(3)] show ?thesis by blast
  qed
qed

text \<open>
  C32: a cycle of active expiry ends, whatever has expired: each further round has removed at least a
  quarter of its sample. It keeps the invariant of the store, and every object that has no expiry or
  time left.
\<close>

theorem activeExpireCycle_returns:
  assumes ok: "st_ok K s"
  shows "\<exists>s'. activeExpireCycle now s = Some s' \<and> st_ok K s' \<and>
    (\<forall>k e. dict_live now (st_objects s) k = Some e \<and> (en_expireAt e = 0 \<or> 0 < i64 (en_expireAt e - now)) \<longrightarrow>
       objs now s' k = objs now s k)"
proof -
  obtain sc where sc: "expireCache now (st_cache s) = Some sc" "cache_inv K sc"
    using expireCache_total [of K "st_cache s" now] ok by (auto simp: st_ok_def)
  then have "st_ok K (s\<lparr> st_cache := sc \<rparr>)" using ok by (simp add: st_ok_def)
  then obtain s' where s': "expireObjects now (s\<lparr> st_cache := sc \<rparr>) = Some s'" "st_ok K s'"
    "keeps_live now (st_objects s) (st_objects s')"
    using expireObjects_total [of K "s\<lparr> st_cache := sc \<rparr>" now] by auto
  have "objs now s' k = objs now s k"
    if "dict_live now (st_objects s) k = Some e" "en_expireAt e = 0 \<or> 0 < i64 (en_expireAt e - now)" for k e
    using s'(3) that unfolding keeps_live_def objs_def by fastforce
  with sc s'(1,2) show ?thesis by (auto simp: activeExpireCycle_def)
qed

definition store_exp :: Store where
  "store_exp = store_small [(''a'', newEntry 0 \<lparr> tv_Type = TypeList, tv_Value = VList [''x''] \<rparr> 0),
     (''b'', newEntry 0 \<lparr> tv_Type = TypeList, tv_Value = VList [''y''] \<rparr> 5)]"

theorem activeExpireCycle_returns_witness:
  "\<exists>s'. activeExpireCycle 9 store_exp = Some s' \<and> st_ok {''k''} s' \<and> objs 9 s' ''a'' = objs 9 store_exp ''a'' \<and>
     objs 9 store_exp ''a'' \<noteq> None"
proof -
  have "st_ok {''k''} store_exp" by (simp add: store_exp_def store_small_free mwf_def)
  moreover have "dict_live 9 (st_objects store_exp) ''a'' = Some (newEntry 0 \<lparr> tv_Type = TypeList, tv_Value = VList [''x''] \<rparr> 0)"
    by (simp add: store_exp_def store_small_def dict_live_def dict_lookup_def dict_idx_def newEntry_def IsExpired_def)
  ultimately show ?thesis
    using activeExpireCycle_returns [of "{''k''}" store_exp 9] by (fastforce simp: objs_def newEntry_def)
qed

text \<open>
  active expiry does not remove strings. The sample contains only keys that have not expired, and
  a key with time left is skipped: unless an entry expires at this very nanosecond, the cycle leaves the
  cache, with all its expired entries, unchanged.
\<close>

theorem expireCache_idle:
  assumes inv: "cache_inv K sc" and now: "is_i64 now"
    and hs: "all_headers (\<lambda>h. eh_ExpireAt h \<noteq> now \<and> is_i64 (eh_ExpireAt h)) sc"
  shows "expireCache now sc = Some sc"
proof -
  have nz: "i64 (e - now) \<noteq> 0" if "e \<noteq> now" "is_i64 e" for e
  proof
    assume "i64 (e - now) = 0"
    then have "i64 (now + i64 (e - now)) = now" using now by simp
    with that show False by (simp add: i64_add_diff)
  qed
  have "expireCacheKeys now sc keys = Some (sc, 0)" for keys
  proof (induction keys)
    case (Cons key keys)
    show ?case
      by (rule sc_TTL_cases [OF inv hs, of now key]) (use Cons nz in fastforce)+
  qed simp
  moreover obtain keys where "sc_RandomKeys now sc expireScanCount = Some keys"
    using sc_RandomKeys_total [OF inv] by blast
  ultimately show ?thesis by (subst expireCache.simps) auto
qed

lemma cache_ttl_run9:
  "all_headers (\<lambda>h. eh_ExpireAt h \<noteq> 9 \<and> is_i64 (eh_ExpireAt h)) cache_ttl" "sc_Len cache_ttl = 1"
  "sc_TTL 9 cache_ttl ''k'' = Some (- 2000000000, False)"
  by code_simp+

theorem expireCache_idle_witness:
  "sc_Len cache_ttl = 1 \<and> sc_TTL 9 cache_ttl ''k'' = Some (- 2000000000, False) \<and> expireCache 9 cache_ttl = Some cache_ttl"
  using expireCache_idle [OF cache_ttl_inv _ cache_ttl_run9(1)] cache_ttl_run9(2,3) by (simp add: is_i64_def)

subsection \<open>Strings and objects together\<close>

lemma cacheGet_law:
  assumes "st_ok K s"
  shows "\<exists>s' r. cacheGet now s key = Some (s', r) \<and> st_ok K s' \<and> st_objects s' = st_objects s \<and> st_evictor s' = st_evictor s"
  using sc_Get_total [of K "st_cache s" now key] assms by (auto simp: cacheGet_def GetCopy_eq st_ok_def)

lemma cacheSet_law:
  assumes "st_ok K s" "key \<in> K"
  shows "\<exists>s' r. cacheSet now s key val ttl = Some (s', r) \<and> st_ok K s' \<and> st_objects s' = st_objects s"
  using sc_Set_total [of K "st_cache s" key now val ttl] assms by (auto simp: cacheSet_def st_ok_def)

lemma cacheDelete_law:
  assumes "st_ok K s"
  shows "\<exists>s' r. cacheDelete s key = Some (s', r) \<and> st_ok K s' \<and> st_objects s' = st_objects s \<and> st_evictor s' = st_evictor s"
  using sc_Delete_total [of K "st_cache s" key] assms by (auto simp: cacheDelete_def st_ok_def)

lemma evictFirst_none: "st_evictor s = None \<Longrightarrow> evictFirst now mem s = Some s"
  by (simp add: evictFirst_def)

lemma count_simps [simp]:
  "st_ok K (countGet s) = st_ok K s" "st_ok K (countHit s) = st_ok K s" "st_ok K (countMiss s) = st_ok K s"
  "st_ok K (countSet s) = st_ok K s" "st_ok K (countDel s) = st_ok K s"
  "st_objects (countSet s) = st_objects s" "st_objects (countDel s) = st_objects s" "st_objects (countGet s) = st_objects s"
  "st_cache (countSet s) = st_cache s" "st_cache (countDel s) = st_cache s"
  "st_evictor (countSet s) = st_evictor s"
  by (simp_all add: st_ok_def countGet_def countHit_def countMiss_def countSet_def countDel_def)

definition absent :: "ShardedCache \<Rightarrow> string \<Rightarrow> bool" where
  "absent sc key \<longleftrightarrow> mget (zs_index (sc_shard sc key)) (sc_hash sc key) = None"

lemma absent_noStr: "st_ok K s \<Longrightarrow> absent (st_cache s) key \<Longrightarrow> noStr now s key"
  using sc_getShard_eq [of K "st_cache s" key] by (simp add: noStr_def absent_def sc_Get_def st_ok_def Let_def)

lemma sc_Delete_absent:
  assumes inv: "cache_inv K sc"
  shows "\<exists>sc'. sc_Delete sc key = Some (sc', \<not> absent sc key) \<and> cache_inv K sc' \<and> absent sc' key \<and>
    (\<forall>k. absent sc k \<longrightarrow> absent sc' k) \<and> (\<forall>k. sc_seed sc k \<noteq> sc_seed sc key \<longrightarrow> absent sc' k = absent sc k)"
proof (cases "absent sc key")
  case True
  then show ?thesis using inv by (simp add: sc_Delete_def sc_getShard_eq absent_def)
next
  case False
  let ?s = "sc_shard sc key"
  let ?sc = "setShard sc (sc_idx sc key) (?s\<lparr> zs_index := mdel (sc_hash sc key) (zs_index ?s) \<rparr>)"
  have "zs_index (sc_shards ?sc ! i) = (if i = sc_idx sc key then mdel (sc_hash sc key) (zs_index ?s) else zs_index (sc_shards sc ! i))"
    if "i < length (sc_shards sc)" for i
    using that by (simp add: setShard_def nth_list_update)
  then have abs: "absent ?sc key" "\<And>k. absent sc k \<Longrightarrow> absent ?sc k"
    "\<And>k. sc_seed sc k \<noteq> sc_seed sc key \<Longrightarrow> absent ?sc k = absent sc k"
    using sc_idx_bound [OF inv] by (auto simp: absent_def go_map sc_hash_def)
  have ok: "cache_inv K ?sc" by (intro cache_inv_setShard [OF inv] shard_inv_mdel cache_inv_shard [OF inv])
  from False obtain raw where "mget (zs_index ?s) (sc_hash sc key) = Some raw" by (auto simp: absent_def)
  then have "sc_Delete sc key = Some (case sc_slotFunc sc of None \<Rightarrow> ?sc | Some f \<Rightarrow> slotRemove ?sc (f key) [key], True)"
    by (simp add: sc_Delete_def sc_getShard_eq [OF inv] Let_def)
  with False abs ok show ?thesis by (auto simp: absent_def split: option.splits)
qed

lemma deleteObjectKey_absent:
  assumes "st_ok K s" "deleteObjectKey s key = Some (s', b)"
  shows "absent (st_cache s') k = absent (st_cache s) k"
  using assms(2)
  by (auto simp: deleteObjectKey_def untrackKey_def absent_def Let_def
      split: Option.bind_splits if_splits option.splits)

lemma st_Del_law:
  "st_ok K s \<Longrightarrow> set keys \<subseteq> K \<Longrightarrow> \<exists>s'. delLoop s keys =
      Some (s', int (card {k \<in> set keys. \<not> absent (st_cache s) k \<or> dict_lookup (st_objects s) k \<noteq> None})) \<and>
    st_ok K s' \<and> (\<forall>k. k \<in> set keys \<or> absent (st_cache s) k \<longrightarrow> absent (st_cache s') k) \<and>
    (\<forall>k. dict_lookup (st_objects s') k = (if k \<in> set keys then None else dict_lookup (st_objects s) k))"
proof (induction keys arbitrary: s)
  case (Cons key keys)
  let ?C = "\<lambda>s ks. {k \<in> set ks. \<not> absent (st_cache s) k \<or> dict_lookup (st_objects s) k \<noteq> None}"
  have inv: "cache_inv K (st_cache s)" using Cons.prems by (simp add: st_ok_def)
  obtain sc where sc: "sc_Delete (st_cache s) key = Some (sc, \<not> absent (st_cache s) key)" "cache_inv K sc"
    "absent sc key" "\<And>k. absent (st_cache s) k \<Longrightarrow> absent sc k"
    "\<And>k. sc_seed (st_cache s) k \<noteq> sc_seed (st_cache s) key \<Longrightarrow> absent sc k = absent (st_cache s) k"
    using sc_Delete_absent [OF inv, of key] by auto
  let ?s1 = "s\<lparr> st_cache := sc \<rparr>"
  have ok1: "st_ok K ?s1" using Cons.prems sc(2) by (simp add: st_ok_def)
  obtain s2 where s2: "deleteObjectKey ?s1 key = Some (s2, dict_lookup (st_objects s) key \<noteq> None)" "st_ok K s2"
    "st_objects s2 = dict_rem key (st_objects s)"
    using deleteObjectKey_law [OF ok1, of key] by auto
  have abs2: "absent (st_cache s2) k = absent sc k" for k using deleteObjectKey_absent [OF ok1 s2(1)] by simp
  have lk2: "dict_lookup (st_objects s2) k = (if k = key then None else dict_lookup (st_objects s) k)" for k
    using Cons.prems by (simp add: s2(3) dk.lookup_delete st_ok_def)
  obtain s3 where s3: "delLoop s2 keys = Some (s3, int (card (?C s2 keys)))" "st_ok K s3"
    "\<forall>k. k \<in> set keys \<or> absent (st_cache s2) k \<longrightarrow> absent (st_cache s3) k"
    "\<forall>k. dict_lookup (st_objects s3) k = (if k \<in> set keys then None else dict_lookup (st_objects s2) k)"
    using Cons.IH [OF s2(2)] Cons.prems(2) by auto
  have "sc_seed (st_cache s) k \<noteq> sc_seed (st_cache s) key" if "k \<in> set keys" "k \<noteq> key" for k
    using inv Cons.prems(2) that by (auto simp: cache_inv_def inj_on_def)
  then have "?C s2 keys = ?C s (key # keys) - {key}" using abs2 lk2 sc(3,5) by auto
  moreover have "(if key \<in> A then 1 else 0) + int (card (A - {key})) = int (card A)" if "finite A" for A
    using card_Suc_Diff1 [OF that, of key] by (cases "key \<in> A") simp_all
  from this [of "?C s (key # keys)"]
  have "(if \<not> absent (st_cache s) key \<or> dict_lookup (st_objects s) key \<noteq> None then 1 else 0) +
      int (card (?C s (key # keys) - {key})) = int (card (?C s (key # keys)))"
    by simp
  ultimately have "(if \<not> absent (st_cache s) key \<or> dict_lookup (st_objects s) key \<noteq> None then 1 else 0) +
      int (card (?C s2 keys)) = int (card (?C s (key # keys)))"
    by (simp only:)
  moreover have "delLoop s (key # keys) = Some (s3, (if \<not> absent (st_cache s) key \<or>
      dict_lookup (st_objects s) key \<noteq> None then 1 else 0) + int (card (?C s2 keys)))"
    using sc(1) s2(1) s3(1) by (simp add: cacheDelete_def)
  ultimately show ?case using s3 abs2 lk2 sc(3,4) by (intro exI [of _ s3]) auto
qed simp

text \<open>
  C31: \<open>Del\<close> removes a key completely, its string and its object: afterwards no string and no object is
  found under any of the keys, the objects under other keys are untouched, and the result counts the
  keys that were there, a repeated key once.
\<close>

theorem st_Del_removes:
  assumes ok: "st_ok K s" and keys: "set keys \<subseteq> K"
  shows "\<exists>s'. st_Del s keys =
      Some (s', int (card {k \<in> set keys. \<not> absent (st_cache s) k \<or> dict_lookup (st_objects s) k \<noteq> None})) \<and>
    st_ok K s' \<and> (\<forall>k \<in> set keys. noStr now s' k \<and> objs now s' k = None) \<and>
    (\<forall>k. k \<notin> set keys \<longrightarrow> objs now s' k = objs now s k)"
  using st_Del_law [of K "countDel s", OF _ keys] ok by (auto simp: st_Del_def absent_noStr objs_def dict_live_def)

theorem st_Del_removes_witness:
  "\<exists>s'. st_Del (store_small [(''k'', newEntry 0 \<lparr> tv_Type = TypeList, tv_Value = VList [''x''] \<rparr> 0)]) [''k'', ''k''] =
     Some (s', 1) \<and> noStr 0 s' ''k'' \<and> objs 0 s' ''k'' = None"
proof -
  let ?s = "store_small [(''k'', newEntry 0 \<lparr> tv_Type = TypeList, tv_Value = VList [''x''] \<rparr> 0)]"
  have "st_ok {''k''} ?s" "dict_lookup (st_objects ?s) ''k'' \<noteq> None"
    by (simp_all add: store_small_free mwf_def) (simp add: store_small_def dict_lookup_def dict_idx_def)
  moreover from this(2) have "{k \<in> set [''k'', ''k'']. \<not> absent (st_cache ?s) k \<or> dict_lookup (st_objects ?s) k \<noteq> None} = {''k''}"
    by auto
  ultimately show ?thesis using st_Del_removes [of "{''k''}" ?s "[''k'', ''k'']" 0] by auto
qed

lemma sc_Get_expired:
  assumes inv: "cache_inv K sc" and hold: "sc_holds sc key h v"
    and h: "is_i64 (eh_ExpireAt h)" "unat (eh_KeyLen h) = length key" "unat (eh_ValLen h) \<le> length v"
    and dead: "entryExpired now h"
  shows "\<exists>sc'. sc_Get now sc key = Some (sc', None) \<and> cache_inv K sc'"
proof -
  from hold obtain off where off: "mget (zs_index (sc_shard sc key)) (sc_hash sc key) = Some (word_of_int off)"
    "0 \<le> off" "off < 2 ^ 63" "holds (rb_data (zs_ring (sc_shard sc key))) off h key v"
    unfolding sc_holds_def by blast
  note w = offset_word [OF off(2,3)]
  have "\<exists>sc'. sc_Get now sc key = Some (sc', None)"
    using w off(1) dead ReadAt_prefix [OF off(4) shard_cap [OF inv] h]
    by (simp add: sc_Get_def sc_getShard_eq [OF inv] Let_def)
  then show ?thesis using sc_Get_miss(2) [OF inv] by blast
qed

lemma st_Set_new:
  assumes ok: "st_ok K s" "key \<in> K" and fits: "fits_in (st_cache s) key val" and new: "absent (st_cache s) key"
    and ev: "st_evictor s = None"
  shows "\<exists>s1. st_Set now mem s key val ttl = Some (s1, Inr ())"
proof -
  have inv: "cache_inv K (st_cache s)" using ok by (simp add: st_ok_def)
  obtain sc where "sc_Set now (st_cache s) key val ttl = Some (sc, Inr ())"
    using sc_Set_ok [OF inv ok(2) fits, of now ttl] new by (auto simp: absent_def)
  with ev show ?thesis by (simp add: st_Set_def evictFirst_none cacheSet_def)
qed

text \<open>
  \<open>Set\<close> over a key that holds an object does not remove the object. The string hides it while it
  lives; once the string has expired, the key is the old object again.
\<close>

theorem st_Set_shadows:
  assumes ok: "st_ok K s" "key \<in> K" and fits: "fits_in (st_cache s) key val" and new: "absent (st_cache s) key"
    and ev: "st_evictor s = None" and ttl: "0 < ttl" "0 < now + ttl" "is_i64 (now + ttl)" "now + ttl < later"
    and obj: "objs later s key \<noteq> None"
  shows "\<exists>s1. st_Set now mem s key val ttl = Some (s1, Inr ()) \<and>
    (\<exists>s2. st_Get now s1 key = Some (s2, Inr val)) \<and> (\<exists>s2. st_Get later s1 key = Some (s2, Inl ErrWrongType))"
proof -
  have inv: "cache_inv K (st_cache s)" using ok by (simp add: st_ok_def)
  let ?h = "newHeader now (sc_hash (st_cache s) key) key val ttl"
  obtain sc where sc: "sc_Set now (st_cache s) key val ttl = Some (sc, Inr ())" "cache_inv K sc" "sc_holds sc key ?h val"
    using sc_Set_ok [OF inv ok(2) fits, of now ttl] new by (auto simp: absent_def)
  have wf: "entry_wf ?h key val" using fits by (simp add: newHeader_wf)
  note lens = entry_wf_lens(3,4) [OF wf] newHeader_i64 [of now "sc_hash (st_cache s) key" key val ttl]
  let ?s1 = "(countSet s)\<lparr> st_cache := sc \<rparr>"
  have set_ok: "st_Set now mem s key val ttl = Some (?s1, Inr ())"
    using sc(1) ev by (simp add: st_Set_def evictFirst_none cacheSet_def)
  have "sc_Get now sc key = Some (sc, Some val)"
    using sc_Get_holds [OF sc(2,3), of now] lens newHeader_live [of ttl now now] ttl by simp
  then have get_now: "\<exists>s2. st_Get now ?s1 key = Some (s2, Inr val)"
    by (simp add: st_Get_def cacheGet_def GetCopy_eq countGet_def countSet_def)
  have "entryExpired later ?h" using ttl by (simp add: entryExpired_def newHeader_def)
  then obtain sc2 where sc2: "sc_Get later sc key = Some (sc2, None)" "cache_inv K sc2"
    using sc_Get_expired [OF sc(2,3)] lens by auto
  let ?s2 = "(countGet ?s1)\<lparr> st_cache := sc2 \<rparr>"
  have ok2: "st_ok K ?s2" using ok sc2(2) by (simp add: st_ok_def countGet_def countSet_def)
  have "objs later ?s2 key = objs later s key" by (simp add: objs_def countGet_def countSet_def)
  with obj hasObjectKey_law [OF ok2, of later key] obtain s3 where "hasObjectKey later ?s2 key = Some (s3, True)" by auto
  with sc2(1) have "\<exists>s2. st_Get later ?s1 key = Some (s2, Inl ErrWrongType)"
    by (simp add: st_Get_def cacheGet_def GetCopy_eq countGet_def countSet_def Let_def)
  with set_ok get_now show ?thesis by blast
qed

theorem st_Set_shadows_witness:
  "\<exists>s1. st_Set 0 0 (store_small [(''k'', newEntry 0 \<lparr> tv_Type = TypeList, tv_Value = VList [''x''] \<rparr> 0)]) ''k'' ''v'' 5 =
       Some (s1, Inr ()) \<and>
     (\<exists>s2. st_Get 0 s1 ''k'' = Some (s2, Inr ''v'')) \<and> (\<exists>s2. st_Get 6 s1 ''k'' = Some (s2, Inl ErrWrongType))"
proof (rule st_Set_shadows [of "{''k''}"])
  let ?s = "store_small [(''k'', newEntry 0 \<lparr> tv_Type = TypeList, tv_Value = VList [''x''] \<rparr> 0)]"
  show "st_ok {''k''} ?s" by (simp add: store_small_free mwf_def)
  show "fits_in (st_cache ?s) ''k'' ''v''"
    by (simp add: store_small_def) (simp add: cache_small_def ring_small_def esize_def)
  show "absent (st_cache ?s) ''k''" by (simp add: absent_def store_small_def) (simp add: cache_small_def)
  show "objs 6 ?s ''k'' \<noteq> None" by (simp add: newEntry_def IsExpired_def)
qed (simp_all add: store_small_def is_i64_def)

text \<open>
  a \<open>Scan\<close> whose last batch of strings has exactly the requested size returns cursor 0, which ends the
  iteration before the objects: a live object that \<open>Keys\<close> lists and that no string has the name of is
  never returned.
\<close>

theorem st_Scan_skips_objects:
  assumes wf: "dict_wf (st_objects s)" and p: "pattern \<noteq> ''*''" "pattern \<noteq> []" "matchPattern pattern k"
    and batch: "sc_Scan now (st_cache s) cursor pattern cnt = Some (batch, 0)" "0 < cnt" "int (length batch) = cnt"
    and phase: "cursor AND scanPhaseFlag = 0"
    and strs: "sc_Keys now (st_cache s) pattern = Some strs" "k \<notin> set batch"
    and obj: "objs now s k \<noteq> None"
  shows "st_Scan now s cursor pattern cnt = Some (batch, 0) \<and> (\<exists>keys. st_Keys now s pattern = Some keys \<and> k \<in> set keys)"
proof
  have "cursor AND NOT scanPhaseFlag = cursor"
  proof -
    have "cursor = (cursor AND scanPhaseFlag) OR (cursor AND NOT scanPhaseFlag)"
      by (simp flip: bit.conj_disj_distrib)
    with phase show ?thesis by simp
  qed
  with batch p phase show "st_Scan now s cursor pattern cnt = Some (batch, 0)" by (simp add: st_Scan_def Let_def)
  have k: "k \<in> set (dict_Keys now (st_objects s) pattern)"
    using obj p(3) dict_all_mem [OF wf] unfolding dict_Keys_eq objs_def dict_live_def
    by (force simp: image_iff split: option.splits if_splits)
  have "set (fold (\<lambda>key keys. if containsKey keys key then keys else keys @ [key]) ks acc) = set acc \<union> set ks" for ks acc
    by (induction ks arbitrary: acc) (auto simp: containsKey_def)
  with k strs(1) show "\<exists>keys. st_Keys now s pattern = Some keys \<and> k \<in> set keys" by (simp add: st_Keys_def)
qed

definition store_scan :: Store where
  "store_scan = (store_small [(''kk'', newEntry 0 \<lparr> tv_Type = TypeList, tv_Value = VList [''x''] \<rparr> 0)])
     \<lparr> st_cache := cache_ttl \<rparr>"

lemma cache_ttl_scan:
  "sc_Scan 0 cache_ttl 0 ''k*'' 1 = Some ([''k''], 0)" "sc_Keys 0 cache_ttl ''k*'' = Some [''k'']"
  "matchPattern ''k*'' ''kk''"
  by code_simp+

theorem st_Scan_skips_objects_witness:
  "st_Scan 0 store_scan 0 ''k*'' 1 = Some ([''k''], 0) \<and>
   (\<exists>keys. st_Keys 0 store_scan ''k*'' = Some keys \<and> ''kk'' \<in> set keys)"
proof (rule st_Scan_skips_objects)
  show "dict_wf (st_objects store_scan)"
    by (simp add: store_scan_def store_small_def dict_wf_def dict_idx_def mwf_def mkeys_def)
  show "objs 0 store_scan ''kk'' \<noteq> None"
    by (simp add: store_scan_def store_small_def objs_def dict_live_def dict_lookup_def dict_idx_def newEntry_def IsExpired_def)
  show "sc_Keys 0 (st_cache store_scan) ''k*'' = Some [''k'']" by (simp add: store_scan_def cache_ttl_scan)
qed (simp_all add: store_scan_def cache_ttl_scan)

end
