(* ===== verification/CollectionProps.thy ===== *)
theory CollectionProps
  imports Collections StoreProps
begin

text \<open>
  The collection operations refine operations on mathematical lists, maps and sets. A key without an
  object is the empty list, map or set; no operation leaves an empty collection behind. Each operation
  changes the view \<open>objs\<close> at its key only.
\<close>

section \<open>Reading\<close>

definition typed :: "ValueType \<Rightarrow> typedValue option \<Rightarrow> Value res" where
  "typed t ob =
     (case ob of
        None \<Rightarrow> Inl ErrKeyNotFound
      | Some tv \<Rightarrow> if tv_Type tv \<noteq> t then Inl ErrWrongType else Inr (tv_Value tv))"

abbreviation free_at :: "string set \<Rightarrow> int \<Rightarrow> string \<Rightarrow> Store \<Rightarrow> bool" where
  "free_at K now key s \<equiv> st_ok K s \<and> noStr now s key"

lemma cacheExists_free:
  assumes "free_at K now key s"
  shows "\<exists>s'. cacheExists now s key = Some (s', False) \<and> free_at K now key s' \<and> objs now s' = objs now s"
proof -
  from assms obtain sc where sc: "sc_Get now (st_cache s) key = Some (sc, None)" by (auto elim: noStr_E)
  have inv: "cache_inv K (st_cache s)" using assms by (simp add: st_ok_def)
  from sc sc_Get_miss [OF inv sc] show ?thesis
    using assms by (auto simp: cacheExists_def sc_Exists_def st_ok_def noStr_def objs_def fun_eq_iff)
qed

lemma getTyped_law:
  assumes "free_at K now key s"
  shows "\<exists>s'. getTyped now s key t = Some (s', typed t (objs now s key)) \<and> free_at K now key s' \<and>
    objs now s' = objs now s"
proof -
  obtain s1 where s1: "cacheExists now s key = Some (s1, False)" "free_at K now key s1" "objs now s1 = objs now s"
    using cacheExists_free [OF assms] by blast
  then have o: "objs now s key = map_option en_Value (dict_live now (st_objects s1) key)"
    by (metis objs_def)
  from s1 getObjectValue_law [of K s1 now key] show ?thesis
    by (cases "dict_live now (st_objects s1) key") (auto simp: getTyped_def typed_def o noStr_def)
qed

text \<open>A string under the key is a type error for every collection operation.\<close>

lemma getTyped_string:
  assumes "sc_Get now (st_cache s) key = Some (sc, Some v)"
  shows "getTyped now s key t = Some (s\<lparr> st_cache := sc \<rparr>, Inl ErrWrongType)"
  using assms by (simp add: getTyped_def cacheExists_def sc_Exists_def)

section \<open>Lists\<close>

definition list_obj :: "string list \<Rightarrow> typedValue option" where
  "list_obj xs = (if xs = [] then None else Some \<lparr> tv_Type = TypeList, tv_Value = VList xs \<rparr>)"

lemma typed_list_obj:
  "typed TypeList (list_obj xs) = (if xs = [] then Inl ErrKeyNotFound else Inr (VList xs))"
  by (simp add: typed_def list_obj_def)

lemma getListValue_law:
  assumes "free_at K now key s" "objs now s key = list_obj xs"
  shows "\<exists>s'. getListValue now s key = Some (s', if xs = [] then Inl ErrKeyNotFound else Inr xs) \<and>
    free_at K now key s' \<and> objs now s' = objs now s"
  using getTyped_law [OF assms(1), of TypeList] assms(2) by (auto simp: getListValue_def typed_list_obj)

lemma stringArgs_IStr [simp]: "stringArgs (map IStr xs) = Some xs"
  by (induction xs) simp_all

lemma fold_Cons: "fold Cons ys xs = rev ys @ xs"
  by (induction ys arbitrary: xs) simp_all

lemma pushList_law:
  assumes "free_at K now key s" "objs now s key = list_obj xs" "items \<noteq> []"
  shows "\<exists>s'. pushList now s key left (map IStr items) = Some (s', Inr (int (length xs + length items))) \<and>
    free_at K now key s' \<and> objs now s' = (objs now s)(key := list_obj (if left then rev items @ xs else xs @ items))"
proof -
  let ?ys = "if left then rev items @ xs else xs @ items"
  obtain s1 where s1: "getListValue now s key = Some (s1, if xs = [] then Inl ErrKeyNotFound else Inr xs)"
    "free_at K now key s1" "objs now s1 = objs now s"
    using getListValue_law [OF assms(1,2)] by blast
  have ys: "(if left then fold Cons items xs else xs @ items) = ?ys" "?ys \<noteq> []" "length ?ys = length xs + length items"
    using assms(3) by (auto simp: fold_Cons)
  show ?thesis
  proof (cases "xs = []")
    case True
    from ob.new_put [OF s1(2), of key TypeList "VList []" "VList ?ys"] True s1 ys assms(3) show ?thesis
      by (auto simp: pushList_def Let_def list_obj_def)
  next
    case False
    then have "objs now s1 key = Some \<lparr> tv_Type = TypeList, tv_Value = VList xs \<rparr>"
      using assms(2) s1(3) by (simp add: list_obj_def)
    from ob.put_law [OF s1(2) this, of "VList ?ys"] False s1 ys assms(3) show ?thesis
      by (auto simp: pushList_def Let_def list_obj_def)
  qed
qed

lemma popList_law:
  assumes "free_at K now key s" "objs now s key = list_obj xs"
  shows "\<exists>s'. popList now s key left =
      Some (s', if xs = [] then Inl ErrKeyNotFound else Inr (if left then hd xs else last xs)) \<and>
    free_at K now key s' \<and> objs now s' = (objs now s)(key := list_obj (if left then tl xs else butlast xs))"
proof -
  let ?ys = "if left then tl xs else butlast xs"
  obtain s1 where s1: "getListValue now s key = Some (s1, if xs = [] then Inl ErrKeyNotFound else Inr xs)"
    "free_at K now key s1" "objs now s1 = objs now s"
    using getListValue_law [OF assms] by blast
  show ?thesis
  proof (cases "xs = []")
    case True
    with s1 assms(2) show ?thesis by (auto simp: popList_def list_obj_def fun_eq_iff)
  next
    case False
    then have "objs now s1 key = Some \<lparr> tv_Type = TypeList, tv_Value = VList xs \<rparr>"
      using assms(2) s1(3) by (simp add: list_obj_def)
    from ob.put_or_rem [OF s1(2) this, of "?ys = []" "VList ?ys"] False s1 show ?thesis
      by (auto simp: popList_def Let_def list_obj_def)
  qed
qed

lemma rangeOf_trim: "normalizeRange (length xs) a b = None \<Longrightarrow> rangeOf xs a b = []"
  "normalizeRange (length xs) a b = Some r \<Longrightarrow> rangeOf xs a b = subrange xs r \<and> subrange xs r \<noteq> []"
  by (auto simp: rangeOf_def normalizeRange_def subrange_def Let_def split: if_splits)

lemma LTrim_law:
  assumes "free_at K now key s" "objs now s key = list_obj xs"
  shows "\<exists>s'. st_LTrim now s key a b = Some (s', Inr ()) \<and>
    free_at K now key s' \<and> objs now s' = (objs now s)(key := list_obj (rangeOf xs a b))"
proof -
  obtain s1 where s1: "getListValue now s key = Some (s1, if xs = [] then Inl ErrKeyNotFound else Inr xs)"
    "free_at K now key s1" "objs now s1 = objs now s"
    using getListValue_law [OF assms] by blast
  show ?thesis
  proof (cases "xs = []")
    case True
    with s1 assms(2) show ?thesis
      by (auto simp: st_LTrim_def list_obj_def fun_eq_iff rangeOf_def normalizeRange_def)
  next
    case False
    then have v: "objs now s1 key = Some \<lparr> tv_Type = TypeList, tv_Value = VList xs \<rparr>"
      using assms(2) s1(3) by (simp add: list_obj_def)
    show ?thesis
      using ob.rem_law [OF s1(2), of key] ob.put_law [OF s1(2) v, of "VList (rangeOf xs a b)"] False s1
        rangeOf_trim [of xs a b]
      by (cases "normalizeRange (length xs) a b") (auto simp: st_LTrim_def list_obj_def)
  qed
qed

lemma LSet_law:
  assumes "free_at K now key s" "objs now s key = list_obj xs"
  shows "\<exists>s'. st_LSet now s key i v = Some (s', case normalizeIndex (length xs) i of
        None \<Rightarrow> Inl ErrKeyNotFound | Some _ \<Rightarrow> Inr ()) \<and>
    free_at K now key s' \<and> objs now s' = (objs now s)(key := list_obj (case normalizeIndex (length xs) i of
        None \<Rightarrow> xs | Some j \<Rightarrow> xs[j := v]))"
proof -
  obtain s1 where s1: "getListValue now s key = Some (s1, if xs = [] then Inl ErrKeyNotFound else Inr xs)"
    "free_at K now key s1" "objs now s1 = objs now s"
    using getListValue_law [OF assms] by blast
  show ?thesis
  proof (cases "xs = []")
    case True
    with s1 assms(2) show ?thesis
      by (auto simp: st_LSet_def list_obj_def fun_eq_iff normalizeIndex_def)
  next
    case False
    then have v: "objs now s1 key = Some \<lparr> tv_Type = TypeList, tv_Value = VList xs \<rparr>"
      using assms(2) s1(3) by (simp add: list_obj_def)
    show ?thesis
    proof (cases "normalizeIndex (length xs) i")
      case None
      with False s1 assms(2) show ?thesis by (auto simp: st_LSet_def fun_eq_iff)
    next
      case (Some j)
      with ob.put_law [OF s1(2) v, of "VList (xs[j := v])"] False s1 show ?thesis
        by (auto simp: st_LSet_def list_obj_def)
    qed
  qed
qed

lemma list_reads:
  assumes "free_at K now key s" "objs now s key = list_obj xs"
  shows "\<exists>s'. free_at K now key s' \<and> objs now s' = objs now s \<and>
      st_LLen now s key = Some (s', Inr (int (length xs))) \<and>
      st_LRange now s key a b = Some (s', Inr (rangeOf xs a b)) \<and>
      st_LIndex now s key i = Some (s', case normalizeIndex (length xs) i of None \<Rightarrow> Inl ErrKeyNotFound | Some j \<Rightarrow> Inr (xs ! j))"
proof -
  obtain s' where s': "getListValue now s key = Some (s', if xs = [] then Inl ErrKeyNotFound else Inr xs)"
    "free_at K now key s'" "objs now s' = objs now s"
    using getListValue_law [OF assms] by blast
  show ?thesis
  proof (cases "xs = []")
    case True
    with s' show ?thesis
      by (auto simp: st_LLen_def st_LRange_def st_LIndex_def orMissing_def rangeOf_def normalizeRange_def normalizeIndex_def)
  next
    case False
    with s' show ?thesis
      by (auto simp: st_LLen_def st_LRange_def st_LIndex_def orMissing_def)
  qed
qed

section \<open>Maps and sets\<close>

text \<open>The object of type \<open>t\<close> under a key as a map; an empty map has no object.\<close>

definition map_obj :: "ValueType \<Rightarrow> ((string, 'v) gomap \<Rightarrow> Value) \<Rightarrow> (string \<rightharpoonup> 'v) \<Rightarrow> typedValue option \<Rightarrow> bool" where
  "map_obj t C M ob \<longleftrightarrow>
     (case ob of
        None \<Rightarrow> M = Map.empty
      | Some tv \<Rightarrow> \<exists>m. tv = \<lparr> tv_Type = t, tv_Value = C m \<rparr> \<and> mwf m \<and> m \<noteq> [] \<and> mget m = M)"

lemma map_obj_None [simp]: "map_obj t C M None \<longleftrightarrow> M = Map.empty"
  by (simp add: map_obj_def)

lemma map_obj_Some: "map_obj t C M (Some tv) \<longleftrightarrow>
    (\<exists>m. tv = \<lparr> tv_Type = t, tv_Value = C m \<rparr> \<and> mwf m \<and> m \<noteq> [] \<and> mget m = M)"
  by (simp add: map_obj_def)

lemma map_obj_E:
  assumes "map_obj t C M ob"
  obtains (missing) "ob = None" "M = Map.empty"
    | (present) m where "ob = Some \<lparr> tv_Type = t, tv_Value = C m \<rparr>" "mwf m" "m \<noteq> []" "mget m = M"
  using assms by (cases ob) (auto simp: map_obj_Some)

text \<open>Storing the result of an update: a fresh object, an existing one, or none when nothing is left.\<close>

lemma store_map:
  assumes ok: "free_at K now key s" and "objs now s key = Some \<lparr> tv_Type = t, tv_Value = v \<rparr>" "mwf m'"
  shows "\<exists>s'. (if m' = [] then removeObjectKey s key else setObject s key (C m')) = Some s' \<and>
    free_at K now key s' \<and> map_obj t C (mget m') (objs now s' key) \<and>
    (\<forall>k. k \<noteq> key \<longrightarrow> objs now s' k = objs now s k)"
  using ob.put_or_rem [OF ok assms(2), of "m' = []" "C m'"] assms(3)
  by (auto simp: map_obj_Some split: if_splits)

lemma store_map_put:
  assumes ok: "free_at K now key s" and "objs now s key = Some \<lparr> tv_Type = t, tv_Value = v \<rparr>" "mwf m'" "m' \<noteq> []"
  shows "\<exists>s'. setObject s key (C m') = Some s' \<and>
    free_at K now key s' \<and> map_obj t C (mget m') (objs now s' key) \<and>
    (\<forall>k. k \<noteq> key \<longrightarrow> objs now s' k = objs now s k)"
  using store_map [OF assms(1-3)] assms(4) by simp

lemma store_map_new:
  assumes ok: "free_at K now key s" and "mwf m'" "m' \<noteq> []"
  shows "\<exists>s1 s2. newObject now s key t v 0 = Some s1 \<and> setObject s1 key (C m') = Some s2 \<and>
    free_at K now key s2 \<and> map_obj t C (mget m') (objs now s2 key) \<and>
    (\<forall>k. k \<noteq> key \<longrightarrow> objs now s2 k = objs now s k)"
proof -
  obtain s1 s2 where "newObject now s key t v 0 = Some s1" "setObject s1 key (C m') = Some s2"
    "free_at K now key s2" "objs now s2 = (objs now s)(key \<mapsto> \<lparr> tv_Type = t, tv_Value = C m' \<rparr>)"
    using ob.new_put [OF ok, of key t v "C m'"] by blast
  with assms(2,3) show ?thesis by (auto simp: map_obj_Some)
qed

text \<open>The loops.\<close>

lemma remLoop_spec:
  assumes "mwf m"
  shows "\<exists>m'. remLoop m ks n = (m', n + int (card (set ks \<inter> dom (mget m)))) \<and> mwf m' \<and>
    mget m' = mget m |` (- set ks)"
  using assms
proof (induction ks arbitrary: m n)
  case (Cons k ks)
  show ?case
  proof (cases "mget m k")
    case None
    then have "set (k # ks) \<inter> dom (mget m) = set ks \<inter> dom (mget m)"
      "mget m |` (- set (k # ks)) = mget m |` (- set ks)"
      by (auto simp: restrict_map_def)
    with Cons None show ?thesis by simp
  next
    case (Some v)
    have d: "set (k # ks) \<inter> dom (mget m) = insert k (set ks \<inter> dom (mget (mdel k m)))"
      "k \<notin> set ks \<inter> dom (mget (mdel k m))" "mget (mdel k m) |` (- set ks) = mget m |` (- set (k # ks))"
      using Some by (auto simp: go_map restrict_map_def)
    then have "int (card (set (k # ks) \<inter> dom (mget m))) = 1 + int (card (set ks \<inter> dom (mget (mdel k m))))"
      by (simp only: d(1) card_insert_disjoint [OF finite_Int [OF disjI1, OF finite_set] d(2)])
    with Cons.IH [of "mdel k m" "n + 1"] Cons.prems Some d(3) show ?thesis by (simp add: add.assoc)
  qed
qed (simp add: restrict_map_def)

text \<open>An insertion loop: the map gets the pairs in order, and the counter counts the new keys.\<close>

definition putAll :: "(string \<times> 'v) list \<Rightarrow> (string, 'v) gomap \<Rightarrow> (string, 'v) gomap" where
  "putAll kvs m = fold (\<lambda>(k, v). mput k v) kvs m"

lemma putAll_spec:
  assumes "mwf m"
  shows "mwf (putAll kvs m)" "mget (putAll kvs m) = mget m ++ map_of (rev kvs)" "kvs \<noteq> [] \<Longrightarrow> putAll kvs m \<noteq> []"
proof -
  show "mwf (putAll kvs m)" unfolding putAll_def by (rule gm.inv_insert_all [OF assms])
  show g: "mget (putAll kvs m) = mget m ++ map_of (rev kvs)" unfolding putAll_def
    by (rule ext) (simp add: gm.lookup_insert_all [OF assms] map_add_def)
  assume "kvs \<noteq> []"
  then have "map_of (rev kvs) \<noteq> Map.empty" by (simp add: map_of_eq_empty_iff)
  with g show "putAll kvs m \<noteq> []" by auto
qed

lemma new_count:
  assumes "mwf m"
  shows "int (card (fst ` set ((k, v) # kvs) - dom (mget m))) =
    (if mget m k = None then 1 else 0) + int (card (fst ` set kvs - dom (mget (mput k v m))))"
proof (cases "mget m k")
  case None
  have "fst ` set ((k, v) # kvs) - dom (mget m) = insert k (fst ` set kvs - dom (mget (mput k v m)))"
    using None by (auto simp: go_map)
  moreover have "k \<notin> fst ` set kvs - dom (mget (mput k v m))" by (simp add: go_map)
  ultimately show ?thesis using None by simp
next
  case (Some w)
  then have "fst ` set ((k, v) # kvs) - dom (mget m) = fst ` set kvs - dom (mget (mput k v m))"
    by (auto simp: go_map)
  with Some show ?thesis by simp
qed

lemma zaddLoop_spec:
  "mwf m \<Longrightarrow> zaddLoop m zs n =
     (putAll (map (\<lambda>z. (zm_Member z, zm_Score z)) zs) m, n + int (card (zm_Member ` set zs - dom (mget m))))"
proof (induction zs arbitrary: m n)
  case (Cons z zs)
  have "int (card (zm_Member ` set (z # zs) - dom (mget m))) = (if mget m (zm_Member z) = None then 1 else 0) +
      int (card (zm_Member ` set zs - dom (mget (mput (zm_Member z) (zm_Score z) m))))"
    using new_count [OF Cons.prems, of "zm_Member z" "zm_Score z" "map (\<lambda>z. (zm_Member z, zm_Score z)) zs"]
    by (simp add: image_image)
  with Cons show ?case by (simp add: putAll_def)
qed (simp add: putAll_def)

lemma saddLoop_spec:
  "mwf m \<Longrightarrow> \<exists>m'. saddLoop m (map IStr xs) n = (m', Inr (n + int (card (set xs - dom (mget m))))) \<and>
     mwf m' \<and> mget m' = (\<lambda>k. if k \<in> set xs then Some () else mget m k)"
proof (induction xs arbitrary: m n)
  case (Cons x xs)
  have c: "int (card (set (x # xs) - dom (mget m))) =
      (if mget m x = None then 1 else 0) + int (card (set xs - dom (mget (mput x () m))))"
    using new_count [OF Cons.prems, of x "()" "map (\<lambda>x. (x, ())) xs"] by (simp add: image_image)
  show ?case
  proof (cases "mget m x")
    case None
    have e: "(\<lambda>k. if k \<in> set xs then Some () else mget (mput x () m) k) =
        (\<lambda>k. if k \<in> set (x # xs) then Some () else mget m k)"
      by (simp add: go_map fun_eq_iff)
    from Cons.IH [of "mput x () m" "n + 1"] Cons.prems have
      "\<exists>m'. saddLoop (mput x () m) (map IStr xs) (n + 1) =
           (m', Inr (n + 1 + int (card (set xs - dom (mget (mput x () m)))))) \<and>
         mwf m' \<and> mget m' = (\<lambda>k. if k \<in> set (x # xs) then Some () else mget m k)"
      unfolding e by simp
    with None c show ?thesis by (simp add: add.assoc)
  next
    case (Some u)
    have e: "(\<lambda>k. if k \<in> set xs then Some () else mget m k) = (\<lambda>k. if k \<in> set (x # xs) then Some () else mget m k)"
      "dom (mget (mput x () m)) = dom (mget m)"
      using Some by (auto simp: go_map fun_eq_iff)
    from Cons.IH [OF Cons.prems, of n] Some c show ?thesis unfolding e by simp
  qed
qed (simp add: fun_eq_iff)

lemma sremLoop_spec: "sremLoop m (map IStr xs) n = (fst (remLoop m xs n), Inr (snd (remLoop m xs n)))"
  by (induction xs arbitrary: m n) simp_all

definition hargs :: "(string \<times> string) list \<Rightarrow> iface list" where
  "hargs fvs = concat (map (\<lambda>(f, v). [IStr f, IStr v]) fvs)"

lemma hargs_simps [simp]: "hargs [] = []" "hargs ((f, v) # fvs) = IStr f # IStr v # hargs fvs"
  "even (length (hargs fvs))" "hargs fvs = [] \<longleftrightarrow> fvs = []"
  by (simp_all add: hargs_def) (induction fvs; auto)+

lemma hsetLoop_spec:
  "mwf m \<Longrightarrow> hsetLoop (Some m) (hargs fvs) n =
     Some (Some (putAll fvs m), Inr (n + int (card (fst ` set fvs - dom (mget m)))))"
proof (induction fvs arbitrary: m n)
  case (Cons fv fvs)
  obtain f v where fv: "fv = (f, v)" by (cases fv)
  with Cons new_count [OF Cons.prems, of f v fvs] show ?case by (simp add: putAll_def)
qed (simp add: putAll_def)

text \<open>\<open>has_map t C K now key M s\<close>: the store is sound, no string is under the key, and its object of type
  \<open>t\<close> is the map \<open>M\<close>. \<open>same_else\<close>: the objects under the other keys are the same.\<close>

definition has_map ::
    "ValueType \<Rightarrow> ((string, 'v) gomap \<Rightarrow> Value) \<Rightarrow> string set \<Rightarrow> int \<Rightarrow> string \<Rightarrow> (string \<rightharpoonup> 'v) \<Rightarrow> Store \<Rightarrow> bool" where
  "has_map t C K now key M s \<longleftrightarrow> free_at K now key s \<and> map_obj t C M (objs now s key)"

definition same_else :: "int \<Rightarrow> string \<Rightarrow> Store \<Rightarrow> Store \<Rightarrow> bool" where
  "same_else now key s s' \<longleftrightarrow> (\<forall>k. k \<noteq> key \<longrightarrow> objs now s' k = objs now s k)"

lemma has_map_free: "has_map t C K now key M s \<Longrightarrow> free_at K now key s"
  by (simp add: has_map_def)

text \<open>A read, in the two cases.\<close>

lemma has_map_read:
  assumes "has_map t C K now key M s"
  obtains (missing) s1 where "getTyped now s key t = Some (s1, Inl ErrKeyNotFound)" "M = Map.empty"
      "has_map t C K now key M s1" "same_else now key s s1" "objs now s1 key = None"
    | (present) s1 m where "getTyped now s key t = Some (s1, Inr (C m))" "mwf m" "m \<noteq> []" "M = mget m"
      "has_map t C K now key M s1" "same_else now key s s1"
      "objs now s1 key = Some \<lparr> tv_Type = t, tv_Value = C m \<rparr>"
proof -
  obtain s1 where s1: "getTyped now s key t = Some (s1, typed t (objs now s key))" "free_at K now key s1"
    "objs now s1 = objs now s"
    using getTyped_law [OF has_map_free [OF assms]] by blast
  moreover have "has_map t C K now key M s1" "same_else now key s s1"
    using assms s1 by (auto simp: has_map_def same_else_def)
  moreover from assms have "map_obj t C M (objs now s key)" by (simp add: has_map_def)
  ultimately show ?thesis
    by (elim map_obj_E) (auto simp: typed_def intro: missing present)
qed

lemma same_else_trans: "same_else now key s s1 \<Longrightarrow> same_else now key s1 s2 \<Longrightarrow> same_else now key s s2"
  by (simp add: same_else_def)

lemma store_present:
  assumes "has_map t C K now key M s1" "objs now s1 key = Some \<lparr> tv_Type = t, tv_Value = v \<rparr>" "mwf m'"
  shows "\<exists>s'. (if m' = [] then removeObjectKey s1 key else setObject s1 key (C m')) = Some s' \<and>
    has_map t C K now key (mget m') s' \<and> same_else now key s1 s'"
  using store_map [OF has_map_free [OF assms(1)] assms(2,3), of C] by (auto simp: has_map_def same_else_def)

lemma store_missing:
  assumes "has_map t C K now key M s1" "mwf m'" "m' \<noteq> []"
  shows "\<exists>s2 s'. newObject now s1 key t v 0 = Some s2 \<and> setObject s2 key (C m') = Some s' \<and>
    has_map t C K now key (mget m') s' \<and> same_else now key s1 s'"
  using store_map_new [OF has_map_free [OF assms(1)] assms(2,3), of t v C] by (auto simp: has_map_def same_else_def)

lemma sort_mkeys: "mwf m \<Longrightarrow> sort (mkeys m) = sorted_list_of_set (dom (mget m))"
  by (simp only: set_mkeys [symmetric] sorted_list_of_set_sort_remdups) (simp add: mwf_def mkeys_def distinct_remdups_id)

lemma mwf_length: "mwf m \<Longrightarrow> int (length m) = int (card (dom (mget m)))"
  by (simp add: mwf_card)

subsection \<open>Hashes\<close>

abbreviation "has_hash \<equiv> has_map TypeHash (\<lambda>m. VHash (Some m))"

lemma getHashValue_read:
  assumes "has_hash K now key M s"
  obtains (missing) s1 where "getHashValue now s key = Some (s1, Inl ErrKeyNotFound)" "M = Map.empty"
      "has_hash K now key M s1" "same_else now key s s1" "objs now s1 key = None"
    | (present) s1 m where "getHashValue now s key = Some (s1, Inr (Some m))" "mwf m" "m \<noteq> []" "M = mget m"
      "has_hash K now key M s1" "same_else now key s s1"
      "objs now s1 key = Some \<lparr> tv_Type = TypeHash, tv_Value = VHash (Some m) \<rparr>"
  by (rule has_map_read [OF assms]) (auto simp: getHashValue_def intro: missing present)

lemma HSet_law:
  assumes h: "has_hash K now key M s" and "fvs \<noteq> []"
  shows "\<exists>s'. st_HSet now s key (hargs fvs) = Some (s', Inr (int (card (fst ` set fvs - dom M)))) \<and>
    has_hash K now key (M ++ map_of (rev fvs)) s' \<and> same_else now key s s'"
  using h
proof (cases rule: getHashValue_read)
  case (missing s1)
  from store_missing [OF missing(3), of "putAll fvs []" "VHash (Some [])"] putAll_spec [of "[]" fvs] assms(2) missing
  show ?thesis by (auto simp: st_HSet_def hsetLoop_spec intro: same_else_trans)
next
  case (present s1 m)
  from store_present [OF present(5,7), of "putAll fvs m"] putAll_spec [of m fvs] assms(2) present
  show ?thesis by (auto simp: st_HSet_def hsetLoop_spec intro: same_else_trans)
qed

lemma HDel_law:
  assumes h: "has_hash K now key M s"
  shows "\<exists>s'. st_HDel now s key flds = Some (s', Inr (int (card (set flds \<inter> dom M)))) \<and>
    has_hash K now key (M |` (- set flds)) s' \<and> same_else now key s s'"
  using h
proof (cases rule: getHashValue_read)
  case (missing s1)
  then show ?thesis by (auto simp: st_HDel_def)
next
  case (present s1 m)
  obtain m' where m': "remLoop m flds 0 = (m', int (card (set flds \<inter> dom M)))" "mwf m'" "mget m' = M |` (- set flds)"
    using remLoop_spec [OF present(2), of flds 0] present(4) by auto
  from store_present [OF present(5,7) m'(2)] m' present show ?thesis
    by (auto simp: st_HDel_def hashMap_def intro: same_else_trans)
qed

lemma hash_reads:
  assumes h: "has_hash K now key M s"
  shows "\<exists>s'. has_hash K now key M s' \<and> same_else now key s s' \<and>
    st_HGet now s key f = Some (s', case M f of None \<Rightarrow> Inl ErrKeyNotFound | Some v \<Rightarrow> Inr v) \<and>
    st_HExists now s key f = Some (s', Inr (M f \<noteq> None)) \<and>
    st_HLen now s key = Some (s', Inr (int (card (dom M)))) \<and>
    st_HKeys now s key = Some (s', Inr (sorted_list_of_set (dom M))) \<and>
    st_HVals now s key = Some (s', Inr (map (\<lambda>f. the (M f)) (sorted_list_of_set (dom M))))"
  using h
proof (cases rule: getHashValue_read)
  case (missing s1)
  then show ?thesis
    by (auto simp: st_HGet_def st_HExists_def st_HLen_def st_HKeys_def st_HVals_def st_HGetAll_def orMissing_def mkeys_def)
next
  case (present s1 m)
  have "map (\<lambda>f. case mget m f of None \<Rightarrow> [] | Some v \<Rightarrow> v) (sort (mkeys m)) = map (\<lambda>f. the (mget m f)) (sort (mkeys m))"
    by (auto simp: set_mkeys)
  with present show ?thesis
    by (auto simp: st_HGet_def st_HExists_def st_HLen_def st_HKeys_def st_HVals_def st_HGetAll_def orMissing_def
        hashMap_def sort_mkeys mwf_length)
qed

subsection \<open>Sets\<close>

abbreviation "has_set \<equiv> has_map TypeSet VSet"

text \<open>The map of a set.\<close>

definition set_map :: "string set \<Rightarrow> string \<rightharpoonup> unit" where
  "set_map S k = (if k \<in> S then Some () else None)"

lemma set_map_simps [simp]: "dom (set_map S) = S" "set_map S k = None \<longleftrightarrow> k \<notin> S" "set_map {} = Map.empty"
  by (auto simp: set_map_def dom_def)

lemma set_map_empty: "set_map S = Map.empty \<longleftrightarrow> S = {}"
  by (auto simp: set_map_def fun_eq_iff)

lemma getSetValue_read:
  assumes "has_set K now key M s"
  obtains (missing) s1 where "getSetValue now s key = Some (s1, Inl ErrKeyNotFound)" "M = Map.empty"
      "has_set K now key M s1" "same_else now key s s1" "objs now s1 key = None"
    | (present) s1 m where "getSetValue now s key = Some (s1, Inr m)" "mwf m" "m \<noteq> []" "M = mget m"
      "has_set K now key M s1" "same_else now key s s1"
      "objs now s1 key = Some \<lparr> tv_Type = TypeSet, tv_Value = VSet m \<rparr>"
  by (rule has_map_read [OF assms]) (auto simp: getSetValue_def intro: missing present)

lemma SAdd_law:
  assumes h: "has_set K now key (set_map S) s" and "xs \<noteq> []"
  shows "\<exists>s'. st_SAdd now s key (map IStr xs) = Some (s', Inr (int (card (set xs - S)))) \<and>
    has_set K now key (set_map (S \<union> set xs)) s' \<and> same_else now key s s'"
  using h
proof (cases rule: getSetValue_read)
  case (missing s1)
  obtain m' where m': "saddLoop [] (map IStr xs) 0 = (m', Inr (int (card (set xs))))" "mwf m'"
    "mget m' = set_map (set xs)"
    using saddLoop_spec [of "[]" xs 0] by (auto simp: set_map_def fun_eq_iff)
  moreover have "mget m' \<noteq> Map.empty" using m'(3) assms(2) by (simp add: set_map_empty)
  then have "m' \<noteq> []" by auto
  ultimately show ?thesis
    using store_missing [OF missing(3), of m' "VSet []"] missing assms(2)
    by (auto simp: st_SAdd_def set_map_empty intro: same_else_trans)
next
  case (present s1 m)
  obtain m' where m': "saddLoop m (map IStr xs) 0 = (m', Inr (int (card (set xs - S))))" "mwf m'"
    "mget m' = set_map (S \<union> set xs)"
    using saddLoop_spec [OF present(2), of xs 0] by (auto simp: set_map_def fun_eq_iff present(4) [symmetric])
  moreover have "mget m' \<noteq> Map.empty" using m'(3) assms(2) by (simp add: set_map_empty)
  then have "m' \<noteq> []" by auto
  ultimately show ?thesis
    using store_present [OF present(5,7), of m'] present assms(2)
    by (auto simp: st_SAdd_def intro: same_else_trans)
qed

lemma set_map_restrict: "set_map S |` (- A) = set_map (S - A)"
  by (auto simp: set_map_def restrict_map_def fun_eq_iff)

lemma SRem_law:
  assumes h: "has_set K now key (set_map S) s"
  shows "\<exists>s'. st_SRem now s key (map IStr xs) = Some (s', Inr (int (card (set xs \<inter> S)))) \<and>
    has_set K now key (set_map (S - set xs)) s' \<and> same_else now key s s'"
  using h
proof (cases rule: getSetValue_read)
  case (missing s1)
  then show ?thesis by (auto simp: st_SRem_def set_map_empty)
next
  case (present s1 m)
  obtain m' where m': "remLoop m xs 0 = (m', int (card (set xs \<inter> S)))" "mwf m'" "mget m' = set_map (S - set xs)"
    using remLoop_spec [OF present(2), of xs 0] by (auto simp: set_map_restrict present(4) [symmetric])
  from store_present [OF present(5,7) m'(2)] m' present show ?thesis
    by (auto simp: st_SRem_def sremLoop_spec intro: same_else_trans)
qed

lemma set_reads:
  assumes h: "has_set K now key (set_map S) s"
  shows "\<exists>s'. has_set K now key (set_map S) s' \<and> same_else now key s s' \<and>
    st_SMembers now s key = Some (s', Inr (sorted_list_of_set S)) \<and>
    st_SIsMember now s key x = Some (s', Inr (x \<in> S)) \<and>
    st_SCard now s key = Some (s', Inr (int (card S)))"
  using h
proof (cases rule: getSetValue_read)
  case (missing s1)
  then show ?thesis
    by (auto simp: st_SMembers_def st_SIsMember_def st_SCard_def orMissing_def set_map_empty)
next
  case (present s1 m)
  have "dom (mget m) = S" "mget m x \<noteq> None \<longleftrightarrow> x \<in> S" by (simp_all add: present(4) [symmetric])
  with present show ?thesis
    by (auto simp: st_SMembers_def st_SIsMember_def st_SCard_def orMissing_def sort_mkeys mwf_length)
qed

subsection \<open>Sorted sets\<close>

abbreviation "has_zset \<equiv> has_map TypeZSet VZSet"

text \<open>The members by score, and by name where scores are equal.\<close>

definition ranking :: "(string \<rightharpoonup> float64) \<Rightarrow> ZMember list" where
  "ranking M = map (\<lambda>(sc, k). ZMember sc k) (sorted_list_of_set {(sc, k). M k = Some sc})"

lemma zmembers_facts:
  "zkey ` set (zmembers m) = (\<lambda>(k, sc). (sc, k)) ` set m" "map zm_Member (zmembers m) = mkeys m"
  "length (zmembers m) = length m"
  by (auto simp: zmembers_def zkey_def mkeys_def image_image case_prod_beta)

lemma sorted_ranking:
  assumes wf: "mwf m" and nan: "NaN \<notin> ran (mget m)"
  shows "sort_Slice zless (zmembers m) = ranking (mget m)"
proof -
  let ?zs = "sort_key zkey (zmembers m)"
  have "zm_Score z \<noteq> NaN" if "z \<in> set (zmembers m)" for z
  proof -
    from that obtain k sc where "z = ZMember sc k" "(k, sc) \<in> set m" by (auto simp: zmembers_def)
    with wf nan show ?thesis by (auto simp: mget_mem ran_def)
  qed
  then have eq: "sort_Slice zless (zmembers m) = ?zs" by (intro sort_zmembers) blast
  have "distinct (map zm_Member (zmembers m))"
    using wf by (simp add: zmembers_facts mwf_def mkeys_def)
  then have "distinct ?zs" by (simp add: distinct_map)
  then have "distinct (map zkey ?zs)" by (simp add: distinct_map zkey_inj)
  moreover have "sorted (map zkey ?zs)" by simp
  moreover have "set (map zkey ?zs) = {(sc, k). mget m k = Some sc}"
    using wf by (force simp: zmembers_facts mget_mem [symmetric])
  ultimately have "map zkey ?zs = sorted_list_of_set {(sc, k). mget m k = Some sc}"
    by (metis sorted_list_of_set.idem_if_sorted_distinct)
  then have "ranking (mget m) = map ((\<lambda>(sc, k). ZMember sc k) \<circ> zkey) ?zs"
    by (simp add: ranking_def map_map [symmetric] del: map_map)
  also have "\<dots> = ?zs" by (simp add: zkey_def map_idI)
  finally show ?thesis using eq by simp
qed

lemma getZSetValue_read:
  assumes "has_zset K now key M s"
  obtains (missing) s1 where "getZSetValue now s key = Some (s1, Inl ErrKeyNotFound)" "M = Map.empty"
      "has_zset K now key M s1" "same_else now key s s1" "objs now s1 key = None"
    | (present) s1 m where "getZSetValue now s key = Some (s1, Inr m)" "mwf m" "m \<noteq> []" "M = mget m"
      "has_zset K now key M s1" "same_else now key s s1"
      "objs now s1 key = Some \<lparr> tv_Type = TypeZSet, tv_Value = VZSet m \<rparr>"
  by (rule has_map_read [OF assms]) (auto simp: getZSetValue_def intro: missing present)

text \<open>Opening a sorted set for a write, then storing a result that is not empty.\<close>

lemma openZSet_store:
  assumes h: "has_zset K now key M s"
  shows "\<exists>s1 m. openZSet now s key = Some (s1, Inr m) \<and> mwf m \<and> mget m = M \<and>
    (\<forall>m'. mwf m' \<and> m' \<noteq> [] \<longrightarrow> (\<exists>s'. setObject s1 key (VZSet m') = Some s' \<and>
       has_zset K now key (mget m') s' \<and> same_else now key s s'))"
  using h
proof (cases rule: getZSetValue_read)
  case (missing s1)
  have "\<exists>s2. newObject now s1 key TypeZSet (VZSet []) 0 = Some s2 \<and>
      (\<forall>m'. mwf m' \<and> m' \<noteq> [] \<longrightarrow> (\<exists>s'. setObject s2 key (VZSet m') = Some s' \<and>
         has_zset K now key (mget m') s' \<and> same_else now key s1 s'))"
  proof -
    obtain s2 where s2: "newObject now s1 key TypeZSet (VZSet []) 0 = Some s2"
      using ob.new_law [OF has_map_free [OF missing(3)]] by blast
    with store_missing [OF missing(3), of _ "VZSet []"] show ?thesis by fastforce
  qed
  then obtain s2 where s2: "newObject now s1 key TypeZSet (VZSet []) 0 = Some s2"
    "\<And>m'. mwf m' \<Longrightarrow> m' \<noteq> [] \<Longrightarrow> \<exists>s'. setObject s2 key (VZSet m') = Some s' \<and>
         has_zset K now key (mget m') s' \<and> same_else now key s1 s'"
    by blast
  then have "\<forall>m'. mwf m' \<and> m' \<noteq> [] \<longrightarrow> (\<exists>s'. setObject s2 key (VZSet m') = Some s' \<and>
         has_zset K now key (mget m') s' \<and> same_else now key s s')"
    using same_else_trans [OF missing(4)] by blast
  with s2(1) missing show ?thesis by (auto simp: openZSet_def)
next
  case (present s1 m)
  have "\<exists>s'. setObject s1 key (VZSet m') = Some s' \<and> has_zset K now key (mget m') s' \<and> same_else now key s s'"
    if "mwf m'" "m' \<noteq> []" for m'
    using store_present [OF present(5,7) that(1)] that(2) present(6) by (auto intro: same_else_trans)
  with present show ?thesis by (auto simp: openZSet_def)
qed

lemma ZAdd_law:
  assumes h: "has_zset K now key M s" and "zs \<noteq> []"
  shows "\<exists>s'. st_ZAdd now s key zs = Some (s', Inr (int (card (zm_Member ` set zs - dom M)))) \<and>
    has_zset K now key (M ++ map_of (rev (map (\<lambda>z. (zm_Member z, zm_Score z)) zs))) s' \<and> same_else now key s s'"
proof -
  let ?kvs = "map (\<lambda>z. (zm_Member z, zm_Score z)) zs"
  obtain s1 m where s1: "openZSet now s key = Some (s1, Inr m)" "mwf m" "mget m = M"
    "\<And>m'. mwf m' \<Longrightarrow> m' \<noteq> [] \<Longrightarrow> \<exists>s'. setObject s1 key (VZSet m') = Some s' \<and>
       has_zset K now key (mget m') s' \<and> same_else now key s s'"
    using openZSet_store [OF h] by blast
  note p = putAll_spec [OF s1(2), of ?kvs]
  from s1(4) [OF p(1) p(3)] p(2) s1(1,2,3) assms(2) show ?thesis by (auto simp: st_ZAdd_def zaddLoop_spec)
qed

lemma ZIncrBy_law:
  assumes h: "has_zset K now key M s"
  shows "\<exists>s'. st_ZIncrBy rnd now s key x delta =
      Some (s', Inr (fadd rnd (case M x of None \<Rightarrow> Fin 0 | Some y \<Rightarrow> y) delta)) \<and>
    has_zset K now key (M(x \<mapsto> fadd rnd (case M x of None \<Rightarrow> Fin 0 | Some y \<Rightarrow> y) delta)) s' \<and> same_else now key s s'"
proof -
  let ?y = "fadd rnd (case M x of None \<Rightarrow> Fin 0 | Some y \<Rightarrow> y) delta"
  obtain s1 m where s1: "openZSet now s key = Some (s1, Inr m)" "mwf m" "mget m = M"
    "\<And>m'. mwf m' \<Longrightarrow> m' \<noteq> [] \<Longrightarrow> \<exists>s'. setObject s1 key (VZSet m') = Some s' \<and>
       has_zset K now key (mget m') s' \<and> same_else now key s s'"
    using openZSet_store [OF h] by blast
  have "mput x ?y m \<noteq> []" by (cases m) (auto split: if_splits)
  from s1(4) [OF mwf_mput [OF s1(2)] this] s1(1,3) show ?thesis by (auto simp: st_ZIncrBy_def go_map)
qed

lemma ZRem_law:
  assumes h: "has_zset K now key M s"
  shows "\<exists>s'. st_ZRem now s key xs = Some (s', Inr (int (card (set xs \<inter> dom M)))) \<and>
    has_zset K now key (M |` (- set xs)) s' \<and> same_else now key s s'"
  using h
proof (cases rule: getZSetValue_read)
  case (missing s1)
  then show ?thesis by (auto simp: st_ZRem_def)
next
  case (present s1 m)
  obtain m' where m': "remLoop m xs 0 = (m', int (card (set xs \<inter> dom M)))" "mwf m'" "mget m' = M |` (- set xs)"
    using remLoop_spec [OF present(2), of xs 0] present(4) by auto
  from store_present [OF present(5,7) m'(2)] m' present show ?thesis
    by (auto simp: st_ZRem_def intro: same_else_trans)
qed

lemma zrankLoop_spec:
  assumes "distinct (map zm_Member zs)" "i < length zs"
  shows "zrankLoop (zm_Member (zs ! i)) n zs = Inr (n + int i)"
  using assms
proof (induction zs arbitrary: i n)
  case (Cons z zs)
  show ?case
  proof (cases i)
    case (Suc j)
    with Cons.prems have "zm_Member z \<noteq> zm_Member (zs ! j)" by auto
    with Cons Suc show ?thesis by simp
  qed simp
qed simp

lemma zrankLoop_missing: "x \<notin> zm_Member ` set zs \<Longrightarrow> zrankLoop x n zs = Inl ErrKeyNotFound"
  by (induction zs arbitrary: n) auto

lemma rangeOf_all: "rangeOf xs 0 (-1) = xs"
  by (auto simp: rangeOf_def normalizeRange_def subrange_def Let_def)

lemma ranking_empty [simp]: "ranking Map.empty = []"
  by (simp add: ranking_def)

lemma zset_reads:
  assumes h: "has_zset K now key M s" and nan: "NaN \<notin> ran M"
  shows "\<exists>s'. has_zset K now key M s' \<and> same_else now key s s' \<and>
    st_ZRangeWithScores now s key a b = Some (s', Inr (rangeOf (ranking M) a b)) \<and>
    st_ZRange now s key a b = Some (s', Inr (map zm_Member (rangeOf (ranking M) a b))) \<and>
    st_ZRevRange now s key a b = Some (s', Inr (map zm_Member (rangeOf (rev (ranking M)) a b))) \<and>
    st_ZScore now s key x = Some (s', case M x of None \<Rightarrow> Inl ErrKeyNotFound | Some y \<Rightarrow> Inr y) \<and>
    st_ZCard now s key = Some (s', Inr (int (card (dom M)))) \<and>
    st_ZRank now s key x = Some (s', zrankLoop x 0 (ranking M))"
  using h
proof (cases rule: getZSetValue_read)
  case (missing s1)
  then show ?thesis
    by (auto simp: st_ZRangeWithScores_def st_ZRange_def st_ZRevRange_def st_ZScore_def st_ZCard_def st_ZRank_def
        sortedZMembers_def orMissing_def rangeOf_def normalizeRange_def)
next
  case (present s1 m)
  from nan present(4) have "sort_Slice zless (zmembers m) = ranking M" using sorted_ranking [OF present(2)] by simp
  with present show ?thesis
    by (auto simp: st_ZRangeWithScores_def st_ZRange_def st_ZRevRange_def st_ZScore_def st_ZCard_def st_ZRank_def
        sortedZMembers_def orMissing_def mwf_length rangeOf_all)
qed

section \<open>Properties\<close>

lemma filter_upt: "filter (\<lambda>i. lo \<le> i \<and> i < hi) [0..<n] = [lo..<min hi n]"
proof (induction n)
  case (Suc n)
  show ?case
  proof (cases "lo \<le> n \<and> n < hi")
    case True
    then have "min hi n = n" "min hi (Suc n) = Suc n" by auto
    with True Suc show ?thesis by simp
  next
    case False
    then have "[lo..<min hi n] = [lo..<min hi (Suc n)]" by (cases "n < lo") (auto simp: min_def)
    with False Suc show ?thesis by simp
  qed
qed simp

lemma map_nth_upt: "hi \<le> length xs \<Longrightarrow> map ((!) xs) [lo..<hi] = take (hi - lo) (drop lo xs)"
  by (rule nth_equalityI) auto

lemma nat_min_Suc: "0 \<le> b \<Longrightarrow> 0 < n \<Longrightarrow> nat (min b (int n - 1)) + 1 = min (nat (b + 1)) n"
  by (cases "b < int n") auto

lemma rangeOf_take:
  assumes a: "a = (if start < 0 then int (length xs) + start else start)"
    and b: "b = (if stop < 0 then int (length xs) + stop else stop)"
  shows "rangeOf xs start stop = take (min (nat (b + 1)) (length xs) - nat a) (drop (nat a) xs)"
proof (cases "max a 0 \<le> min b (int (length xs) - 1)")
  case True
  then have ne: "xs \<noteq> []" "0 \<le> b" by auto
  have "normalizeRange (length xs) start stop = Some (nat (max a 0), nat (min b (int (length xs) - 1)))"
    unfolding normalizeRange_def Let_def a [symmetric] b [symmetric] using True ne by (auto simp: min_def max_def)
  moreover have "nat (max a 0) = nat a" by simp
  moreover have "nat (min b (int (length xs) - 1)) + 1 = min (nat (b + 1)) (length xs)"
    using ne by (intro nat_min_Suc) auto
  ultimately show ?thesis by (simp only: rangeOf_def subrange_def option.case fst_conv snd_conv)
next
  case False
  then have "normalizeRange (length xs) start stop = None"
    unfolding normalizeRange_def Let_def a [symmetric] b [symmetric] by (auto simp: min_def max_def split: if_splits)
  moreover have "xs = [] \<or> min (nat (b + 1)) (length xs) \<le> nat a"
  proof (cases "xs = []")
    case ne: False
    with False have "b < 0 \<or> b < a \<or> int (length xs) \<le> a" by (auto simp: min_def max_def split: if_splits)
    then show ?thesis by (auto simp: min_def)
  qed simp
  ultimately show ?thesis by (auto simp: rangeOf_def)
qed

text \<open>
  an index range of a list is what Redis documents: the elements whose index lies between the two
  ends, where a negative end counts from the end of the list, whatever the ends are.
\<close>

theorem rangeOf_spec:
  "rangeOf xs start stop =
     map ((!) xs) (filter (\<lambda>i. (if start < 0 then int (length xs) + start else start) \<le> int i \<and>
       int i \<le> (if stop < 0 then int (length xs) + stop else stop)) [0..<length xs])"
proof -
  define a where "a = (if start < 0 then int (length xs) + start else start)"
  define b where "b = (if stop < 0 then int (length xs) + stop else stop)"
  have f: "filter (\<lambda>i. a \<le> int i \<and> int i \<le> b) [0..<length xs] =
      filter (\<lambda>i. nat a \<le> i \<and> i < nat (b + 1)) [0..<length xs]"
    by (rule filter_cong) auto
  show ?thesis
    unfolding a_def [symmetric] b_def [symmetric] f filter_upt rangeOf_take [OF a_def b_def]
    by (simp add: map_nth_upt)
qed



text \<open>
  C7: the hash operations implement a map from fields to values: \<open>HSet\<close> stores the pairs in order and
  counts the new fields, \<open>HDel\<close> removes fields and counts those that were there, and the reads return
  the map, its size and its fields and values in the order of the field names.
\<close>

theorem hash_refines:
  assumes h: "has_hash K now key M s"
  shows "(fvs \<noteq> [] \<longrightarrow> (\<exists>s'. st_HSet now s key (hargs fvs) = Some (s', Inr (int (card (fst ` set fvs - dom M)))) \<and>
      has_hash K now key (M ++ map_of (rev fvs)) s' \<and> same_else now key s s')) \<and>
    (\<exists>s'. st_HDel now s key flds = Some (s', Inr (int (card (set flds \<inter> dom M)))) \<and>
      has_hash K now key (M |` (- set flds)) s' \<and> same_else now key s s') \<and>
    (\<exists>s'. has_hash K now key M s' \<and> same_else now key s s' \<and>
      st_HGet now s key f = Some (s', case M f of None \<Rightarrow> Inl ErrKeyNotFound | Some v \<Rightarrow> Inr v) \<and>
      st_HExists now s key f = Some (s', Inr (M f \<noteq> None)) \<and>
      st_HLen now s key = Some (s', Inr (int (card (dom M)))) \<and>
      st_HKeys now s key = Some (s', Inr (sorted_list_of_set (dom M))) \<and>
      st_HVals now s key = Some (s', Inr (map (\<lambda>f. the (M f)) (sorted_list_of_set (dom M)))))"
  by (intro conjI impI HSet_law HDel_law hash_reads h)

lemma has_map_small: "has_map t C {''k''} now key Map.empty (store_small [])"
  by (simp add: has_map_def store_small_free)

theorem hash_refines_witness:
  "\<exists>s'. st_HSet 0 (store_small []) ''h'' (hargs [(''a'', ''1''), (''a'', ''2'')]) = Some (s', Inr 1) \<and>
     has_hash {''k''} 0 ''h'' [''a'' \<mapsto> ''2''] s'"
  using hash_refines [OF has_map_small, of "[(''a'', ''1''), (''a'', ''2'')]" 0 "''h''" "[]" "[]"] by auto

text \<open>
  C8: the set operations implement a set of strings: \<open>SAdd\<close> and \<open>SRem\<close> are union and difference and
  count the members they changed, \<open>SMembers\<close> lists the set in order, without repetition.
\<close>

theorem set_refines:
  assumes h: "has_set K now key (set_map S) s"
  shows "(xs \<noteq> [] \<longrightarrow> (\<exists>s'. st_SAdd now s key (map IStr xs) = Some (s', Inr (int (card (set xs - S)))) \<and>
      has_set K now key (set_map (S \<union> set xs)) s' \<and> same_else now key s s')) \<and>
    (\<exists>s'. st_SRem now s key (map IStr xs) = Some (s', Inr (int (card (set xs \<inter> S)))) \<and>
      has_set K now key (set_map (S - set xs)) s' \<and> same_else now key s s') \<and>
    (\<exists>s'. has_set K now key (set_map S) s' \<and> same_else now key s s' \<and>
      st_SMembers now s key = Some (s', Inr (sorted_list_of_set S)) \<and>
      st_SIsMember now s key x = Some (s', Inr (x \<in> S)) \<and>
      st_SCard now s key = Some (s', Inr (int (card S))))"
  by (intro conjI impI SAdd_law SRem_law set_reads h)

theorem set_refines_witness:
  "\<exists>s'. st_SAdd 0 (store_small []) ''s'' (map IStr [''a'', ''b'', ''a'']) = Some (s', Inr 2) \<and>
     has_set {''k''} 0 ''s'' (set_map {''a'', ''b''}) s'"
proof -
  have h: "has_set {''k''} 0 ''s'' (set_map {}) (store_small [])" by (simp add: has_map_small)
  from set_refines [OF h, of "[''a'', ''b'', ''a'']" "[]"] show ?thesis by (auto simp: insert_commute)
qed

lemma ranking_member:
  assumes "finite (dom M)"
  shows "set (ranking M) = {ZMember sc k |sc k. M k = Some sc}" "distinct (map zm_Member (ranking M))"
    "sorted (map zkey (ranking M))"
proof -
  let ?A = "{(sc, k). M k = Some sc}"
  have "?A = (\<lambda>k. (the (M k), k)) ` dom M" by force
  then have fin: "finite ?A" using assms by simp
  then show "set (ranking M) = {ZMember sc k |sc k. M k = Some sc}" by (auto simp: ranking_def image_iff)
  have z: "map zkey (ranking M) = sorted_list_of_set ?A"
    by (simp add: ranking_def zkey_def comp_def case_prod_beta)
  then show "sorted (map zkey (ranking M))" by simp
  have "map zm_Member (ranking M) = map snd (sorted_list_of_set ?A)"
    by (simp add: ranking_def comp_def case_prod_beta)
  moreover have "inj_on snd ?A" by (auto simp: inj_on_def)
  ultimately show "distinct (map zm_Member (ranking M))" using fin by (simp add: distinct_map)
qed

lemma has_map_finite: "has_map t C K now key M s \<Longrightarrow> finite (dom M)"
  by (auto simp: has_map_def elim!: map_obj_E simp: finite_dom_map_of)

text \<open>The elements before a position of a sorted list are the smaller ones.\<close>

lemma sorted_take_less:
  fixes f :: "'a \<Rightarrow> 'b :: linorder"
  assumes srt: "sorted (map f zs)" and dst: "distinct (map f zs)" and i: "i < length zs"
  shows "set (take i zs) = {z \<in> set zs. f z < f (zs ! i)}"
proof (intro equalityI subsetI)
  fix z assume "z \<in> set (take i zs)"
  then obtain j where j: "j < i" "z = zs ! j" using i by (auto simp: in_set_conv_nth)
  have "f z \<le> f (zs ! i)" using sorted_nth_mono [OF srt, of j i] j i by simp
  moreover have "f z \<noteq> f (zs ! i)" using nth_eq_iff_index_eq [OF dst, of j i] i j by simp
  ultimately show "z \<in> {z \<in> set zs. f z < f (zs ! i)}" using i j by simp
next
  fix z assume z: "z \<in> {z \<in> set zs. f z < f (zs ! i)}"
  then obtain j where j: "j < length zs" "z = zs ! j" by (auto simp: in_set_conv_nth)
  have "j < i"
  proof (rule ccontr)
    assume "\<not> j < i"
    then have "f (zs ! i) \<le> f z" using sorted_nth_mono [OF srt, of i j] j by simp
    with z show False by (auto dest: leD)
  qed
  with j i show "z \<in> set (take i zs)" by (auto simp: in_set_conv_nth)
qed

lemma zrank_ranking:
  assumes "finite (dom M)"
  shows "zrankLoop x 0 (ranking M) = (case M x of None \<Rightarrow> Inl ErrKeyNotFound
    | Some sc \<Rightarrow> Inr (int (card {k. \<exists>sc'. M k = Some sc' \<and> (sc', k) < (sc, x)})))"
proof (cases "M x")
  case None
  then have "x \<notin> zm_Member ` set (ranking M)" using ranking_member(1) [OF assms] by auto
  with None show ?thesis by (simp add: zrankLoop_missing)
next
  case (Some sc)
  let ?zs = "ranking M"
  have "ZMember sc x \<in> set ?zs" using ranking_member(1) [OF assms] Some by auto
  then obtain i where i: "i < length ?zs" "?zs ! i = ZMember sc x" by (auto simp: in_set_conv_nth)
  have sd: "sorted (map zkey ?zs)" "distinct (map zm_Member ?zs)" by (rule ranking_member [OF assms])+
  from sd(2) have "distinct (map zkey ?zs)" by (simp add: distinct_map zkey_inj)
  note take_less = sorted_take_less [OF sd(1) this i(1), unfolded i(2)]
  have "zm_Member ` {z \<in> {ZMember sc k |sc k. M k = Some sc}. P z} = {k. \<exists>sc'. M k = Some sc' \<and> P (ZMember sc' k)}" for P
    by (force simp: image_iff)
  then have "zm_Member ` set (take i ?zs) = {k. \<exists>sc'. M k = Some sc' \<and> zkey (ZMember sc' k) < zkey (ZMember sc x)}"
    unfolding take_less ranking_member(1) [OF assms] .
  moreover have "card (zm_Member ` set (take i ?zs)) = i"
    using sd(2) i distinct_card [of "map zm_Member (take i ?zs)"]
    by (simp add: take_map [symmetric] distinct_take flip: set_map)
  ultimately show ?thesis
    using Some zrankLoop_spec [OF sd(2) i(1), of 0] i(2) by (simp only: zkey_def ZMember.sel) simp
qed

text \<open>
  C9: the sorted-set operations implement a map from members to scores, and its ranking by score and
  then name. \<open>ZAdd\<close>, \<open>ZRem\<close> and \<open>ZIncrBy\<close> update the map and count as documented; the range
  operations return slices of the ranking, forwards or backwards; \<open>ZRank\<close> is the number of members
  that rank before the given one. No score may be NaN for the reads.
\<close>

theorem zset_refines:
  assumes h: "has_zset K now key M s"
  shows "(zs \<noteq> [] \<longrightarrow> (\<exists>s'. st_ZAdd now s key zs = Some (s', Inr (int (card (zm_Member ` set zs - dom M)))) \<and>
      has_zset K now key (M ++ map_of (rev (map (\<lambda>z. (zm_Member z, zm_Score z)) zs))) s' \<and> same_else now key s s')) \<and>
    (\<exists>s'. st_ZRem now s key xs = Some (s', Inr (int (card (set xs \<inter> dom M)))) \<and>
      has_zset K now key (M |` (- set xs)) s' \<and> same_else now key s s') \<and>
    (\<exists>s'. st_ZIncrBy rnd now s key x delta =
        Some (s', Inr (fadd rnd (case M x of None \<Rightarrow> Fin 0 | Some y \<Rightarrow> y) delta)) \<and>
      has_zset K now key (M(x \<mapsto> fadd rnd (case M x of None \<Rightarrow> Fin 0 | Some y \<Rightarrow> y) delta)) s' \<and> same_else now key s s') \<and>
    (NaN \<notin> ran M \<longrightarrow> (\<exists>s'. has_zset K now key M s' \<and> same_else now key s s' \<and>
      st_ZRangeWithScores now s key a b = Some (s', Inr (rangeOf (ranking M) a b)) \<and>
      st_ZRange now s key a b = Some (s', Inr (map zm_Member (rangeOf (ranking M) a b))) \<and>
      st_ZRevRange now s key a b = Some (s', Inr (map zm_Member (rangeOf (rev (ranking M)) a b))) \<and>
      st_ZScore now s key x = Some (s', case M x of None \<Rightarrow> Inl ErrKeyNotFound | Some y \<Rightarrow> Inr y) \<and>
      st_ZCard now s key = Some (s', Inr (int (card (dom M)))) \<and>
      st_ZRank now s key x = Some (s', case M x of None \<Rightarrow> Inl ErrKeyNotFound
        | Some sc \<Rightarrow> Inr (int (card {k. \<exists>sc'. M k = Some sc' \<and> (sc', k) < (sc, x)})))))"
  using zset_reads [OF h, of a b x, unfolded zrank_ranking [OF has_map_finite [OF h]]]
  by (intro conjI impI ZAdd_law ZRem_law ZIncrBy_law h)

theorem zset_refines_witness:
  "\<exists>s'. st_ZAdd 0 (store_small []) ''z'' [ZMember (Fin 2) ''a'', ZMember (Fin 1) ''b''] = Some (s', Inr 2) \<and>
     has_zset {''k''} 0 ''z'' [''a'' \<mapsto> Fin 2, ''b'' \<mapsto> Fin 1] s'"
proof -
  have h: "has_zset {''k''} 0 ''z'' Map.empty (store_small [])" by (rule has_map_small)
  from zset_refines [OF h, of "[ZMember (Fin 2) ''a'', ZMember (Fin 1) ''b'']" "[]" Fin "[]" NaN 0 0]
  show ?thesis by (auto simp: fun_upd_twist)
qed

text \<open>A key that holds a string, or an object of another type.\<close>

definition other_type :: "int \<Rightarrow> Store \<Rightarrow> string \<Rightarrow> ValueType \<Rightarrow> bool" where
  "other_type now s key t \<longleftrightarrow> \<not> noStr now s key \<or> (\<exists>tv. objs now s key = Some tv \<and> tv_Type tv \<noteq> t)"

lemma getTyped_other:
  assumes ok: "st_ok K s" and oth: "other_type now s key t"
  shows "\<exists>s'. getTyped now s key t = Some (s', Inl ErrWrongType) \<and> st_ok K s' \<and> objs now s' = objs now s"
proof (cases "noStr now s key")
  case True
  with oth obtain tv where "objs now s key = Some tv" "tv_Type tv \<noteq> t" by (auto simp: other_type_def)
  with getTyped_law [of K s now key t] ok True show ?thesis by (auto simp: typed_def)
next
  case False
  obtain sc r where sc: "sc_Get now (st_cache s) key = Some (sc, r)" "cache_inv K sc"
    using sc_Get_total [of K "st_cache s" now key] ok by (auto simp: st_ok_def)
  with False obtain v where "r = Some v" by (auto simp: noStr_def)
  with getTyped_string [of now s key sc v t] sc ok show ?thesis by (auto simp: st_ok_def objs_def fun_eq_iff)
qed



end
