(* ===== verification/KeySlot.thy ===== *)
theory KeySlot
  imports Prelude
begin

text \<open>
  The hash slot of a key, \<^verbatim>\<open>internal/cluster/hash/crc16.go\<close>: the table-driven CRC and the hash tag of
  a key. \<open>crc_ref\<close> is the bitwise definition of CRC-16/XMODEM, the checksum that Redis Cluster
  specifies.
\<close>

unbundle bit_operations_syntax

section \<open>Model\<close>

definition crc16Table :: "16 word list" where
  "crc16Table =
    [0x0000, 0x1021, 0x2042, 0x3063, 0x4084, 0x50a5, 0x60c6, 0x70e7,
     0x8108, 0x9129, 0xa14a, 0xb16b, 0xc18c, 0xd1ad, 0xe1ce, 0xf1ef,
     0x1231, 0x0210, 0x3273, 0x2252, 0x52b5, 0x4294, 0x72f7, 0x62d6,
     0x9339, 0x8318, 0xb37b, 0xa35a, 0xd3bd, 0xc39c, 0xf3ff, 0xe3de,
     0x2462, 0x3443, 0x0420, 0x1401, 0x64e6, 0x74c7, 0x44a4, 0x5485,
     0xa56a, 0xb54b, 0x8528, 0x9509, 0xe5ee, 0xf5cf, 0xc5ac, 0xd58d,
     0x3653, 0x2672, 0x1611, 0x0630, 0x76d7, 0x66f6, 0x5695, 0x46b4,
     0xb75b, 0xa77a, 0x9719, 0x8738, 0xf7df, 0xe7fe, 0xd79d, 0xc7bc,
     0x48c4, 0x58e5, 0x6886, 0x78a7, 0x0840, 0x1861, 0x2802, 0x3823,
     0xc9cc, 0xd9ed, 0xe98e, 0xf9af, 0x8948, 0x9969, 0xa90a, 0xb92b,
     0x5af5, 0x4ad4, 0x7ab7, 0x6a96, 0x1a71, 0x0a50, 0x3a33, 0x2a12,
     0xdbfd, 0xcbdc, 0xfbbf, 0xeb9e, 0x9b79, 0x8b58, 0xbb3b, 0xab1a,
     0x6ca6, 0x7c87, 0x4ce4, 0x5cc5, 0x2c22, 0x3c03, 0x0c60, 0x1c41,
     0xedae, 0xfd8f, 0xcdec, 0xddcd, 0xad2a, 0xbd0b, 0x8d68, 0x9d49,
     0x7e97, 0x6eb6, 0x5ed5, 0x4ef4, 0x3e13, 0x2e32, 0x1e51, 0x0e70,
     0xff9f, 0xefbe, 0xdfdd, 0xcffc, 0xbf1b, 0xaf3a, 0x9f59, 0x8f78,
     0x9188, 0x81a9, 0xb1ca, 0xa1eb, 0xd10c, 0xc12d, 0xf14e, 0xe16f,
     0x1080, 0x00a1, 0x30c2, 0x20e3, 0x5004, 0x4025, 0x7046, 0x6067,
     0x83b9, 0x9398, 0xa3fb, 0xb3da, 0xc33d, 0xd31c, 0xe37f, 0xf35e,
     0x02b1, 0x1290, 0x22f3, 0x32d2, 0x4235, 0x5214, 0x6277, 0x7256,
     0xb5ea, 0xa5cb, 0x95a8, 0x8589, 0xf56e, 0xe54f, 0xd52c, 0xc50d,
     0x34e2, 0x24c3, 0x14a0, 0x0481, 0x7466, 0x6447, 0x5424, 0x4405,
     0xa7db, 0xb7fa, 0x8799, 0x97b8, 0xe75f, 0xf77e, 0xc71d, 0xd73c,
     0x26d3, 0x36f2, 0x0691, 0x16b0, 0x6657, 0x7676, 0x4615, 0x5634,
     0xd94c, 0xc96d, 0xf90e, 0xe92f, 0x99c8, 0x89e9, 0xb98a, 0xa9ab,
     0x5844, 0x4865, 0x7806, 0x6827, 0x18c0, 0x08e1, 0x3882, 0x28a3,
     0xcb7d, 0xdb5c, 0xeb3f, 0xfb1e, 0x8bf9, 0x9bd8, 0xabbb, 0xbb9a,
     0x4a75, 0x5a54, 0x6a37, 0x7a16, 0x0af1, 0x1ad0, 0x2ab3, 0x3a92,
     0xfd2e, 0xed0f, 0xdd6c, 0xcd4d, 0xbdaa, 0xad8b, 0x9de8, 0x8dc9,
     0x7c26, 0x6c07, 0x5c64, 0x4c45, 0x3ca2, 0x2c83, 0x1ce0, 0x0cc1,
     0xef1f, 0xff3e, 0xcf5d, 0xdf7c, 0xaf9b, 0xbfba, 0x8fd9, 0x9ff8,
     0x6e17, 0x7e36, 0x4e55, 0x5e74, 0x2e93, 0x3eb2, 0x0ed1, 0x1ef0]"

definition SlotCount :: nat where "SlotCount = 16384"

definition crcStep :: "16 word \<Rightarrow> char \<Rightarrow> 16 word" where
  "crcStep crc b =
     push_bit 8 crc XOR crc16Table ! unat ((ucast (drop_bit 8 crc) :: 8 word) XOR of_char b)"

definition CRC16 :: "string \<Rightarrow> 16 word" where
  "CRC16 data = foldl crcStep 0 data"

fun indexByte :: "string \<Rightarrow> char \<Rightarrow> int" where
  "indexByte [] c = -1"
| "indexByte (x # xs) c = (if x = c then 0 else let i = indexByte xs c in if i = -1 then -1 else i + 1)"

definition KeySlot :: "string \<Rightarrow> 16 word" where
  "KeySlot key =
     (let start = indexByte key (CHR ''{'');
          tail = drop (nat (start + 1)) key;
          stop = indexByte tail (CHR ''}'');
          hashed = (if start \<ge> 0 \<and> stop \<ge> 0 then take (nat stop) tail else key)
      in CRC16 hashed mod of_nat SlotCount)"

section \<open>The checksum and the slot that Redis Cluster specifies\<close>

definition crc_bit :: "16 word \<Rightarrow> 16 word" where
  "crc_bit x = (if bit x 15 then push_bit 1 x XOR 0x1021 else push_bit 1 x)"

definition crc_byte :: "16 word \<Rightarrow> 16 word" where
  "crc_byte x = (crc_bit ^^ 8) x"

definition crc_ref :: "string \<Rightarrow> 16 word" where
  "crc_ref data = foldl (\<lambda>crc b. crc_byte (crc XOR push_bit 8 (of_char b))) 0 data"

text \<open>The part of a key that is hashed: what is between the first opening brace and the first closing
  brace after it, unless there is nothing between them.\<close>

definition redis_part :: "string \<Rightarrow> string" where
  "redis_part key =
     (let rest = drop 1 (dropWhile (\<lambda>c. c \<noteq> CHR ''{'') key);
          tag = takeWhile (\<lambda>c. c \<noteq> CHR ''}'') rest
      in if CHR ''{'' \<in> set key \<and> CHR ''}'' \<in> set rest \<and> tag \<noteq> [] then tag else key)"

definition redis_slot :: "string \<Rightarrow> nat" where
  "redis_slot key = unat (crc_ref (redis_part key)) mod 16384"

definition empty_tag :: "string \<Rightarrow> bool" where
  "empty_tag key \<longleftrightarrow> take 2 (dropWhile (\<lambda>c. c \<noteq> CHR ''{'') key) = ''{}''"

section \<open>The table\<close>

lemma crc_byte_steps:
  "crc_byte x = crc_bit (crc_bit (crc_bit (crc_bit (crc_bit (crc_bit (crc_bit (crc_bit x)))))))"
  by (simp add: crc_byte_def eval_nat_numeral)

lemma crc_bit_numeral:
  "crc_bit (numeral n) =
     (if bit (numeral n :: 16 word) 15 then push_bit 1 (numeral n) XOR 0x1021 else push_bit 1 (numeral n))"
  "crc_bit 0 = 0" "crc_bit 1 = 2"
  by (simp_all add: crc_bit_def)

lemma crc16Table_eq: "crc16Table = map (\<lambda>i. crc_byte (push_bit 8 (of_nat i))) [0..<256]"
  by (simp add: crc16Table_def upt_rec crc_byte_steps crc_bit_numeral cong: if_weak_cong)

lemma crc16Table_nth: "crc16Table ! unat (b :: 8 word) = crc_byte (push_bit 8 (ucast b))"
  using unsigned_less [of b, where 'a = nat] by (simp add: crc16Table_eq)

section \<open>The table-driven step is eight bit steps\<close>

lemma crc_bit_xor: "crc_bit (x XOR y) = crc_bit x XOR crc_bit y"
  by (auto simp: crc_bit_def bit_xor_iff push_bit_xor ac_simps)

lemma crc_byte_xor: "crc_byte (x XOR y) = crc_byte x XOR crc_byte y"
  by (simp add: crc_byte_steps crc_bit_xor)

lemma crc_bit_low: "k \<le> 8 \<Longrightarrow> (crc_bit ^^ k) (take_bit 8 x) = push_bit k (take_bit 8 x)"
proof (induction k)
  case (Suc k)
  then have "\<not> 15 - k < 8" by linarith
  then have "\<not> bit (push_bit k (take_bit 8 x) :: 16 word) 15"
    by (simp add: bit_push_bit_iff bit_take_bit_iff)
  with Suc show ?case by (simp add: crc_bit_def)
qed simp

lemma ucast_of_char: "ucast (of_char c :: 8 word) = (of_char c :: 16 word)"
  by (cases c) simp

lemma crcStep_eq: "crcStep crc b = crc_byte (crc XOR push_bit 8 (of_char b))"
proof -
  have split: "crc = take_bit 8 crc XOR push_bit 8 (drop_bit 8 crc)"
    by (rule bit_eqI) (auto simp: bit_simps)
  have low: "crc_byte (take_bit 8 crc) = push_bit 8 crc"
    by (rule bit_eqI) (auto simp: crc_byte_def crc_bit_low bit_simps)
  have high: "ucast (ucast (drop_bit 8 crc) :: 8 word) = drop_bit 8 crc"
    by (rule bit_eqI) (auto simp: bit_simps dest: bit_imp_le_length)
  have "crcStep crc b = push_bit 8 crc XOR crc_byte (push_bit 8 (drop_bit 8 crc XOR of_char b))"
    by (simp only: crcStep_def crc16Table_nth) (simp only: unsigned_xor_eq high ucast_of_char)
  also have "\<dots> = crc_byte ((take_bit 8 crc XOR push_bit 8 (drop_bit 8 crc)) XOR push_bit 8 (of_char b))"
    by (simp add: crc_byte_xor low push_bit_xor ac_simps)
  finally show ?thesis using split by simp
qed

lemma CRC16_eq: "CRC16 data = crc_ref data"
  by (simp add: CRC16_def crc_ref_def crcStep_eq cong: foldl_cong)

section \<open>The hash tag\<close>

lemma indexByte_ge: "-1 \<le> indexByte s c"
  by (induction s) (auto simp: Let_def)

lemma indexByte_absent: "c \<notin> set s \<longleftrightarrow> indexByte s c = -1"
proof (induction s)
  case (Cons x s)
  then show ?case using indexByte_ge [of s c] by (auto simp: Let_def)
qed simp

lemma indexByte_present:
  "c \<in> set s \<Longrightarrow> indexByte s c = int (length (takeWhile (\<lambda>x. x \<noteq> c) s))"
proof (induction s)
  case (Cons x s)
  then show ?case using indexByte_absent [of c s] by (auto simp: Let_def)
qed simp

lemma indexByte_nonneg: "indexByte s c \<ge> 0 \<longleftrightarrow> c \<in> set s"
  using indexByte_absent [of c s] indexByte_present [of c s] by (cases "c \<in> set s") auto

lemma take_length_takeWhile: "take (length (takeWhile P xs)) xs = takeWhile P xs"
  by (metis append_eq_conv_conj takeWhile_dropWhile_id)

lemma drop_length_takeWhile: "drop (length (takeWhile P xs) + 1) xs = drop 1 (dropWhile P xs)"
  by (simp add: dropWhile_eq_drop)

lemma empty_tag_iff:
  "empty_tag key \<longleftrightarrow>
     (let rest = drop 1 (dropWhile (\<lambda>c. c \<noteq> CHR ''{'') key)
      in CHR ''{'' \<in> set key \<and> CHR ''}'' \<in> set rest \<and> takeWhile (\<lambda>c. c \<noteq> CHR ''}'') rest = [])"
proof (cases "dropWhile (\<lambda>c. c \<noteq> CHR ''{'') key")
  case Nil
  then show ?thesis by (simp only: empty_tag_def Let_def) simp
next
  case (Cons c rest)
  then have "dropWhile (\<lambda>c. c \<noteq> CHR ''{'') key \<noteq> []" by simp
  then have "CHR ''{'' \<in> set key" by auto
  moreover have "c = CHR ''{''" using hd_dropWhile [OF \<open>dropWhile _ key \<noteq> []\<close>] Cons by simp
  ultimately show ?thesis using Cons by (cases rest) (simp_all only: empty_tag_def Let_def, auto)
qed

text \<open>The part of a key that the code hashes.\<close>

definition hashed_part :: "string \<Rightarrow> string" where
  "hashed_part key = (if empty_tag key then [] else redis_part key)"

lemma KeySlot_part: "KeySlot key = CRC16 (hashed_part key) mod of_nat SlotCount"
proof (cases "CHR ''{'' \<in> set key")
  case True
  let ?rest = "drop 1 (dropWhile (\<lambda>c. c \<noteq> CHR ''{'') key)"
  have start: "indexByte key (CHR ''{'') \<ge> 0" using True by (simp add: indexByte_nonneg)
  have tail: "drop (nat (indexByte key (CHR ''{'') + 1)) key = ?rest"
    using True by (simp add: indexByte_present nat_add_distrib dropWhile_eq_drop)
  show ?thesis
  proof (cases "CHR ''}'' \<in> set ?rest")
    case present: True
    then have "take (nat (indexByte ?rest (CHR ''}''))) ?rest = takeWhile (\<lambda>c. c \<noteq> CHR ''}'') ?rest"
      by (simp only: indexByte_present nat_int take_length_takeWhile)
    with present True start show ?thesis
      by (simp add: KeySlot_def Let_def tail indexByte_nonneg hashed_part_def empty_tag_iff redis_part_def)
  next
    case False
    then show ?thesis
      using start by (simp add: KeySlot_def Let_def tail indexByte_nonneg hashed_part_def empty_tag_iff redis_part_def)
  qed
next
  case False
  then show ?thesis
    by (simp add: KeySlot_def Let_def indexByte_nonneg hashed_part_def empty_tag_iff redis_part_def)
qed

lemma KeySlot_unat: "unat (KeySlot key) = unat (crc_ref (hashed_part key)) mod 16384"
proof -
  have "unat (of_nat SlotCount :: 16 word) = 16384" by (simp add: SlotCount_def)
  then show ?thesis by (simp only: KeySlot_part CRC16_eq unat_mod_distrib)
qed

lemma KeySlot_less: "unat (KeySlot key) < SlotCount"
  by (simp only: KeySlot_unat SlotCount_def mod_less_divisor zero_less_numeral)

text \<open>
  C11: the slot of a key is the one Redis Cluster specifies, the bitwise CRC-16 of the hash tag (or of the
  whole key when it has none) modulo 16384, for every key but those whose tag is empty: a key with
  an empty tag is put in slot 0, whatever the rest of it, where Redis hashes the whole key.
\<close>

theorem KeySlot_spec: "unat (KeySlot key) = (if empty_tag key then 0 else redis_slot key)"
  by (cases "empty_tag key") (simp_all only: KeySlot_unat hashed_part_def redis_slot_def crc_ref_def, simp_all)

end
