(* ===== verification/Slots.thy ===== *)
theory Slots
  imports KeySlot GoLib
begin

text \<open>
  The slot table of a cluster node, \<^verbatim>\<open>internal/cluster/slots.go\<close>, the persistent form of it,
  \<^verbatim>\<open>internal/cluster/state/types.go\<close>, and the failover manager on top of it,
  \<^verbatim>\<open>internal/cluster/failover/manager.go\<close>.

  The array of slots is a list of \<open>SlotCount\<close> records; the methods that index it without a range check
  return \<open>None\<close> where Go panics. The mutex makes an operation atomic. The state manager of a slot
  table is its dirty flag, \<open>None\<close> when there is no manager.
\<close>

section \<open>Data\<close>

datatype SlotState = SlotStateNormal | SlotStateImporting | SlotStateExporting

record SlotReplica =
  rep_NodeID :: string
  MatchLSN :: "64 word"
  Healthy :: bool

record SlotInfo =
  si_State :: SlotState
  NodeID :: string
  PrimaryID :: string
  Replicas :: "SlotReplica list"
  ConfigEpoch :: "64 word"
  NextLSN :: "64 word"
  Importing :: string
  Exporting :: string

record SlotManager =
  slots :: "SlotInfo list"
  nodeSlots :: "(string, 16 word list) gomap"
  sm_dirty :: "bool option"

record SlotRange =
  sr_Start :: "16 word"
  sr_End :: "16 word"
  sr_NodeID :: string

record SlotReplicaSet =
  rs_PrimaryID :: string
  rs_Replicas :: "SlotReplica list"
  rs_ConfigEpoch :: "64 word"
  rs_NextLSN :: "64 word"

record MigrationState =
  SourceNodeID :: string
  TargetNodeID :: string
  ms_State :: string

definition newSlotInfo :: SlotInfo where
  "newSlotInfo = \<lparr> si_State = SlotStateNormal, NodeID = [], PrimaryID = [], Replicas = [], ConfigEpoch = 0,
     NextLSN = 0, Importing = [], Exporting = [] \<rparr>"

definition NewSlotManager :: SlotManager where
  "NewSlotManager = \<lparr> slots = replicate SlotCount newSlotInfo, nodeSlots = [], sm_dirty = None \<rparr>"

definition sm_SetStateManager :: "bool \<Rightarrow> SlotManager \<Rightarrow> SlotManager" where
  "sm_SetStateManager d sm = sm\<lparr> sm_dirty := Some d \<rparr>"

definition markDirty :: "SlotManager \<Rightarrow> SlotManager" where
  "markDirty sm = sm\<lparr> sm_dirty := map_option (\<lambda>_. True) (sm_dirty sm) \<rparr>"

section \<open>Slots and owners\<close>

definition in_range :: "16 word \<Rightarrow> bool" where
  "in_range slot \<longleftrightarrow> unat slot < SlotCount"

definition slot_at :: "SlotManager \<Rightarrow> 16 word \<Rightarrow> SlotInfo" where
  "slot_at sm slot = slots sm ! unat slot"

definition slot_upd :: "16 word \<Rightarrow> (SlotInfo \<Rightarrow> SlotInfo) \<Rightarrow> SlotManager \<Rightarrow> SlotManager" where
  "slot_upd slot f sm = sm\<lparr> slots := (slots sm)[unat slot := f (slot_at sm slot)] \<rparr>"

definition slotsOf :: "SlotManager \<Rightarrow> string \<Rightarrow> 16 word list" where
  "slotsOf sm nodeID = (case mget (nodeSlots sm) nodeID of None \<Rightarrow> [] | Some xs \<Rightarrow> xs)"

definition invalid_slot :: "16 word \<Rightarrow> go_error" where
  "invalid_slot slot = ErrMsg (''invalid slot: '' @ FormatInt (uint slot))"

definition replica_not_found :: "string \<Rightarrow> 16 word \<Rightarrow> go_error" where
  "replica_not_found nodeID slot =
     ErrMsg (''replica '' @ nodeID @ '' not found for slot '' @ FormatInt (uint slot))"

definition removeSlotFromNode :: "string \<Rightarrow> 16 word \<Rightarrow> SlotManager \<Rightarrow> SlotManager" where
  "removeSlotFromNode nodeID slot sm =
     (if slot \<in> set (slotsOf sm nodeID)
      then sm\<lparr> nodeSlots := mput nodeID (remove1 slot (slotsOf sm nodeID)) (nodeSlots sm) \<rparr> else sm)"

definition appendSlot :: "string \<Rightarrow> 16 word \<Rightarrow> SlotManager \<Rightarrow> SlotManager" where
  "appendSlot nodeID slot sm = sm\<lparr> nodeSlots := mput nodeID (slotsOf sm nodeID @ [slot]) (nodeSlots sm) \<rparr>"

definition setOwnerLocked :: "16 word \<Rightarrow> string \<Rightarrow> SlotManager \<Rightarrow> SlotManager" where
  "setOwnerLocked slot nodeID sm =
     (let old = NodeID (slot_at sm slot);
          sm1 = (if old \<noteq> [] \<and> old \<noteq> nodeID then removeSlotFromNode old slot sm else sm);
          sm2 = slot_upd slot (\<lambda>i. i\<lparr> NodeID := nodeID \<rparr>) sm1
      in if nodeID = [] then sm2
         else if slot \<in> set (slotsOf sm2 nodeID) then sm2
         else appendSlot nodeID slot sm2)"

definition AssignSlot :: "SlotManager \<Rightarrow> 16 word \<Rightarrow> string \<Rightarrow> SlotManager \<times> unit res" where
  "AssignSlot sm slot nodeID =
     (if \<not> in_range slot then (sm, Inl (invalid_slot slot))
      else let old = NodeID (slot_at sm slot);
               sm1 = (if old \<noteq> [] then removeSlotFromNode old slot sm else sm);
               sm2 = slot_upd slot (\<lambda>i. i\<lparr> NodeID := nodeID, PrimaryID := nodeID, Replicas := [],
                                          si_State := SlotStateNormal \<rparr>) sm1
           in (markDirty (appendSlot nodeID slot sm2), Inr ()))"

text \<open>\<^verbatim>\<open>AssignSlotRange\<close> counts with a \<^verbatim>\<open>uint16\<close>; the loop ends even for an upper end of 65535, because the
  slot 16384 is refused.\<close>

function AssignSlotRange :: "SlotManager \<Rightarrow> 16 word \<Rightarrow> 16 word \<Rightarrow> string \<Rightarrow> SlotManager \<times> unit res" where
  "AssignSlotRange sm slot stop nodeID =
     (if slot \<le> stop then
        (case AssignSlot sm slot nodeID of
           (sm', Inl e) \<Rightarrow> (sm', Inl e)
         | (sm', Inr _) \<Rightarrow> AssignSlotRange sm' (slot + 1) stop nodeID)
      else (sm, Inr ()))"
  by pat_completeness auto

lemma unat_Suc_slot: "in_range slot \<Longrightarrow> unat (slot + 1) = unat slot + 1"
  by (simp add: in_range_def SlotCount_def unat_word_ariths)

lemma AssignSlot_Inr: "(sm', Inr u) = AssignSlot sm slot nodeID \<Longrightarrow> in_range slot"
  by (auto simp: AssignSlot_def split: if_splits)

termination AssignSlotRange
  by (relation "measure (\<lambda>(sm, slot, stop, nodeID). 2 ^ 16 - unat slot)")
    (auto dest!: AssignSlot_Inr simp: unat_Suc_slot in_range_def SlotCount_def)

declare AssignSlotRange.simps [simp del]

definition SetSlotConfigEpoch :: "SlotManager \<Rightarrow> 16 word \<Rightarrow> 64 word \<Rightarrow> SlotManager" where
  "SetSlotConfigEpoch sm slot epoch =
     markDirty (if unat slot < length (slots sm) then slot_upd slot (\<lambda>i. i\<lparr> ConfigEpoch := epoch \<rparr>) sm else sm)"

definition GetSlotNode :: "SlotManager \<Rightarrow> 16 word \<Rightarrow> string" where
  "GetSlotNode sm slot = (if \<not> in_range slot then [] else NodeID (slot_at sm slot))"

definition GetSlotConfigEpoch :: "SlotManager \<Rightarrow> 16 word \<Rightarrow> 64 word" where
  "GetSlotConfigEpoch sm slot = (if \<not> in_range slot then 0 else ConfigEpoch (slot_at sm slot))"

definition GetKeyNode :: "SlotManager \<Rightarrow> string \<Rightarrow> string" where
  "GetKeyNode sm key = GetSlotNode sm (KeySlot key)"

definition GetSlotInfo :: "SlotManager \<Rightarrow> 16 word \<Rightarrow> SlotInfo option" where
  "GetSlotInfo sm slot = (if \<not> in_range slot then None else Some (slot_at sm slot))"

section \<open>Replicas\<close>

definition newReplica :: "string \<Rightarrow> SlotReplica" where
  "newReplica nodeID = \<lparr> rep_NodeID = nodeID, MatchLSN = 0, Healthy = True \<rparr>"

definition ConfigureReplication ::
  "SlotManager \<Rightarrow> 16 word \<Rightarrow> string \<Rightarrow> string list \<Rightarrow> 64 word \<Rightarrow> SlotManager \<times> unit res" where
  "ConfigureReplication sm slot primaryID replicaIDs epoch =
     (if \<not> in_range slot then (sm, Inl (invalid_slot slot))
      else let sm1 = setOwnerLocked slot primaryID sm;
               reps = map newReplica (filter (\<lambda>r. \<not> (r = [] \<or> r = primaryID)) replicaIDs)
           in (markDirty (slot_upd slot (\<lambda>i. i\<lparr> PrimaryID := primaryID, ConfigEpoch := epoch, Replicas := reps \<rparr>) sm1),
               Inr ()))"

definition AddSlotReplica :: "SlotManager \<Rightarrow> 16 word \<Rightarrow> string \<Rightarrow> SlotManager" where
  "AddSlotReplica sm slot replicaID =
     (if \<not> in_range slot \<or> replicaID = [] then sm
      else let info = slot_at sm slot
           in if NodeID info = [] then sm
              else if \<exists>r \<in> set (Replicas info). rep_NodeID r = replicaID then sm
              else markDirty (slot_upd slot (\<lambda>i. i\<lparr> Replicas := Replicas i @ [newReplica replicaID] \<rparr>) sm))"

text \<open>The loop over the replicas sets \<^verbatim>\<open>Healthy\<close> on its own copy of the element, so a replica that is
  present already is left as it is.\<close>

definition addReplica :: "string \<Rightarrow> string \<Rightarrow> 64 word \<Rightarrow> SlotInfo \<Rightarrow> SlotInfo" where
  "addReplica masterID replicaID epoch info =
     info\<lparr> PrimaryID := masterID, ConfigEpoch := epoch,
           Replicas := (if \<exists>r \<in> set (Replicas info). rep_NodeID r = replicaID then Replicas info
                        else Replicas info @ [newReplica replicaID]) \<rparr>"

definition AddReplicaToMaster ::
  "SlotManager \<Rightarrow> string \<Rightarrow> string \<Rightarrow> 64 word \<Rightarrow> SlotManager \<times> int res" where
  "AddReplicaToMaster sm masterID replicaID epoch =
     (if masterID = [] \<or> replicaID = [] \<or> masterID = replicaID
      then (sm, Inl (ErrMsg ''invalid master/replica IDs''))
      else let n = length (filter (\<lambda>i. NodeID i = masterID) (slots sm));
               sm1 = sm\<lparr> slots := map (\<lambda>i. if NodeID i \<noteq> masterID then i
                                           else addReplica masterID replicaID epoch i) (slots sm) \<rparr>
           in (if n > 0 then markDirty sm1 else sm1, Inr (int n)))"

definition AllocateLSN :: "SlotManager \<Rightarrow> 16 word \<Rightarrow> SlotManager \<times> (64 word \<times> 64 word) res" where
  "AllocateLSN sm slot =
     (if \<not> in_range slot then (sm, Inl (invalid_slot slot))
      else let info = slot_at sm slot
           in if NodeID info = []
              then (sm, Inl (ErrMsg (''slot '' @ FormatInt (uint slot) @ '' not assigned'')))
              else (markDirty (slot_upd slot (\<lambda>i. i\<lparr> NextLSN := NextLSN i + 1 \<rparr>) sm),
                    Inr (ConfigEpoch info, NextLSN info + 1)))"

fun updateMatch :: "string \<Rightarrow> 64 word \<Rightarrow> SlotReplica list \<Rightarrow> SlotReplica list option" where
  "updateMatch nodeID lsn [] = None"
| "updateMatch nodeID lsn (r # rs) =
     (if rep_NodeID r \<noteq> nodeID then map_option ((#) r) (updateMatch nodeID lsn rs)
      else Some (r\<lparr> MatchLSN := (if lsn > MatchLSN r then lsn else MatchLSN r), Healthy := True \<rparr> # rs))"

definition UpdateReplicaLSN :: "SlotManager \<Rightarrow> 16 word \<Rightarrow> string \<Rightarrow> 64 word \<Rightarrow> SlotManager \<times> unit res" where
  "UpdateReplicaLSN sm slot nodeID lsn =
     (if \<not> in_range slot then (sm, Inl (invalid_slot slot))
      else case updateMatch nodeID lsn (Replicas (slot_at sm slot)) of
             None \<Rightarrow> (sm, Inl (replica_not_found nodeID slot))
           | Some rs \<Rightarrow> (markDirty (slot_upd slot (\<lambda>i. i\<lparr> Replicas := rs \<rparr>) sm), Inr ()))"

text \<open>\<^verbatim>\<open>promoted\<close> is the last of the replicas with the given node, the other replicas remain.\<close>

definition PromoteReplica :: "SlotManager \<Rightarrow> 16 word \<Rightarrow> string \<Rightarrow> SlotManager \<times> unit res" where
  "PromoteReplica sm slot nodeID =
     (if \<not> in_range slot then (sm, Inl (invalid_slot slot))
      else let info = slot_at sm slot;
               chosen = filter (\<lambda>r. rep_NodeID r = nodeID) (Replicas info);
               remaining = filter (\<lambda>r. rep_NodeID r \<noteq> nodeID) (Replicas info)
           in if chosen = [] then (sm, Inl (replica_not_found nodeID slot))
              else let promoted = List.last chosen;
                       oldPrimary = (if PrimaryID info = [] then NodeID info else PrimaryID info);
                       remaining' = (if oldPrimary \<noteq> [] \<and> oldPrimary \<noteq> nodeID
                                     then remaining @ [newReplica oldPrimary] else remaining);
                       sm1 = setOwnerLocked slot nodeID sm
                   in (markDirty (slot_upd slot (\<lambda>i. i\<lparr> PrimaryID := nodeID, Replicas := remaining',
                         ConfigEpoch := ConfigEpoch i + 1,
                         NextLSN := (if MatchLSN promoted > NextLSN i then MatchLSN promoted else NextLSN i) \<rparr>) sm1),
                       Inr ()))"

definition GetNodeSlots :: "SlotManager \<Rightarrow> string \<Rightarrow> 16 word list" where
  "GetNodeSlots sm nodeID = slotsOf sm nodeID"

section \<open>Migration\<close>

definition SetImporting :: "SlotManager \<Rightarrow> 16 word \<Rightarrow> string \<Rightarrow> SlotManager go" where
  "SetImporting sm slot fromNodeID =
     (if \<not> in_range slot then None
      else Some (markDirty (slot_upd slot (\<lambda>i. i\<lparr> si_State := SlotStateImporting, Importing := fromNodeID \<rparr>) sm)))"

definition SetExporting :: "SlotManager \<Rightarrow> 16 word \<Rightarrow> string \<Rightarrow> SlotManager go" where
  "SetExporting sm slot toNodeID =
     (if \<not> in_range slot then None
      else Some (markDirty (slot_upd slot (\<lambda>i. i\<lparr> si_State := SlotStateExporting, Exporting := toNodeID \<rparr>) sm)))"

definition SetStable :: "SlotManager \<Rightarrow> 16 word \<Rightarrow> SlotManager go" where
  "SetStable sm slot =
     (if \<not> in_range slot then None
      else Some (markDirty (slot_upd slot (\<lambda>i. i\<lparr> si_State := SlotStateNormal, Importing := [], Exporting := [],
             PrimaryID := (if PrimaryID i = [] then NodeID i else PrimaryID i) \<rparr>) sm)))"

definition FinishMigration :: "SlotManager \<Rightarrow> 16 word \<Rightarrow> string \<Rightarrow> SlotManager go" where
  "FinishMigration sm slot newNodeID =
     (if \<not> in_range slot then None
      else Some (markDirty (slot_upd slot (\<lambda>i. i\<lparr> si_State := SlotStateNormal, PrimaryID := newNodeID,
             Importing := [], Exporting := [] \<rparr>) (setOwnerLocked slot newNodeID sm))))"

section \<open>Views of the whole table\<close>

fun clusterRanges :: "16 word \<Rightarrow> SlotInfo list \<Rightarrow> SlotRange option \<Rightarrow> SlotRange list" where
  "clusterRanges i [] current = (case current of None \<Rightarrow> [] | Some c \<Rightarrow> [c])"
| "clusterRanges i (info # infos) current =
     (case current of
        None \<Rightarrow>
          (if NodeID info = [] then clusterRanges (i + 1) infos None
           else clusterRanges (i + 1) infos (Some \<lparr> sr_Start = i, sr_End = i, sr_NodeID = NodeID info \<rparr>))
      | Some c \<Rightarrow>
          (if NodeID info = [] then c # clusterRanges (i + 1) infos None
           else if sr_NodeID c \<noteq> NodeID info
           then c # clusterRanges (i + 1) infos (Some \<lparr> sr_Start = i, sr_End = i, sr_NodeID = NodeID info \<rparr>)
           else clusterRanges (i + 1) infos (Some (c\<lparr> sr_End := i \<rparr>))))"

definition GetClusterSlots :: "SlotManager \<Rightarrow> SlotRange list" where
  "GetClusterSlots sm = clusterRanges 0 (slots sm) None"

definition CountAssigned :: "SlotManager \<Rightarrow> int" where
  "CountAssigned sm = int (length (filter (\<lambda>i. NodeID i \<noteq> []) (slots sm)))"

definition GetSlotMapSnapshot :: "SlotManager \<Rightarrow> string list" where
  "GetSlotMapSnapshot sm = map NodeID (slots sm)"

definition migrationOf :: "SlotInfo \<Rightarrow> MigrationState option" where
  "migrationOf info =
     (case si_State info of
        SlotStateImporting \<Rightarrow>
          Some \<lparr> SourceNodeID = Importing info, TargetNodeID = NodeID info, ms_State = ''importing'' \<rparr>
      | SlotStateExporting \<Rightarrow>
          Some \<lparr> SourceNodeID = NodeID info, TargetNodeID = Exporting info, ms_State = ''exporting'' \<rparr>
      | SlotStateNormal \<Rightarrow> None)"

definition replicaSetOf :: "SlotInfo \<Rightarrow> SlotReplicaSet option" where
  "replicaSetOf info =
     (if PrimaryID info = [] \<and> Replicas info = [] \<and> ConfigEpoch info = 0 \<and> NextLSN info = 0 then None
      else Some \<lparr> rs_PrimaryID = PrimaryID info, rs_Replicas = Replicas info, rs_ConfigEpoch = ConfigEpoch info,
                  rs_NextLSN = NextLSN info \<rparr>)"

text \<open>The entries of a map built by a loop over the table, one for each slot where \<open>f\<close> gives a value.\<close>

fun collect :: "(SlotInfo \<Rightarrow> 'a option) \<Rightarrow> 16 word \<Rightarrow> SlotInfo list \<Rightarrow> (16 word, 'a) gomap" where
  "collect f i [] = []"
| "collect f i (info # infos) =
     (case f info of None \<Rightarrow> collect f (i + 1) infos | Some x \<Rightarrow> (i, x) # collect f (i + 1) infos)"

definition GetMigratingSlots :: "SlotManager \<Rightarrow> (16 word, MigrationState) gomap" where
  "GetMigratingSlots sm = collect migrationOf 0 (slots sm)"

definition sm_GetSlotReplicationState :: "SlotManager \<Rightarrow> (16 word, SlotReplicaSet) gomap" where
  "sm_GetSlotReplicationState sm = collect replicaSetOf 0 (slots sm)"

section \<open>Restoring a persisted table\<close>

definition restoreOwner :: "16 word \<Rightarrow> string \<Rightarrow> SlotManager \<Rightarrow> SlotManager" where
  "restoreOwner slot nodeID sm =
     (if nodeID = [] then sm
      else appendSlot nodeID slot (slot_upd slot (\<lambda>i. i\<lparr> NodeID := nodeID, PrimaryID := nodeID \<rparr>) sm))"

fun restoreOwners :: "16 word \<Rightarrow> string list \<Rightarrow> SlotManager \<Rightarrow> SlotManager" where
  "restoreOwners i [] sm = sm"
| "restoreOwners i (nodeID # ids) sm = restoreOwners (i + 1) ids (restoreOwner i nodeID sm)"

definition restoreReplicas :: "16 word \<times> SlotReplicaSet \<Rightarrow> SlotManager \<Rightarrow> SlotManager" where
  "restoreReplicas = (\<lambda>(slot, rs) sm.
     if \<not> in_range slot then sm
     else let sm1 = (if rs_PrimaryID rs \<noteq> []
                     then slot_upd slot (\<lambda>i. i\<lparr> PrimaryID := rs_PrimaryID rs \<rparr>) (setOwnerLocked slot (rs_PrimaryID rs) sm)
                     else sm)
          in slot_upd slot (\<lambda>i. i\<lparr> ConfigEpoch := rs_ConfigEpoch rs, NextLSN := rs_NextLSN rs,
               Replicas := rs_Replicas rs \<rparr>) sm1)"

definition restoreMigration :: "16 word \<times> MigrationState \<Rightarrow> SlotManager \<Rightarrow> SlotManager go" where
  "restoreMigration = (\<lambda>(slot, m) sm.
     if ms_State m = ''importing'' then
       (if in_range slot
        then Some (slot_upd slot (\<lambda>i. i\<lparr> si_State := SlotStateImporting, Importing := SourceNodeID m \<rparr>) sm)
        else None)
     else if ms_State m = ''exporting'' then
       (if in_range slot
        then Some (slot_upd slot (\<lambda>i. i\<lparr> si_State := SlotStateExporting, Exporting := TargetNodeID m \<rparr>) sm)
        else None)
     else Some sm)"

fun restoreMigrations :: "(16 word \<times> MigrationState) list \<Rightarrow> SlotManager \<Rightarrow> SlotManager go" where
  "restoreMigrations [] sm = Some sm"
| "restoreMigrations (m # ms) sm = do { sm' \<leftarrow> restoreMigration m sm; restoreMigrations ms sm' }"

definition RestoreFromState ::
  "SlotManager \<Rightarrow> string list \<Rightarrow> (16 word, MigrationState) gomap \<Rightarrow> (16 word, SlotReplicaSet) gomap \<Rightarrow>
     SlotManager go" where
  "RestoreFromState sm slotMap migrations replicas =
     (let sm0 = sm\<lparr> nodeSlots := [], slots := replicate SlotCount newSlotInfo \<rparr>;
          sm1 = restoreOwners 0 slotMap sm0;
          sm2 = fold restoreReplicas replicas sm1
      in restoreMigrations migrations sm2)"

section \<open>Failover\<close>

text \<open>\<^verbatim>\<open>failover.Manager\<close>: the slot table and the two hooks, which are told of a new primary and of a stale
  one; what a promotion calls is returned with its result. \<open>fm_slots\<close> is \<open>None\<close> for a manager of no
  cluster.\<close>

datatype Hook = Broadcast "16 word" string | FailClosed "16 word" string

record FailoverManager =
  fm_slots :: "SlotManager option"
  fm_broadcast :: bool
  fm_failClosed :: bool

fun bestReplica :: "SlotReplica list \<Rightarrow> string \<Rightarrow> 64 word \<Rightarrow> string" where
  "bestReplica [] bestNode bestLSN = bestNode"
| "bestReplica (r # rs) bestNode bestLSN =
     (if \<not> Healthy r then bestReplica rs bestNode bestLSN
      else if bestNode = [] \<or> MatchLSN r > bestLSN then bestReplica rs (rep_NodeID r) (MatchLSN r)
      else bestReplica rs bestNode bestLSN)"

definition SelectBestReplica :: "FailoverManager \<Rightarrow> 16 word \<Rightarrow> string res" where
  "SelectBestReplica m slot =
     (case fm_slots m of
        None \<Rightarrow> Inl (ErrMsg ''failover manager not configured'')
      | Some sm \<Rightarrow>
          (case GetSlotInfo sm slot of
             None \<Rightarrow> Inl (ErrMsg (''slot '' @ FormatInt (uint slot) @ '' not found''))
           | Some info \<Rightarrow>
               (let best = bestReplica (Replicas info) [] 0
                in if best = [] then Inl (ErrMsg (''no healthy replica for slot '' @ FormatInt (uint slot)))
                   else Inr best)))"

definition primaryOf :: "SlotInfo \<Rightarrow> string" where
  "primaryOf info = (if PrimaryID info = [] then NodeID info else PrimaryID info)"

definition PromoteBestReplica ::
  "FailoverManager \<Rightarrow> 16 word \<Rightarrow> FailoverManager \<times> Hook list \<times> string res" where
  "PromoteBestReplica m slot =
     (case SelectBestReplica m slot of
        Inl e \<Rightarrow> (m, [], Inl e)
      | Inr best \<Rightarrow>
          (case fm_slots m of
             None \<Rightarrow> (m, [], Inr best)
           | Some sm \<Rightarrow>
               (let stale = (case GetSlotInfo sm slot of None \<Rightarrow> [] | Some info \<Rightarrow> primaryOf info)
                in case PromoteReplica sm slot best of
                     (sm', Inl e) \<Rightarrow> (m\<lparr> fm_slots := Some sm' \<rparr>, [], Inl e)
                   | (sm', Inr _) \<Rightarrow>
                       (m\<lparr> fm_slots := Some sm' \<rparr>,
                        (if fm_broadcast m then [Broadcast slot best] else []) @
                        (if stale \<noteq> [] \<and> stale \<noteq> best \<and> fm_failClosed m then [FailClosed slot stale] else []),
                        Inr best))))"

definition CanNodeServeWrites :: "FailoverManager \<Rightarrow> 16 word \<Rightarrow> string \<Rightarrow> bool" where
  "CanNodeServeWrites m slot nodeID =
     (case fm_slots m of
        None \<Rightarrow> False
      | Some sm \<Rightarrow>
          (case GetSlotInfo sm slot of
             None \<Rightarrow> False
           | Some info \<Rightarrow> primaryOf info \<noteq> [] \<and> primaryOf info = nodeID))"

end
