(* ===== verification/GoFmt.thy ===== *)
theory GoFmt
  imports GoLib
begin

text \<open>
  More of the Go standard library: \<^verbatim>\<open>strconv.ParseUint\<close>, the scanning of a decimal integer by
  \<^verbatim>\<open>fmt.Sscanf\<close> with the verb \<^verbatim>\<open>%d\<close>, \<^verbatim>\<open>bufio.Reader.ReadString\<close> up to a newline, and the bulk strings and
  arrays of the RESP protocol, which several components write.
\<close>

abbreviation LF :: char where "LF \<equiv> CHR 0x0A"
abbreviation CR :: char where "CR \<equiv> CHR 0x0D"
abbreviation CRLF :: string where "CRLF \<equiv> [CR, LF]"

section \<open>Errors\<close>

text \<open>\<^verbatim>\<open>err.Error()\<close> (\<^verbatim>\<open>pkg/errors/errors.go\<close>, \<^verbatim>\<open>engine.go\<close>, \<^verbatim>\<open>ringbuf.go\<close>), and the error that
  \<^verbatim>\<open>fmt.Errorf("...: %w", err)\<close> makes of it.\<close>

fun errText :: "go_error \<Rightarrow> string" where
  "errText ErrKeyNotFound = ''key not found''"
| "errText ErrWrongType = ''WRONGTYPE Operation against a key holding the wrong kind of value''"
| "errText ErrNotInteger = ''value is not an integer or out of range''"
| "errText ErrInvalidArgs = ''wrong number of arguments''"
| "errText ErrNotSupported = ''operation not supported''"
| "errText ErrEntryTooLarge = ''entry too large for buffer''"
| "errText ErrInvalidOffset = ''invalid offset''"
| "errText (ErrMsg s) = s"

definition wrapErr :: "string \<Rightarrow> go_error \<Rightarrow> go_error" where
  "wrapErr msg e = ErrMsg (msg @ '': '' @ errText e)"

section \<open>Numbers\<close>

definition FormatUint :: "64 word \<Rightarrow> string" where
  "FormatUint w = format_nat (unat w)"

definition ParseUint :: "string \<Rightarrow> 64 word option" where
  "ParseUint s =
     (case parse_digits s of None \<Rightarrow> None | Some n \<Rightarrow> if n < 2 ^ 64 then Some (of_nat n) else None)"

lemma ParseUint_FormatUint: "ParseUint (FormatUint w) = Some w"
proof -
  have "unat w < 2 ^ 64" using unsigned_less [of w] by simp
  then show ?thesis by (simp add: ParseUint_def FormatUint_def parse_digits_format_nat)
qed

section \<open>Scanning\<close>

text \<open>The white space of \<^verbatim>\<open>fmt\<close>'s scanner. A newline ends the scan with an error, unless the verb skips it,
  which \<^verbatim>\<open>Sscanf\<close> does not; a carriage return before a newline is skipped.\<close>

definition isSpace :: "nat \<Rightarrow> bool" where
  "isSpace r \<longleftrightarrow> 0x09 \<le> r \<and> r \<le> 0x0D \<or> r \<in> {0x20, 0x85, 0xA0, 0x1680, 0x2028, 0x2029, 0x202F, 0x205F, 0x3000} \<or>
     0x2000 \<le> r \<and> r \<le> 0x200A"

function SkipSpace :: "string \<Rightarrow> string option" where
  "SkipSpace s =
     (case s of
        [] \<Rightarrow> Some []
      | c # cs \<Rightarrow>
          (if c = CR \<and> (case cs of [] \<Rightarrow> False | d # _ \<Rightarrow> d = LF) then SkipSpace cs
           else if c = LF then None
           else let (r, n) = DecodeRuneInString s
                in if isSpace r then SkipSpace (drop n s) else Some s))"
  by pat_completeness auto

termination SkipSpace
proof (relation "measure length", goal_cases)
  case (3 s c cs x r n)
  then have "0 < n" using DecodeRuneInString_width [of s] by (metis list.distinct(1) snd_conv)
  with 3 show ?case by simp
qed simp_all

declare SkipSpace.simps [simp del]

text \<open>\<^verbatim>\<open>%d\<close> into an \<^verbatim>\<open>int\<close> or \<^verbatim>\<open>int64\<close> and into a \<^verbatim>\<open>uint64\<close>: the variable, zero before, keeps its value when
  there is no number to scan or it does not fit.\<close>

definition signed_token :: "string \<Rightarrow> string" where
  "signed_token s =
     (case s of
        [] \<Rightarrow> []
      | c # cs \<Rightarrow> if c = CHR ''-'' \<or> c = CHR ''+'' then c # takeWhile is_digit cs else takeWhile is_digit s)"

definition Sscanf_d :: "string \<Rightarrow> int" where
  "Sscanf_d s =
     (case SkipSpace s of
        None \<Rightarrow> 0
      | Some t \<Rightarrow> (case ParseInt (signed_token t) of None \<Rightarrow> 0 | Some i \<Rightarrow> i))"

definition Sscanf_u :: "string \<Rightarrow> 64 word" where
  "Sscanf_u s =
     (case SkipSpace s of
        None \<Rightarrow> 0
      | Some t \<Rightarrow> (case ParseUint (takeWhile is_digit t) of None \<Rightarrow> 0 | Some w \<Rightarrow> w))"

lemma of_char_digit: "is_digit c \<Longrightarrow> 48 \<le> (of_char c :: nat) \<and> of_char c \<le> (57 :: nat)"
  by (simp add: is_digit_def)

lemma SkipSpace_visible:
  assumes "33 \<le> (of_char c :: nat)" "of_char c \<le> (126 :: nat)"
  shows "SkipSpace (c # cs) = Some (c # cs)"
proof -
  have "c \<noteq> CR" "c \<noteq> LF" using assms by auto
  moreover have "DecodeRuneInString (c # cs) = (of_char c, 1)"
    using assms by (simp add: DecodeRuneInString_def)
  moreover have "\<not> isSpace (of_char c)" using assms by (auto simp: isSpace_def)
  ultimately show ?thesis by (simp add: SkipSpace.simps [of "c # cs"])
qed

lemma takeWhile_format_nat:
  assumes "s = [] \<or> \<not> is_digit (hd s)"
  shows "takeWhile is_digit (format_nat n @ s) = format_nat n"
proof -
  have "list_all is_digit (format_nat n)"
    using parse_digits_format_nat [of n] by (simp add: parse_digits_def split: if_splits)
  then have "takeWhile is_digit (format_nat n @ s) = format_nat n @ takeWhile is_digit s"
    by (simp add: list_all_iff takeWhile_append2)
  with assms show ?thesis by (cases s) simp_all
qed

lemma SkipSpace_format_nat: "SkipSpace (format_nat n @ s) = Some (format_nat n @ s)"
  using format_nat_head [of n] by (auto dest!: of_char_digit simp: SkipSpace_visible)

lemma Sscanf_u_FormatUint:
  "s = [] \<or> \<not> is_digit (hd s) \<Longrightarrow> Sscanf_u (FormatUint w @ s) = w"
  by (simp add: Sscanf_u_def FormatUint_def SkipSpace_format_nat takeWhile_format_nat)
    (simp add: ParseUint_FormatUint [unfolded FormatUint_def])

lemma Sscanf_d_FormatInt:
  assumes "is_i64 i" "s = [] \<or> \<not> is_digit (hd s)"
  shows "Sscanf_d (FormatInt i @ s) = i"
proof (cases "i < 0")
  case True
  then have "signed_token (FormatInt i @ s) = FormatInt i"
    using takeWhile_format_nat [OF assms(2)] by (simp add: signed_token_def FormatInt_def)
  moreover have "SkipSpace (FormatInt i @ s) = Some (FormatInt i @ s)"
    using True by (simp add: FormatInt_def SkipSpace_visible)
  ultimately show ?thesis using assms(1) by (simp add: Sscanf_d_def ParseInt_FormatInt)
next
  case False
  obtain c cs where c: "format_nat (nat i) = c # cs" "is_digit c" using format_nat_head by blast
  then have "c \<noteq> CHR ''-''" "c \<noteq> CHR ''+''" by auto
  then have "signed_token (FormatInt i @ s) = FormatInt i"
    using False c takeWhile_format_nat [OF assms(2), of "nat i"] by (simp add: signed_token_def FormatInt_def)
  moreover have "SkipSpace (FormatInt i @ s) = Some (FormatInt i @ s)"
    using False by (simp add: FormatInt_def SkipSpace_format_nat)
  ultimately show ?thesis using assms(1) by (simp add: Sscanf_d_def ParseInt_FormatInt)
qed

section \<open>Reading\<close>

text \<open>\<^verbatim>\<open>ReadString\<close> with a newline: the line with its newline and the rest of the input, or an error at the
  end of the input; \<^verbatim>\<open>io.ReadFull\<close> of \<open>n\<close> bytes.\<close>

definition ReadLine :: "string \<Rightarrow> (string \<times> string) option" where
  "ReadLine s =
     (if LF \<in> set s
      then Some (takeWhile (\<lambda>c. c \<noteq> LF) s @ [LF], drop 1 (dropWhile (\<lambda>c. c \<noteq> LF) s)) else None)"

definition ReadFull :: "nat \<Rightarrow> string \<Rightarrow> (string \<times> string) option" where
  "ReadFull n s = (if n \<le> length s then Some (take n s, drop n s) else None)"

lemma ReadLine_append: "LF \<notin> set a \<Longrightarrow> ReadLine (a @ LF # b) = Some (a @ [LF], b)"
  by (simp add: ReadLine_def takeWhile_append takeWhile_eq_all_conv dropWhile_append)

lemma ReadFull_append: "length a = n \<Longrightarrow> ReadFull n (a @ b) = Some (a, b)"
  by (simp add: ReadFull_def)

section \<open>RESP\<close>

definition bulk :: "string \<Rightarrow> string" where
  "bulk f = ''$'' @ FormatInt (int (length f)) @ CRLF @ f @ CRLF"

definition resp_array :: "string list \<Rightarrow> string" where
  "resp_array fields = ''*'' @ FormatInt (int (length fields)) @ CRLF @ concat (map bulk fields)"

lemma LF_format_nat: "LF \<notin> set (format_nat n)"
proof
  assume "LF \<in> set (format_nat n)"
  moreover have "list_all is_digit (format_nat n)"
    using parse_digits_format_nat [of n] by (simp add: parse_digits_def split: if_splits)
  ultimately have "is_digit LF" by (simp add: list_all_iff)
  then show False by (simp add: is_digit_def)
qed

lemma LF_FormatInt: "LF \<notin> set (FormatInt i)"
  by (simp add: FormatInt_def LF_format_nat)

end
