(* ===== verification/Replication.thy ===== *)
theory Replication
  imports Slots GoFmt Store
begin

text \<open>
  Replication of writes, \<^verbatim>\<open>internal/cluster/replication\<close>: the log of a slot (\<^verbatim>\<open>log.go\<close>), the manager that
  executes and ships a write (\<^verbatim>\<open>manager.go\<close>, \<^verbatim>\<open>stream.go\<close>, \<^verbatim>\<open>peer.go\<close>), the connections of the replicas and the
  wire format (\<^verbatim>\<open>replica_conn.go\<close>), the progress of a replica (\<^verbatim>\<open>applier.go\<close>) and the synchronisation of a
  slot (\<^verbatim>\<open>sync.go\<close>, \<^verbatim>\<open>fullsync.go\<close>, \<^verbatim>\<open>ack.go\<close>).

  A connection is a number; whether a write on it succeeds is a function argument. A peer is its bounded
  queue, and one iteration of its goroutine is the operation \<open>peerStep\<close>.
\<close>

section \<open>The log\<close>

record Op =
  op_Slot :: "16 word"
  op_Epoch :: "64 word"
  op_LSN :: "64 word"
  OpType :: string
  op_Key :: string
  Payload :: string
  ExpireAtNs :: int

record ReplicaAck =
  ack_Slot :: "16 word"
  ack_Epoch :: "64 word"
  ack_NodeID :: string
  AppliedLSN :: "64 word"

record LogStore =
  ls_limit :: int
  logs :: "(16 word, Op list) gomap"
  ls_first :: "(16 word, 64 word) gomap"
  ls_last :: "(16 word, 64 word) gomap"

text \<open>\<^verbatim>\<open>m[k]\<close> of a Go map, which is a zero value when the key is absent.\<close>

definition mget0 :: "'v \<Rightarrow> ('k, 'v) gomap \<Rightarrow> 'k \<Rightarrow> 'v" where
  "mget0 z m k = (case mget m k of None \<Rightarrow> z | Some v \<Rightarrow> v)"

definition NewLogStore :: "int \<Rightarrow> LogStore" where
  "NewLogStore limit = \<lparr> ls_limit = (if limit \<le> 0 then 1024 else limit), logs = [], ls_first = [], ls_last = [] \<rparr>"

definition out_of_order :: "16 word \<Rightarrow> 64 word \<Rightarrow> 64 word \<Rightarrow> go_error" where
  "out_of_order slot got want = ErrMsg (''slot '' @ FormatInt (uint slot) @ '' append out of order: got '' @
     FormatUint got @ '' want '' @ FormatUint want)"

definition log_Append :: "LogStore \<Rightarrow> Op \<Rightarrow> LogStore \<times> unit res" where
  "log_Append s op =
     (let lastLSN = mget0 0 (ls_last s) (op_Slot op)
      in if op_LSN op \<noteq> lastLSN + 1 then (s, Inl (out_of_order (op_Slot op) (op_LSN op) (lastLSN + 1)))
         else let l = mget0 [] (logs s) (op_Slot op) @ [op];
                  l' = (if int (length l) > ls_limit s then drop (length l - nat (ls_limit s)) l else l);
                  first = (if mget (ls_first s) (op_Slot op) = None then mput (op_Slot op) (op_LSN op) (ls_first s)
                           else ls_first s);
                  first' = (case l' of [] \<Rightarrow> first | o1 # _ \<Rightarrow> mput (op_Slot op) (op_LSN o1) first)
              in (s\<lparr> logs := mput (op_Slot op) l' (logs s), ls_first := first',
                     ls_last := mput (op_Slot op) (op_LSN op) (ls_last s) \<rparr>, Inr ()))"

definition ListAfter :: "LogStore \<Rightarrow> 16 word \<Rightarrow> 64 word \<Rightarrow> Op list" where
  "ListAfter s slot lsn = filter (\<lambda>op. op_LSN op > lsn) (mget0 [] (logs s) slot)"

definition log_Range :: "LogStore \<Rightarrow> 16 word \<Rightarrow> (64 word \<times> 64 word) option" where
  "log_Range s slot =
     (case mget (ls_last s) slot of None \<Rightarrow> None | Some lst \<Rightarrow> Some (mget0 0 (ls_first s) slot, lst))"

definition CanReplayFromLSN :: "LogStore \<Rightarrow> 16 word \<Rightarrow> 64 word \<Rightarrow> bool" where
  "CanReplayFromLSN s slot appliedLSN =
     (case log_Range s slot of
        None \<Rightarrow> appliedLSN = 0
      | Some (first, lst) \<Rightarrow>
          if appliedLSN > lst then False else if appliedLSN = lst then True else appliedLSN + 1 \<ge> first)"

section \<open>Acknowledgements\<close>

type_synonym AckTracker = "(16 word, (string, ReplicaAck) gomap) gomap"

definition Track :: "AckTracker \<Rightarrow> ReplicaAck \<Rightarrow> AckTracker" where
  "Track t ack =
     (let m = mget0 [] t (ack_Slot ack);
          t1 = (if mget t (ack_Slot ack) = None then mput (ack_Slot ack) [] t else t)
      in case mget m (ack_NodeID ack) of
           Some current \<Rightarrow>
             (if AppliedLSN current \<ge> AppliedLSN ack then t1
              else mput (ack_Slot ack) (mput (ack_NodeID ack) ack m) t1)
         | None \<Rightarrow> mput (ack_Slot ack) (mput (ack_NodeID ack) ack m) t1)"

definition ack_Get :: "AckTracker \<Rightarrow> 16 word \<Rightarrow> string \<Rightarrow> 64 word" where
  "ack_Get t slot nodeID =
     (case mget (mget0 [] t slot) nodeID of None \<Rightarrow> 0 | Some ack \<Rightarrow> AppliedLSN ack)"

definition ackless :: "ReplicaAck \<Rightarrow> ReplicaAck \<Rightarrow> bool" where
  "ackless a b =
     (if AppliedLSN a = AppliedLSN b then ack_NodeID a < ack_NodeID b else AppliedLSN a > AppliedLSN b)"

definition ack_Snapshot :: "AckTracker \<Rightarrow> 16 word \<Rightarrow> ReplicaAck list" where
  "ack_Snapshot t slot = sort_Slice ackless (map snd (mget0 [] t slot))"

section \<open>The wire format\<close>

definition encodeReplicationApplyCommand :: "Op \<Rightarrow> string" where
  "encodeReplicationApplyCommand op =
     resp_array [''REPLAPPLY'', FormatUint (ucast (op_Slot op)), FormatUint (op_Epoch op), FormatUint (op_LSN op),
       OpType op, op_Key op, FormatInt (ExpireAtNs op), Payload op]"

definition io_EOF :: go_error where "io_EOF = ErrMsg ''EOF''"
definition io_ErrUnexpectedEOF :: go_error where "io_ErrUnexpectedEOF = ErrMsg ''unexpected EOF''"

text \<open>One field: the length line and the bytes with their line end. A negative length panics, in
  \<^verbatim>\<open>make\<close> or in the slice expression; a line without \<^verbatim>\<open>$\<close> leaves the length 0.\<close>

definition readField :: "string \<Rightarrow> (string \<times> string) res go" where
  "readField s =
     (case ReadLine s of
        None \<Rightarrow> Some (Inl io_EOF)
      | Some (lenLine, s1) \<Rightarrow>
          (let blen = (if hd lenLine = CHR ''$'' then Sscanf_d (tl lenLine) else 0)
           in if i64 (blen + 2) < 0 then None
              else case ReadFull (nat (blen + 2)) s1 of
                     None \<Rightarrow> Some (Inl (if s1 = [] then io_EOF else io_ErrUnexpectedEOF))
                   | Some (data, s2) \<Rightarrow>
                       if blen < 0 then None else Some (Inr (take (nat blen) data, s2))))"

fun readFields :: "nat \<Rightarrow> string \<Rightarrow> (string list \<times> string) res go" where
  "readFields 0 s = Some (Inr ([], s))"
| "readFields (Suc n) s =
     (case readField s of
        None \<Rightarrow> None
      | Some (Inl e) \<Rightarrow> Some (Inl e)
      | Some (Inr (f, s1)) \<Rightarrow>
          (case readFields n s1 of
             None \<Rightarrow> None
           | Some (Inl e) \<Rightarrow> Some (Inl e)
           | Some (Inr (fs, s2)) \<Rightarrow> Some (Inr (f # fs, s2))))"

definition opOfFields :: "string list \<Rightarrow> Op" where
  "opOfFields fs = \<lparr> op_Slot = ucast (Sscanf_u (fs ! 1)), op_Epoch = Sscanf_u (fs ! 2), op_LSN = Sscanf_u (fs ! 3),
     OpType = fs ! 4, op_Key = fs ! 5, Payload = fs ! 7, ExpireAtNs = Sscanf_d (fs ! 6) \<rparr>"

text \<open>The text of the error for a line that is no array header is without the quoted line.\<close>

definition readReplicationOp :: "string \<Rightarrow> (Op \<times> string) res go" where
  "readReplicationOp s =
     (case ReadLine s of
        None \<Rightarrow> Some (Inl (wrapErr ''read array header'' io_EOF))
      | Some (line, s1) \<Rightarrow>
          if hd line \<noteq> CHR ''*'' then Some (Inl (ErrMsg ''expected array''))
          else let n = Sscanf_d (tl line)
               in if n < 8 then Some (Inl (ErrMsg (''expected >=8 fields, got '' @ FormatInt n)))
                  else case readFields (nat n) s1 of
                         None \<Rightarrow> None
                       | Some (Inl e) \<Rightarrow> Some (Inl e)
                       | Some (Inr (fs, s2)) \<Rightarrow> Some (Inr (opOfFields fs, s2)))"

text \<open>\<^verbatim>\<open>receiveLoop\<close> of a replica on the bytes that arrive until the connection ends: \<open>onOp\<close> is the callback,
  whose errors are only logged.\<close>

lemma ReadLine_shorter: "ReadLine s = Some (l, s') \<Longrightarrow> length s' < length s"
proof -
  assume a: "ReadLine s = Some (l, s')"
  then have "s' = drop 1 (dropWhile (\<lambda>c. c \<noteq> LF) s)" "LF \<in> set s" by (auto simp: ReadLine_def split: if_splits)
  moreover from this have "s \<noteq> []" by auto
  ultimately show ?thesis using length_dropWhile_le [of "\<lambda>c. c \<noteq> LF" s] by (cases s) auto
qed

lemma readField_shorter: "readField s = Some (Inr (f, s')) \<Longrightarrow> length s' \<le> length s"
  using ReadLine_shorter [of s]
  by (auto simp: readField_def ReadFull_def Let_def split: option.splits if_splits)

lemma readFields_shorter: "readFields n s = Some (Inr (fs, s')) \<Longrightarrow> length s' \<le> length s"
proof (induction n arbitrary: s fs)
  case (Suc n)
  then obtain f s1 fs' where "readField s = Some (Inr (f, s1))" "readFields n s1 = Some (Inr (fs', s'))"
    by (auto split: option.splits sum.splits)
  with Suc.IH readField_shorter show ?case by (meson order_trans)
qed simp

lemma readReplicationOp_shorter: "readReplicationOp s = Some (Inr (op, s')) \<Longrightarrow> length s' < length s"
proof -
  assume a: "readReplicationOp s = Some (Inr (op, s'))"
  then obtain line s1 n fs where "ReadLine s = Some (line, s1)" "readFields n s1 = Some (Inr (fs, s'))"
    by (auto simp: readReplicationOp_def Let_def split: option.splits if_splits sum.splits)
  then show ?thesis using ReadLine_shorter readFields_shorter by (meson le_less_trans)
qed

function receiveLoop :: "(Op \<Rightarrow> 's \<Rightarrow> 's) \<Rightarrow> 's \<Rightarrow> string \<Rightarrow> ('s \<times> go_error) go" where
  "receiveLoop onOp st s =
     (case readReplicationOp s of
        None \<Rightarrow> None
      | Some (Inl e) \<Rightarrow> Some (st, wrapErr ''read op'' e)
      | Some (Inr (op, s')) \<Rightarrow> receiveLoop onOp (onOp op st) s')"
  by pat_completeness auto

termination receiveLoop
  by (relation "measure (\<lambda>(onOp, st, s). length s)") (auto simp: readReplicationOp_shorter)

declare receiveLoop.simps [simp del]

text \<open>\<^verbatim>\<open>connectAndReceive\<close> once the handshake is sent: \<open>chunk\<close> is what the first reader has taken from the
  connection when it finds the line of the answer, \<open>s\<close> what arrives later. The loop makes a reader of its own.\<close>

definition connectAndReceive :: "(Op \<Rightarrow> 's \<Rightarrow> 's) \<Rightarrow> 's \<Rightarrow> string \<Rightarrow> string \<Rightarrow> ('s \<times> go_error) go" where
  "connectAndReceive onOp st chunk s =
     (case ReadLine chunk of
        None \<Rightarrow> Some (st, wrapErr ''handshake read'' io_EOF)
      | Some (line, _) \<Rightarrow>
          if line \<noteq> ''+OK'' @ [LF] then Some (st, ErrMsg ''unexpected handshake response'')
          else receiveLoop onOp st s)"

text \<open>One round of the loop of \<^verbatim>\<open>ReplicaClient.run\<close>, after a connection: \<open>failed\<close> is what the gossip says of the
  master. The result is the number of failures in a row and what comes next.\<close>

datatype ClientNext = Reconnect | SelfPromote | ClientStop

definition clientRound :: "int \<Rightarrow> bool \<Rightarrow> go_error option \<Rightarrow> (unit \<Rightarrow> bool) option \<Rightarrow> int \<times> ClientNext" where
  "clientRound consecutiveFailures failoverDone err masterIsFailed =
     (let n = (if err = None then 0 else consecutiveFailures + 1)
      in if n \<ge> 3 \<and> (case masterIsFailed of None \<Rightarrow> False | Some f \<Rightarrow> f ()) then (n, SelfPromote)
         else if failoverDone then (n, ClientStop) else (n, Reconnect))"

section \<open>Replica connections\<close>

type_synonym MasterConnRegistry = "(string, nat) gomap"

text \<open>The registry and the connections that are closed.\<close>

definition Register :: "MasterConnRegistry \<Rightarrow> string \<Rightarrow> nat \<Rightarrow> MasterConnRegistry \<times> nat list" where
  "Register r replicaID conn =
     (mput replicaID conn r, case mget r replicaID of None \<Rightarrow> [] | Some old \<Rightarrow> [old])"

fun RemoveByConn :: "MasterConnRegistry \<Rightarrow> nat \<Rightarrow> MasterConnRegistry" where
  "RemoveByConn [] conn = []"
| "RemoveByConn ((k, c) # r) conn = (if c = conn then r else (k, c) # RemoveByConn r conn)"

text \<open>\<^verbatim>\<open>Broadcast\<close>: the registry without the replicas whose connection fails, and what is sent.\<close>

definition repl_Broadcast :: "(nat \<Rightarrow> bool) \<Rightarrow> MasterConnRegistry \<Rightarrow> Op \<Rightarrow> MasterConnRegistry \<times> (nat \<times> string) list" where
  "repl_Broadcast wr r op =
     (let data = encodeReplicationApplyCommand op
      in (fold (\<lambda>(k, c) r'. if wr c then r' else mdel k r') r r,
          map (\<lambda>(k, c). (c, data)) (filter (\<lambda>(k, c). wr c) r)))"

definition conn_Count :: "MasterConnRegistry \<Rightarrow> int" where
  "conn_Count r = int (length r)"

section \<open>The stream to the replicas of a slot\<close>

record PeerTarget =
  pt_NodeID :: string
  pt_Addr :: string

record peer =
  peer_addr :: string
  peer_queue :: "Op list"
  peer_cap :: int

record Stream =
  peers :: "(string, peer) gomap"
  queueSize :: int

definition newPeer :: "PeerTarget \<Rightarrow> int \<Rightarrow> peer" where
  "newPeer target n = \<lparr> peer_addr = pt_Addr target, peer_queue = [], peer_cap = (if n \<le> 0 then 1024 else n) \<rparr>"

definition enqueue :: "peer \<Rightarrow> Op \<Rightarrow> peer \<times> bool" where
  "enqueue p op =
     (if int (length (peer_queue p)) < peer_cap p then (p\<lparr> peer_queue := peer_queue p @ [op] \<rparr>, True)
      else (p, False))"

definition NewStream :: "int \<Rightarrow> Stream" where
  "NewStream n = \<lparr> peers = [], queueSize = n \<rparr>"

definition Enqueue :: "Stream \<Rightarrow> PeerTarget \<Rightarrow> Op \<Rightarrow> Stream" where
  "Enqueue s target op =
     (if pt_NodeID target = [] \<or> pt_Addr target = [] then s
      else let p = (case mget (peers s) (pt_NodeID target) of
                      None \<Rightarrow> newPeer target (queueSize s)
                    | Some p \<Rightarrow> if peer_addr p \<noteq> pt_Addr target then newPeer target (queueSize s) else p)
           in s\<lparr> peers := mput (pt_NodeID target) (fst (enqueue p op)) (peers s) \<rparr>)"

definition stream_Close :: "Stream \<Rightarrow> Stream" where
  "stream_Close s = s\<lparr> peers := [] \<rparr>"

section \<open>The manager\<close>

record ReplManager =
  rm_logs :: LogStore
  rm_acks :: AckTracker
  rm_conns :: MasterConnRegistry
  rm_stream :: Stream
  rm_inbound :: "(16 word, Op list) gomap"

definition NewReplManager :: "LogStore option \<Rightarrow> ReplManager" where
  "NewReplManager l = \<lparr> rm_logs = (case l of None \<Rightarrow> NewLogStore 1024 | Some s \<Rightarrow> s), rm_acks = [], rm_conns = [],
     rm_stream = NewStream 1024, rm_inbound = [] \<rparr>"

record WriteRequest =
  wr_Slot :: "16 word"
  wr_OpType :: string
  wr_Key :: string
  wr_Payload :: string
  wr_ExpireAtNs :: int

definition dispatch ::
  "(nat \<Rightarrow> bool) \<Rightarrow> (16 word \<Rightarrow> PeerTarget list) option \<Rightarrow> ReplManager \<Rightarrow> Op \<Rightarrow> ReplManager \<times> (nat \<times> string) list" where
  "dispatch wr resolve m op =
     (let (conns, sent) = repl_Broadcast wr (rm_conns m) op;
          m1 = m\<lparr> rm_conns := conns \<rparr>
      in (case resolve of
            None \<Rightarrow> m1
          | Some f \<Rightarrow> m1\<lparr> rm_stream := fold (\<lambda>target s. Enqueue s target op) (f (op_Slot op)) (rm_stream m1) \<rparr>, sent))"

text \<open>\<^verbatim>\<open>ApplyWrite\<close>: \<open>apply\<close> is the callback on the data, \<open>alloc\<close> the allocator of sequence numbers on the slot
  table. The result is the data, the slot table, the manager, what is sent, and the operation or the error.\<close>

definition ApplyWrite ::
  "(nat \<Rightarrow> bool) \<Rightarrow> (16 word \<Rightarrow> PeerTarget list) option \<Rightarrow> ('s \<Rightarrow> 's \<times> unit res) \<Rightarrow>
     ('a \<Rightarrow> 16 word \<Rightarrow> 'a \<times> (64 word \<times> 64 word) res) option \<Rightarrow> 's \<Rightarrow> 'a \<Rightarrow> ReplManager \<Rightarrow> WriteRequest \<Rightarrow>
     's \<times> 'a \<times> ReplManager \<times> (nat \<times> string) list \<times> Op res" where
  "ApplyWrite wr resolve apply alloc st tbl m req =
     (case apply st of
        (st', Inl e) \<Rightarrow> (st', tbl, m, [], Inl e)
      | (st', Inr _) \<Rightarrow>
          (case alloc of
             None \<Rightarrow> (st', tbl, m, [], Inl (ErrMsg ''lsn allocator is not configured''))
           | Some f \<Rightarrow>
               (case f tbl (wr_Slot req) of
                  (tbl', Inl e) \<Rightarrow>
                    (st', tbl', m, [], Inl (wrapErr (''allocate lsn for slot '' @ FormatInt (uint (wr_Slot req))) e))
                | (tbl', Inr (epoch, lsn)) \<Rightarrow>
                    (let op = \<lparr> op_Slot = wr_Slot req, op_Epoch = epoch, op_LSN = lsn, OpType = wr_OpType req,
                                op_Key = wr_Key req, Payload = wr_Payload req, ExpireAtNs = wr_ExpireAtNs req \<rparr>
                     in case log_Append (rm_logs m) op of
                          (l', Inl e) \<Rightarrow> (st', tbl', m\<lparr> rm_logs := l' \<rparr>, [], Inl (wrapErr ''append replication op'' e))
                        | (l', Inr _) \<Rightarrow>
                            (let (m', sent) = dispatch wr resolve (m\<lparr> rm_logs := l' \<rparr>) op
                             in (st', tbl', m', sent, Inr op))))))"

definition ReceiveTransportOp :: "ReplManager \<Rightarrow> Op \<Rightarrow> ReplManager" where
  "ReceiveTransportOp m op =
     m\<lparr> rm_inbound := mput (op_Slot op) (mget0 [] (rm_inbound m) (op_Slot op) @ [op]) (rm_inbound m) \<rparr>"

definition InboundAfter :: "ReplManager \<Rightarrow> 16 word \<Rightarrow> 64 word \<Rightarrow> Op list" where
  "InboundAfter m slot lsn = filter (\<lambda>op. op_LSN op > lsn) (mget0 [] (rm_inbound m) slot)"

text \<open>One turn of a peer's goroutine: the first operation of the queue is sent; if that succeeds the
  acknowledgement is tracked and the slot table told.\<close>

definition onSent :: "('a \<Rightarrow> 16 word \<Rightarrow> string \<Rightarrow> 64 word \<Rightarrow> 'a) option \<Rightarrow> 'a \<Rightarrow> ReplManager \<Rightarrow> string \<Rightarrow> Op \<Rightarrow> 'a \<times> ReplManager" where
  "onSent update tbl m nodeID op =
     (case update of None \<Rightarrow> tbl | Some f \<Rightarrow> f tbl (op_Slot op) nodeID (op_LSN op),
      m\<lparr> rm_acks := Track (rm_acks m) \<lparr> ack_Slot = op_Slot op, ack_Epoch = op_Epoch op, ack_NodeID = nodeID,
           AppliedLSN = op_LSN op \<rparr> \<rparr>)"

definition peerStep ::
  "(string \<Rightarrow> Op \<Rightarrow> bool) \<Rightarrow> ('a \<Rightarrow> 16 word \<Rightarrow> string \<Rightarrow> 64 word \<Rightarrow> 'a) option \<Rightarrow> 'a \<Rightarrow> ReplManager \<Rightarrow> string \<Rightarrow> 'a \<times> ReplManager" where
  "peerStep send update tbl m nodeID =
     (case mget (peers (rm_stream m)) nodeID of
        None \<Rightarrow> (tbl, m)
      | Some p \<Rightarrow>
          (case peer_queue p of
             [] \<Rightarrow> (tbl, m)
           | op # ops \<Rightarrow>
               (let m1 = m\<lparr> rm_stream := (rm_stream m)\<lparr> peers :=
                              mput nodeID (p\<lparr> peer_queue := ops \<rparr>) (peers (rm_stream m)) \<rparr> \<rparr>
                in if send (peer_addr p) op then onSent update tbl m1 nodeID op else (tbl, m1))))"

definition ReplicaProgress :: "ReplManager \<Rightarrow> 16 word \<Rightarrow> string \<Rightarrow> 64 word" where
  "ReplicaProgress m slot nodeID = ack_Get (rm_acks m) slot nodeID"

definition ReplicaProgressSnapshot :: "ReplManager \<Rightarrow> 16 word \<Rightarrow> ReplicaAck list" where
  "ReplicaProgressSnapshot m slot = ack_Snapshot (rm_acks m) slot"

definition IncrementalOps :: "ReplManager \<Rightarrow> 16 word \<Rightarrow> 64 word \<Rightarrow> Op list option" where
  "IncrementalOps m slot appliedLSN =
     (if CanReplayFromLSN (rm_logs m) slot appliedLSN then Some (ListAfter (rm_logs m) slot appliedLSN) else None)"

section \<open>The replica\<close>

record ApplyProgress =
  ap_Epoch :: "64 word"
  ap_LSN :: "64 word"

type_synonym ReplicaApplier = "(16 word, ApplyProgress) gomap"

text \<open>\<^verbatim>\<open>Begin\<close> writes only its own copy of the progress: the applier changes at a commit.\<close>

definition applier_Begin :: "ReplicaApplier \<Rightarrow> Op \<Rightarrow> bool res" where
  "applier_Begin a op =
     (let state = mget0 \<lparr> ap_Epoch = 0, ap_LSN = 0 \<rparr> a (op_Slot op)
      in if op_Epoch op < ap_Epoch state
         then Inl (ErrMsg (''stale replication epoch: got '' @ FormatUint (op_Epoch op) @ '' want >= '' @
                           FormatUint (ap_Epoch state)))
         else let state1 = (if op_Epoch op > ap_Epoch state then \<lparr> ap_Epoch = op_Epoch op, ap_LSN = 0 \<rparr> else state)
              in Inr (op_LSN op \<le> ap_LSN state1))"

definition applier_Commit :: "ReplicaApplier \<Rightarrow> Op \<Rightarrow> ReplicaApplier" where
  "applier_Commit a op = mput (op_Slot op) \<lparr> ap_Epoch = op_Epoch op, ap_LSN = op_LSN op \<rparr> a"

section \<open>Full synchronisation\<close>

definition NeedsFullSync :: "ReplManager \<Rightarrow> 16 word \<Rightarrow> 64 word \<Rightarrow> bool" where
  "NeedsFullSync m slot appliedLSN = (\<not> CanReplayFromLSN (rm_logs m) slot appliedLSN)"

definition SnapshotLSN :: "ReplManager \<Rightarrow> 16 word \<Rightarrow> 64 word" where
  "SnapshotLSN m slot = (case log_Range (rm_logs m) slot of None \<Rightarrow> 0 | Some (first, lst) \<Rightarrow> lst)"

definition PostSnapshotOps :: "ReplManager \<Rightarrow> 16 word \<Rightarrow> 64 word \<Rightarrow> Op list" where
  "PostSnapshotOps m slot lsn = ListAfter (rm_logs m) slot lsn"

text \<open>The copy of the keys of a slot from one store to another. A key without an entry is skipped; a time to
  live that is over is sent as 0.\<close>

definition remaining :: "int \<Rightarrow> int option \<Rightarrow> int" where
  "remaining now expireAt =
     (case expireAt of None \<Rightarrow> 0 | Some t \<Rightarrow> if t - now < 0 then 0 else t - now)"

fun syncKeys :: "Json \<Rightarrow> int \<Rightarrow> 64 word \<Rightarrow> Store \<Rightarrow> Store \<Rightarrow> string list \<Rightarrow> (Store \<times> Store \<times> unit res) go" where
  "syncKeys J now mem source target [] = Some (source, target, Inr ())"
| "syncKeys J now mem source target (key # keys) =
     do { (source1, r) \<leftarrow> st_GetEntry now source key;
          case r of
            Inl _ \<Rightarrow> syncKeys J now mem source1 target keys
          | Inr entry \<Rightarrow>
              (case SerializeEntryValue J (Some entry) of
                 Inl e \<Rightarrow> Some (source1, target, Inl (wrapErr (''serialize entry '' @ key) e))
               | Inr serialized \<Rightarrow>
                   do { (target1, r1) \<leftarrow> st_RestoreEntry J now mem target key (of_char (hd serialized))
                           (tl serialized) (remaining now (ee_ExpireAt entry));
                        case r1 of
                          Inl e \<Rightarrow> Some (source1, target1, Inl (wrapErr (''restore entry '' @ key) e))
                        | Inr _ \<Rightarrow> syncKeys J now mem source1 target1 keys }) }"

fun replayOps :: "(Op \<Rightarrow> Store \<Rightarrow> (Store \<times> unit res) go) \<Rightarrow> Store \<Rightarrow> Op list \<Rightarrow> (Store \<times> unit res) go" where
  "replayOps applyOp target [] = Some (target, Inr ())"
| "replayOps applyOp target (op # ops) =
     do { (target1, r) \<leftarrow> applyOp op target;
          case r of
            Inl e \<Rightarrow> Some (target1, Inl (wrapErr (''replay post-snapshot op lsn='' @ FormatUint (op_LSN op)) e))
          | Inr _ \<Rightarrow> replayOps applyOp target1 ops }"

definition FullSyncSlot ::
  "Json \<Rightarrow> int \<Rightarrow> 64 word \<Rightarrow> ReplManager \<Rightarrow> 16 word \<Rightarrow> 64 word \<Rightarrow> Store \<Rightarrow> Store \<Rightarrow>
     (Op \<Rightarrow> Store \<Rightarrow> (Store \<times> unit res) go) option \<Rightarrow> (Store \<times> Store \<times> unit res) go" where
  "FullSyncSlot J now mem m slot snapshotLSN source target applyOp =
     do { existing \<leftarrow> st_Keys now target ''*'';
          let existing' = filter (\<lambda>key. KeySlot key = slot) existing;
          (target1, _) \<leftarrow> (if existing' \<noteq> [] then st_Del target existing' else Some (target, 0));
          (source1, n) \<leftarrow> st_CountKeysInSlot now source slot;
          (source2, keys) \<leftarrow> st_KeysInSlot now source1 slot (if n < 1024 then 1024 else n);
          (source3, target2, r) \<leftarrow> syncKeys J now mem source2 target1 keys;
          case r of
            Inl e \<Rightarrow> Some (source3, target2, Inl e)
          | Inr _ \<Rightarrow>
              (case applyOp of
                 None \<Rightarrow> Some (source3, target2, Inr ())
               | Some f \<Rightarrow>
                   do { (target3, r2) \<leftarrow> replayOps f target2 (PostSnapshotOps m slot snapshotLSN);
                        Some (source3, target3, r2) }) }"

end
