(* ===== verification/SlotsProps.thy ===== *)
theory SlotsProps
  imports Slots
begin

text \<open>
  Correctness of the slot table: the index from nodes to slots agrees with the owners of the slots in
  every reachable state; what a promotion and a failover do; the ranges of the cluster view; what a
  restart keeps of the table.
\<close>

named_theorems slot_view \<open>the owners and the index after an elementary update\<close>

section \<open>Elementary updates\<close>

lemma in_range_inj: "in_range a \<Longrightarrow> in_range b \<Longrightarrow> unat a = unat b \<longleftrightarrow> a = b"
  by (simp add: word_unat_eq_iff)

lemma length_slot_upd [simp]: "length (slots (slot_upd slot f sm)) = length (slots sm)"
  by (simp add: slot_upd_def)

lemma nodeSlots_slot_upd [simp]: "nodeSlots (slot_upd slot f sm) = nodeSlots sm"
  by (simp add: slot_upd_def)

lemma slotsOf_slot_upd [simp]: "slotsOf (slot_upd slot f sm) = slotsOf sm"
  by (simp add: slotsOf_def fun_eq_iff)

lemma slot_at_slot_upd [slot_view]:
  "length (slots sm) = SlotCount \<Longrightarrow> in_range slot \<Longrightarrow>
     slot_at (slot_upd slot f sm) s = (if s = slot then f (slot_at sm slot) else slot_at sm s)"
  by (auto simp: slot_at_def slot_upd_def in_range_def nth_list_update word_unat_eq_iff)

lemma markDirty_view [simp]:
  "slots (markDirty sm) = slots sm" "nodeSlots (markDirty sm) = nodeSlots sm"
  "slot_at (markDirty sm) = slot_at sm" "slotsOf (markDirty sm) = slotsOf sm"
  by (simp_all add: markDirty_def slot_at_def slotsOf_def fun_eq_iff)

lemma appendSlot_view [simp]:
  "slots (appendSlot n slot sm) = slots sm" "slot_at (appendSlot n slot sm) = slot_at sm"
  "mwf (nodeSlots sm) \<Longrightarrow> mwf (nodeSlots (appendSlot n slot sm))"
  by (simp_all add: appendSlot_def slot_at_def fun_eq_iff)

lemma slotsOf_appendSlot [slot_view]:
  "slotsOf (appendSlot n slot sm) m = (if m = n then slotsOf sm n @ [slot] else slotsOf sm m)"
  by (simp add: appendSlot_def slotsOf_def go_map)

lemma removeSlotFromNode_view [simp]:
  "slots (removeSlotFromNode n slot sm) = slots sm" "slot_at (removeSlotFromNode n slot sm) = slot_at sm"
  "mwf (nodeSlots sm) \<Longrightarrow> mwf (nodeSlots (removeSlotFromNode n slot sm))"
  by (simp_all add: removeSlotFromNode_def slot_at_def fun_eq_iff)

lemma slotsOf_removeSlotFromNode [slot_view]:
  "slotsOf (removeSlotFromNode n slot sm) m = (if m = n then remove1 slot (slotsOf sm n) else slotsOf sm m)"
  by (simp add: removeSlotFromNode_def slotsOf_def go_map remove1_idem split: option.splits)

section \<open>The invariant\<close>

definition indexed :: "SlotManager \<Rightarrow> bool" where
  "indexed sm \<longleftrightarrow>
     (\<forall>n. n \<noteq> [] \<longrightarrow> distinct (slotsOf sm n) \<and>
        (\<forall>slot. slot \<in> set (slotsOf sm n) \<longleftrightarrow> in_range slot \<and> NodeID (slot_at sm slot) = n))"

definition sm_wf :: "SlotManager \<Rightarrow> bool" where
  "sm_wf sm \<longleftrightarrow> length (slots sm) = SlotCount \<and> mwf (nodeSlots sm) \<and> indexed sm"

definition primaries :: "SlotManager \<Rightarrow> bool" where
  "primaries sm \<longleftrightarrow> (\<forall>slot. in_range slot \<longrightarrow> PrimaryID (slot_at sm slot) = NodeID (slot_at sm slot))"

definition sm_ok :: "SlotManager \<Rightarrow> bool" where
  "sm_ok sm \<longleftrightarrow> sm_wf sm \<and> primaries sm"

lemma sm_wf_length [simp]: "sm_wf sm \<Longrightarrow> length (slots sm) = SlotCount"
  by (simp add: sm_wf_def)

lemma sm_wf_mwf: "sm_wf sm \<Longrightarrow> mwf (nodeSlots sm)"
  by (simp add: sm_wf_def)

lemma sm_wf_index:
  "sm_wf sm \<Longrightarrow> n \<noteq> [] \<Longrightarrow> distinct (slotsOf sm n)"
  "sm_wf sm \<Longrightarrow> n \<noteq> [] \<Longrightarrow> slot \<in> set (slotsOf sm n) \<longleftrightarrow> in_range slot \<and> NodeID (slot_at sm slot) = n"
  by (simp_all add: sm_wf_def indexed_def)

lemma slot_at_new: "in_range slot \<Longrightarrow> slot_at NewSlotManager slot = newSlotInfo"
  by (simp add: slot_at_def NewSlotManager_def in_range_def)

lemma sm_ok_New: "sm_ok NewSlotManager"
  by (auto simp: sm_ok_def sm_wf_def indexed_def primaries_def slot_at_new newSlotInfo_def)
    (simp_all add: NewSlotManager_def slotsOf_def)

lemma sm_ok_markDirty [simp]: "sm_wf (markDirty sm) = sm_wf sm" "primaries (markDirty sm) = primaries sm"
  by (simp_all add: sm_wf_def indexed_def primaries_def)

text \<open>An update of one slot that leaves its owner keeps the index.\<close>

lemma sm_wf_slot_upd:
  "sm_wf sm \<Longrightarrow> in_range slot \<Longrightarrow> NodeID (f (slot_at sm slot)) = NodeID (slot_at sm slot) \<Longrightarrow>
     sm_wf (slot_upd slot f sm)"
  by (simp add: sm_wf_def indexed_def slot_view)

section \<open>A change of owner\<close>

lemma owner_wf:
  assumes "sm_wf sm" "in_range slot" "length (slots sm') = SlotCount" "mwf (nodeSlots sm')"
    and "\<And>s. in_range s \<Longrightarrow> NodeID (slot_at sm' s) = (if s = slot then n else NodeID (slot_at sm s))"
    and "\<And>m. m \<noteq> [] \<Longrightarrow> distinct (slotsOf sm' m) \<and>
      set (slotsOf sm' m) = set (slotsOf sm m) - {slot} \<union> (if m = n then {slot} else {})"
  shows "sm_wf sm'"
proof -
  have "s \<in> set (slotsOf sm' m) \<longleftrightarrow> in_range s \<and> NodeID (slot_at sm' s) = m" if "m \<noteq> []" for s m
  proof (cases "s = slot")
    case True
    with assms(2) assms(5) [of s] assms(6) [OF that] show ?thesis by (cases "m = n") simp_all
  next
    case False
    with assms(5) [of s] assms(6) [OF that] sm_wf_index(2) [OF assms(1) that, of s] show ?thesis
      by (cases "in_range s") simp_all
  qed
  moreover have "distinct (slotsOf sm' m)" if "m \<noteq> []" for m
    using assms(6) [OF that] by (rule conjunct1)
  ultimately show ?thesis using assms(3,4) by (simp add: sm_wf_def indexed_def)
qed

lemma slot_at_setOwnerLocked [slot_view]:
  "length (slots sm) = SlotCount \<Longrightarrow> in_range slot \<Longrightarrow>
     slot_at (setOwnerLocked slot n sm) s = (if s = slot then (slot_at sm slot)\<lparr> NodeID := n \<rparr> else slot_at sm s)"
  by (simp add: setOwnerLocked_def Let_def slot_view)

lemma slotsOf_setOwnerLocked:
  assumes "sm_wf sm" "in_range slot" "m \<noteq> []"
  shows "slotsOf (setOwnerLocked slot n sm) m =
    (if NodeID (slot_at sm slot) = n then slotsOf sm m
     else if m = NodeID (slot_at sm slot) then remove1 slot (slotsOf sm m)
     else if m = n then slotsOf sm n @ [slot] else slotsOf sm m)"
  using assms sm_wf_index(2) [OF assms(1), of n slot]
  by (auto simp: setOwnerLocked_def Let_def slot_view)

lemma setOwnerLocked_index:
  assumes "sm_wf sm" "in_range slot" "m \<noteq> []"
  shows "distinct (slotsOf (setOwnerLocked slot n sm) m) \<and> set (slotsOf (setOwnerLocked slot n sm) m) =
    set (slotsOf sm m) - {slot} \<union> (if m = n then {slot} else {})"
proof -
  have "distinct (slotsOf sm m)" "slot \<in> set (slotsOf sm m) \<longleftrightarrow> m = NodeID (slot_at sm slot)"
    using assms(2) sm_wf_index(1) [OF assms(1,3)] sm_wf_index(2) [OF assms(1,3), of slot] by simp_all metis
  then show ?thesis unfolding slotsOf_setOwnerLocked [OF assms] by (auto split: if_splits)
qed

lemma setOwnerLocked_length [simp]: "length (slots (setOwnerLocked slot n sm)) = length (slots sm)"
  by (simp add: setOwnerLocked_def Let_def)

lemma setOwnerLocked_mwf: "mwf (nodeSlots sm) \<Longrightarrow> mwf (nodeSlots (setOwnerLocked slot n sm))"
  by (simp add: setOwnerLocked_def Let_def)

lemma setOwnerLocked_wf:
  assumes "sm_wf sm" "in_range slot"
  shows "sm_wf (setOwnerLocked slot n sm)"
proof (rule owner_wf [OF assms, where n = n])
  show "mwf (nodeSlots (setOwnerLocked slot n sm))" by (intro setOwnerLocked_mwf sm_wf_mwf assms)
qed (use assms in \<open>simp_all add: slot_view setOwnerLocked_index\<close>)

lemma AssignSlot_view:
  assumes "sm_wf sm" "in_range slot"
  shows "slot_at (fst (AssignSlot sm slot n)) s =
      (if s = slot then (slot_at sm slot)\<lparr> NodeID := n, PrimaryID := n, Replicas := [], si_State := SlotStateNormal \<rparr>
       else slot_at sm s)"
    and "m \<noteq> [] \<Longrightarrow> slotsOf (fst (AssignSlot sm slot n)) m =
      remove1 slot (slotsOf sm m) @ (if m = n then [slot] else [])"
proof -
  show "slot_at (fst (AssignSlot sm slot n)) s =
      (if s = slot then (slot_at sm slot)\<lparr> NodeID := n, PrimaryID := n, Replicas := [], si_State := SlotStateNormal \<rparr>
       else slot_at sm s)"
    using assms by (simp add: AssignSlot_def Let_def slot_view)
  show "slotsOf (fst (AssignSlot sm slot n)) m = remove1 slot (slotsOf sm m) @ (if m = n then [slot] else [])"
    if "m \<noteq> []"
    using assms that sm_wf_index(2) [OF assms(1) that, of slot]
    by (auto simp: AssignSlot_def Let_def slot_view remove1_idem)
qed

lemma AssignSlot_ok:
  assumes ok: "sm_ok sm"
  shows "sm_ok (fst (AssignSlot sm slot n))"
proof (cases "in_range slot")
  case True
  from ok have wf: "sm_wf sm" by (simp add: sm_ok_def)
  have "sm_wf (fst (AssignSlot sm slot n))"
  proof (rule owner_wf [OF wf True, where n = n])
    show "length (slots (fst (AssignSlot sm slot n))) = SlotCount" "mwf (nodeSlots (fst (AssignSlot sm slot n)))"
      using wf True by (simp_all add: AssignSlot_def Let_def sm_wf_def)
    show "NodeID (slot_at (fst (AssignSlot sm slot n)) s) = (if s = slot then n else NodeID (slot_at sm s))" for s
      using wf True by (simp add: AssignSlot_view)
    show "distinct (slotsOf (fst (AssignSlot sm slot n)) m) \<and> set (slotsOf (fst (AssignSlot sm slot n)) m) =
        set (slotsOf sm m) - {slot} \<union> (if m = n then {slot} else {})" if "m \<noteq> []" for m
      using wf True that sm_wf_index(1) [OF wf that] by (auto simp: AssignSlot_view)
  qed
  moreover have "primaries (fst (AssignSlot sm slot n))"
    using ok wf True by (simp add: sm_ok_def primaries_def AssignSlot_view)
  ultimately show ?thesis by (simp add: sm_ok_def)
next
  case False
  with ok show ?thesis by (simp add: AssignSlot_def)
qed

text \<open>An update of a slot, after a change of its owner or without one, that ends with the owner as primary.\<close>

lemma owner_upd_ok:
  assumes "sm_ok sm" "in_range slot" "\<And>i. NodeID (f i) = NodeID i" "\<And>i. NodeID i = n \<Longrightarrow> PrimaryID (f i) = n"
  shows "sm_ok (slot_upd slot f (setOwnerLocked slot n sm))"
  using assms by (auto simp: sm_ok_def sm_wf_slot_upd setOwnerLocked_wf slot_view primaries_def)

lemma slot_upd_ok:
  assumes "sm_ok sm" "in_range slot" "\<And>i. NodeID (f i) = NodeID i"
    "\<And>i. PrimaryID i = NodeID i \<Longrightarrow> PrimaryID (f i) = NodeID i"
  shows "sm_ok (slot_upd slot f sm)"
  using assms by (auto simp: sm_ok_def sm_wf_slot_upd slot_view primaries_def)

lemma sm_ok_dirty [simp]: "sm_ok (markDirty sm) = sm_ok sm"
  by (simp add: sm_ok_def)

section \<open>Every operation keeps the invariant\<close>

lemma AssignSlotRange_ok: "sm_ok sm \<Longrightarrow> sm_ok (fst (AssignSlotRange sm slot stop n))"
proof (induction sm slot stop n rule: AssignSlotRange.induct)
  case (1 sm slot stop n)
  obtain sm' r where a: "AssignSlot sm slot n = (sm', r)" by (cases "AssignSlot sm slot n")
  then have "sm_ok sm'" using AssignSlot_ok [OF "1.prems", of slot n] by simp
  with 1 a show ?case by (subst AssignSlotRange.simps) (cases r; simp)
qed

lemma SetSlotConfigEpoch_ok: "sm_ok sm \<Longrightarrow> sm_ok (SetSlotConfigEpoch sm slot epoch)"
  by (auto simp: SetSlotConfigEpoch_def sm_ok_def [of sm] in_range_def intro!: slot_upd_ok)

lemma ConfigureReplication_ok: "sm_ok sm \<Longrightarrow> sm_ok (fst (ConfigureReplication sm slot p rs epoch))"
  by (auto simp: ConfigureReplication_def Let_def intro!: owner_upd_ok)

lemma AddSlotReplica_ok: "sm_ok sm \<Longrightarrow> sm_ok (AddSlotReplica sm slot r)"
  by (auto simp: AddSlotReplica_def Let_def intro!: slot_upd_ok)

lemma AllocateLSN_ok: "sm_ok sm \<Longrightarrow> sm_ok (fst (AllocateLSN sm slot))"
  by (auto simp: AllocateLSN_def Let_def intro!: slot_upd_ok)

lemma UpdateReplicaLSN_ok: "sm_ok sm \<Longrightarrow> sm_ok (fst (UpdateReplicaLSN sm slot n lsn))"
  by (auto simp: UpdateReplicaLSN_def intro!: slot_upd_ok split: option.split)

lemma PromoteReplica_ok: "sm_ok sm \<Longrightarrow> sm_ok (fst (PromoteReplica sm slot n))"
  by (auto simp: PromoteReplica_def Let_def intro!: owner_upd_ok)

lemma SetImporting_ok: "sm_ok sm \<Longrightarrow> SetImporting sm slot n = Some sm' \<Longrightarrow> sm_ok sm'"
  by (auto simp: SetImporting_def intro!: slot_upd_ok split: if_splits)

lemma SetExporting_ok: "sm_ok sm \<Longrightarrow> SetExporting sm slot n = Some sm' \<Longrightarrow> sm_ok sm'"
  by (auto simp: SetExporting_def intro!: slot_upd_ok split: if_splits)

lemma SetStable_ok: "sm_ok sm \<Longrightarrow> SetStable sm slot = Some sm' \<Longrightarrow> sm_ok sm'"
  by (auto simp: SetStable_def intro!: slot_upd_ok split: if_splits)

lemma FinishMigration_ok: "sm_ok sm \<Longrightarrow> FinishMigration sm slot n = Some sm' \<Longrightarrow> sm_ok sm'"
  by (auto simp: FinishMigration_def intro!: owner_upd_ok split: if_splits)

lemma AddReplicaToMaster_ok:
  assumes "sm_ok sm"
  shows "sm_ok (fst (AddReplicaToMaster sm p r epoch))"
proof -
  let ?f = "\<lambda>i. if NodeID i \<noteq> p then i else addReplica p r epoch i"
  let ?sm = "sm\<lparr> slots := map ?f (slots sm) \<rparr>"
  have len: "length (slots sm) = SlotCount" using assms by (simp add: sm_ok_def)
  have at: "slot_at ?sm s = ?f (slot_at sm s)" if "in_range s" for s
    using that len by (simp add: slot_at_def in_range_def)
  have "slotsOf ?sm = slotsOf sm" by (simp add: slotsOf_def fun_eq_iff)
  then have "sm_ok ?sm"
    using assms at by (auto simp: sm_ok_def sm_wf_def indexed_def primaries_def addReplica_def)
  with assms show ?thesis by (auto simp: AddReplicaToMaster_def Let_def)
qed

section \<open>Restoring a persisted table\<close>

lemma slot_at_restoreOwner:
  "length (slots sm) = SlotCount \<Longrightarrow> in_range slot \<Longrightarrow>
     slot_at (restoreOwner slot n sm) s =
     (if s = slot \<and> n \<noteq> [] then (slot_at sm slot)\<lparr> NodeID := n, PrimaryID := n \<rparr> else slot_at sm s)"
  by (simp add: restoreOwner_def slot_view)

lemma restoreOwner_wf:
  assumes wf: "sm_wf sm" and slot: "in_range slot" and free: "NodeID (slot_at sm slot) = []"
  shows "sm_wf (restoreOwner slot n sm)"
proof (cases "n = []")
  case False
  have fresh: "slot \<notin> set (slotsOf sm m)" if "m \<noteq> []" for m
    using that free sm_wf_index(2) [OF wf that, of slot] by simp
  show ?thesis
  proof (rule owner_wf [OF wf slot, where n = n])
    show "mwf (nodeSlots (restoreOwner slot n sm))" using False wf by (simp add: restoreOwner_def sm_wf_mwf)
    show "distinct (slotsOf (restoreOwner slot n sm) m) \<and> set (slotsOf (restoreOwner slot n sm) m) =
        set (slotsOf sm m) - {slot} \<union> (if m = n then {slot} else {})" if "m \<noteq> []" for m
      using False fresh [OF that] sm_wf_index(1) [OF wf that] by (auto simp: restoreOwner_def slot_view)
  qed (use wf slot False in \<open>simp_all add: restoreOwner_def slot_view\<close>)
qed (use wf in \<open>simp add: restoreOwner_def\<close>)

definition owned_by :: "string \<Rightarrow> SlotInfo" where
  "owned_by n = newSlotInfo\<lparr> NodeID := n, PrimaryID := n \<rparr>"

lemma owned_by_Nil: "owned_by [] = newSlotInfo"
  by (simp add: owned_by_def newSlotInfo_def)

lemma restoreOwners_spec:
  assumes "unat i + length ids \<le> SlotCount" "sm_wf sm"
    and "\<And>s. in_range s \<Longrightarrow> unat i \<le> unat s \<Longrightarrow> slot_at sm s = newSlotInfo"
  shows "sm_wf (restoreOwners i ids sm) \<and>
    (\<forall>s. in_range s \<longrightarrow> slot_at (restoreOwners i ids sm) s =
       (if unat i \<le> unat s \<and> unat s < unat i + length ids then owned_by (ids ! (unat s - unat i)) else slot_at sm s))"
  using assms
proof (induction ids arbitrary: i sm)
  case (Cons n ids)
  have i: "in_range i" "unat (i + 1) = unat i + 1" using Cons.prems(1) by (simp_all add: in_range_def unat_Suc_slot)
  let ?sm = "restoreOwner i n sm"
  have len: "length (slots sm) = SlotCount" using Cons.prems(2) by simp
  have new: "slot_at sm i = newSlotInfo" using Cons.prems(3) [OF i(1)] by simp
  have at: "slot_at ?sm s = (if s = i then owned_by n else slot_at sm s)" for s
    using new owned_by_Nil by (simp add: slot_at_restoreOwner [OF len i(1)] owned_by_def)
  have wf: "sm_wf ?sm" using Cons.prems(2) i(1) new by (intro restoreOwner_wf) (simp_all add: newSlotInfo_def)
  have later: "slot_at ?sm s = newSlotInfo" if "in_range s" "unat (i + 1) \<le> unat s" for s
    using that i(2) Cons.prems(3) [OF that(1)] at [of s] by auto
  have "unat (i + 1) + length ids \<le> SlotCount" using Cons.prems(1) i(2) by simp
  from Cons.IH [OF this wf later] show ?case
    by (simp add: at i(2) word_unat_eq_iff nth_Cons' split: if_splits)
qed auto

definition with_replicas :: "SlotReplicaSet \<Rightarrow> SlotInfo \<Rightarrow> SlotInfo" where
  "with_replicas rs i =
     (if rs_PrimaryID rs \<noteq> [] then i\<lparr> NodeID := rs_PrimaryID rs, PrimaryID := rs_PrimaryID rs \<rparr> else i)
       \<lparr> ConfigEpoch := rs_ConfigEpoch rs, NextLSN := rs_NextLSN rs, Replicas := rs_Replicas rs \<rparr>"

lemma restoreReplicas_ok: "sm_ok sm \<Longrightarrow> sm_ok (restoreReplicas (slot, rs) sm)"
  by (auto simp: restoreReplicas_def Let_def intro!: slot_upd_ok owner_upd_ok)

lemma slot_at_restoreReplicas:
  "length (slots sm) = SlotCount \<Longrightarrow>
     slot_at (restoreReplicas (slot, rs) sm) s =
     (if in_range slot \<and> s = slot then with_replicas rs (slot_at sm s) else slot_at sm s)"
  by (simp add: restoreReplicas_def Let_def slot_view with_replicas_def)

lemma restoreReplicas_fold:
  assumes "sm_ok sm" "distinct (map fst rl)"
  shows "sm_ok (fold restoreReplicas rl sm) \<and>
    (\<forall>s. in_range s \<longrightarrow> slot_at (fold restoreReplicas rl sm) s =
       (case map_of rl s of None \<Rightarrow> slot_at sm s | Some rs \<Rightarrow> with_replicas rs (slot_at sm s)))"
  using assms
proof (induction rl arbitrary: sm)
  case (Cons x rl)
  obtain slot rs where x: "x = (slot, rs)" by (cases x)
  have len: "length (slots sm) = SlotCount" using Cons.prems(1) by (simp add: sm_ok_def)
  have "map_of rl slot = None" using Cons.prems(2) x by (simp add: map_of_eq_None_iff)
  with Cons.IH [OF restoreReplicas_ok [OF Cons.prems(1), of slot rs]] Cons.prems(2) x show ?case
    by (auto simp: slot_at_restoreReplicas [OF len] split: option.split)
qed simp

definition with_migration :: "MigrationState \<Rightarrow> SlotInfo \<Rightarrow> SlotInfo" where
  "with_migration m i =
     (if ms_State m = ''importing'' then i\<lparr> si_State := SlotStateImporting, Importing := SourceNodeID m \<rparr>
      else if ms_State m = ''exporting'' then i\<lparr> si_State := SlotStateExporting, Exporting := TargetNodeID m \<rparr>
      else i)"

lemma restoreMigration_ok:
  assumes "sm_ok sm" "in_range slot"
  shows "\<exists>sm'. restoreMigration (slot, m) sm = Some sm' \<and> sm_ok sm' \<and>
    (\<forall>s. slot_at sm' s = (if s = slot then with_migration m (slot_at sm s) else slot_at sm s))"
proof -
  have len: "length (slots sm) = SlotCount" using assms(1) by (simp add: sm_ok_def)
  show ?thesis using assms
    by (auto simp: restoreMigration_def with_migration_def slot_at_slot_upd [OF len] intro!: slot_upd_ok)
qed

lemma restoreMigrations_spec:
  assumes "sm_ok sm" "distinct (map fst ml)" "\<And>slot m. (slot, m) \<in> set ml \<Longrightarrow> in_range slot"
  shows "\<exists>sm'. restoreMigrations ml sm = Some sm' \<and> sm_ok sm' \<and>
    (\<forall>s. in_range s \<longrightarrow> slot_at sm' s =
       (case map_of ml s of None \<Rightarrow> slot_at sm s | Some m \<Rightarrow> with_migration m (slot_at sm s)))"
  using assms
proof (induction ml arbitrary: sm)
  case (Cons x ml)
  obtain slot m where x: "x = (slot, m)" by (cases x)
  obtain sm1 where sm1: "restoreMigration (slot, m) sm = Some sm1" "sm_ok sm1"
    "\<And>s. slot_at sm1 s = (if s = slot then with_migration m (slot_at sm s) else slot_at sm s)"
    using restoreMigration_ok [OF Cons.prems(1), of slot m] Cons.prems(3) x by auto
  have none: "map_of ml slot = None" using Cons.prems(2) x by (simp add: map_of_eq_None_iff)
  obtain sm' where sm': "restoreMigrations ml sm1 = Some sm'" "sm_ok sm'"
    "\<And>s. in_range s \<Longrightarrow> slot_at sm' s =
       (case map_of ml s of None \<Rightarrow> slot_at sm1 s | Some m \<Rightarrow> with_migration m (slot_at sm1 s))"
    using Cons.IH [OF sm1(2)] Cons.prems(2,3) by auto
  show ?case
    using sm'(3) none by (intro exI [of _ sm']) (auto simp: x sm1(1,3) sm'(1,2) split: option.split)
qed simp

lemma restoreOwners_table:
  fixes sm :: SlotManager and ids :: "string list"
  assumes "length ids = SlotCount"
  defines "sm1 \<equiv> restoreOwners 0 ids (sm\<lparr> nodeSlots := [], slots := replicate SlotCount newSlotInfo \<rparr>)"
  shows "sm_ok sm1" "in_range s \<Longrightarrow> slot_at sm1 s = owned_by (ids ! unat s)"
proof -
  let ?sm0 = "sm\<lparr> nodeSlots := [], slots := replicate SlotCount newSlotInfo \<rparr>"
  have new: "slot_at ?sm0 s = newSlotInfo" if "in_range s" for s
    using that by (simp add: slot_at_def in_range_def)
  have "sm_wf ?sm0" using new by (auto simp: sm_wf_def indexed_def slotsOf_def newSlotInfo_def)
  then have 1: "sm_wf sm1" "\<And>s. in_range s \<Longrightarrow> slot_at sm1 s = owned_by (ids ! unat s)"
    using restoreOwners_spec [of 0 ids ?sm0] assms(1) new by (simp_all add: in_range_def sm1_def)
  then show "sm_ok sm1" by (simp add: sm_ok_def primaries_def owned_by_def)
  show "slot_at sm1 s = owned_by (ids ! unat s)" if "in_range s" using that by (rule 1(2))
qed

lemma RestoreFromState_spec:
  assumes "length ids = SlotCount" "mwf rl" "mwf ml" "\<And>slot m. (slot, m) \<in> set ml \<Longrightarrow> in_range slot"
  shows "\<exists>r. RestoreFromState sm ids ml rl = Some r \<and> sm_ok r \<and>
    (\<forall>s. in_range s \<longrightarrow> slot_at r s =
       (let i = owned_by (ids ! unat s);
            j = (case mget rl s of None \<Rightarrow> i | Some rs \<Rightarrow> with_replicas rs i)
        in case mget ml s of None \<Rightarrow> j | Some m \<Rightarrow> with_migration m j))"
proof -
  let ?sm1 = "restoreOwners 0 ids (sm\<lparr> nodeSlots := [], slots := replicate SlotCount newSlotInfo \<rparr>)"
  let ?sm2 = "fold restoreReplicas rl ?sm1"
  note 1 = restoreOwners_table [OF assms(1), where sm = sm]
  have 2: "sm_ok ?sm2" "\<And>s. in_range s \<Longrightarrow> slot_at ?sm2 s =
      (case mget rl s of None \<Rightarrow> slot_at ?sm1 s | Some rs \<Rightarrow> with_replicas rs (slot_at ?sm1 s))"
    using restoreReplicas_fold [OF 1(1), of rl] assms(2) by (simp_all add: mwf_def)
  show ?thesis
    using restoreMigrations_spec [OF 2(1), of ml] assms(3,4)
    by (auto simp: RestoreFromState_def Let_def mwf_def 1(2) 2(2) split: option.split)
qed

lemma restoreMigrations_keeps: "sm_ok sm \<Longrightarrow> restoreMigrations ml sm = Some sm' \<Longrightarrow> sm_ok sm'"
proof (induction ml arbitrary: sm)
  case (Cons x ml)
  obtain sm1 where sm1: "restoreMigration x sm = Some sm1" "restoreMigrations ml sm1 = Some sm'"
    using Cons.prems(2) by (auto simp: bind_eq_Some_conv)
  then have "sm_ok sm1"
    using Cons.prems(1) by (auto simp: restoreMigration_def split: prod.splits if_splits intro!: slot_upd_ok)
  with Cons.IH sm1(2) show ?case by blast
qed simp

lemma RestoreFromState_ok:
  assumes "length ids = SlotCount" "RestoreFromState sm ids ml rl = Some r"
  shows "sm_ok r"
proof -
  have "sm_ok (fold restoreReplicas rl sm')" if "sm_ok sm'" for sm'
    using that by (induction rl arbitrary: sm') (auto simp: restoreReplicas_ok)
  with assms restoreOwners_table(1) [OF assms(1), of sm] show ?thesis
    by (auto simp: RestoreFromState_def Let_def dest: restoreMigrations_keeps)
qed

section \<open>A restart\<close>

lemma collect_keys:
  "unat i + length xs \<le> SlotCount \<Longrightarrow> (s, v) \<in> set (collect f i xs) \<Longrightarrow>
     unat i \<le> unat s \<and> unat s < unat i + length xs"
proof (induction xs arbitrary: i)
  case (Cons x xs)
  then have "unat (i + 1) = unat i + 1" by (simp add: unat_Suc_slot in_range_def)
  with Cons.prems Cons.IH [of "i + 1"] show ?case by (auto split: option.splits)
qed simp

lemma collect_distinct: "unat i + length xs \<le> SlotCount \<Longrightarrow> distinct (map fst (collect f i xs))"
proof (induction xs arbitrary: i)
  case (Cons x xs)
  then have i: "unat (i + 1) = unat i + 1" by (simp add: unat_Suc_slot in_range_def)
  then have "i \<notin> fst ` set (collect f (i + 1) xs)"
    using collect_keys [of "i + 1" xs i] Cons.prems by force
  with Cons i show ?case by (simp split: option.split)
qed simp

lemma collect_get:
  "unat i + length xs \<le> SlotCount \<Longrightarrow>
     map_of (collect f i xs) s =
     (if unat i \<le> unat s \<and> unat s < unat i + length xs then f (xs ! (unat s - unat i)) else None)"
proof (induction xs arbitrary: i)
  case (Cons x xs)
  then have "unat (i + 1) = unat i + 1" by (simp add: unat_Suc_slot in_range_def)
  with Cons show ?case
    by (auto simp: word_unat_eq_iff nth_Cons' diff_diff_left split: option.split)
qed auto

lemma collect_table:
  assumes "sm_ok sm"
  shows "mwf (collect f 0 (slots sm))" "in_range s \<Longrightarrow> mget (collect f 0 (slots sm)) s = f (slot_at sm s)"
    "\<not> in_range s \<Longrightarrow> mget (collect f 0 (slots sm)) s = None"
  using assms collect_distinct [of 0 "slots sm" f] collect_get [of 0 "slots sm" f s]
  by (simp_all add: sm_ok_def mwf_def in_range_def slot_at_def)

text \<open>What is persisted of a slot: the node it is imported from only while it is being imported, the node
  it is exported to only while it is being exported.\<close>

definition persisted :: "SlotInfo \<Rightarrow> SlotInfo" where
  "persisted i = i\<lparr> Importing := (if si_State i = SlotStateImporting then Importing i else []),
                    Exporting := (if si_State i = SlotStateExporting then Exporting i else []) \<rparr>"

lemma persisted_eq:
  assumes "PrimaryID i = NodeID i"
  shows "(let a = owned_by (NodeID i);
       b = (case replicaSetOf i of None \<Rightarrow> a | Some rs \<Rightarrow> with_replicas rs a)
     in case migrationOf i of None \<Rightarrow> b | Some m \<Rightarrow> with_migration m b) = persisted i"
  using assms
  by (cases "si_State i")
    (auto simp: Let_def owned_by_def newSlotInfo_def replicaSetOf_def migrationOf_def with_replicas_def
      with_migration_def persisted_def)

text \<open>
  C28: a node that saves its slot table and loads it again after a restart gets the table back: the three
  maps that are persisted determine owner, primary, replicas with their positions, configuration epoch,
  next sequence number and migration state of every slot, in whatever order the maps are read. Only the
  peer of a migration that is over is forgotten.
\<close>

theorem restart_roundtrip:
  assumes "sm_ok sm" "mwf ml" "mget ml = mget (GetMigratingSlots sm)"
    "mwf rl" "mget rl = mget (sm_GetSlotReplicationState sm)"
  shows "\<exists>r. RestoreFromState fresh (GetSlotMapSnapshot sm) ml rl = Some r \<and> sm_ok r \<and>
    (\<forall>slot. in_range slot \<longrightarrow> slot_at r slot = persisted (slot_at sm slot))"
proof -
  have len: "length (slots sm) = SlotCount" using assms(1) by (simp add: sm_ok_def)
  have range: "in_range slot" if "(slot, m) \<in> set ml" for slot m
    using that assms(2,3) collect_table(3) [OF assms(1), of slot migrationOf]
    by (auto simp: mget_mem GetMigratingSlots_def)
  have at: "GetSlotMapSnapshot sm ! unat s = NodeID (slot_at sm s)" if "in_range s" for s
    using that len by (simp add: GetSlotMapSnapshot_def slot_at_def in_range_def)
  have prim: "PrimaryID (slot_at sm s) = NodeID (slot_at sm s)" if "in_range s" for s
    using that assms(1) by (simp add: sm_ok_def primaries_def)
  have "length (GetSlotMapSnapshot sm) = SlotCount" by (simp add: GetSlotMapSnapshot_def len)
  from RestoreFromState_spec [OF this assms(4,2) range, where sm = fresh] show ?thesis
    using assms(3,5)
    by (auto simp: at collect_table(2) [OF assms(1)] persisted_eq [OF prim] GetMigratingSlots_def
        sm_GetSlotReplicationState_def)
qed

definition demo_table :: SlotManager where
  "demo_table = fst (UpdateReplicaLSN
     (fst (ConfigureReplication NewSlotManager 5 ''n1'' [''n2'', ''n3''] 7)) 5 ''n3'' 9)"

lemma demo_table_ok: "sm_ok demo_table"
  unfolding demo_table_def by (intro UpdateReplicaLSN_ok ConfigureReplication_ok sm_ok_New)

lemma in_range_5: "in_range 5"
  by (simp add: in_range_def SlotCount_def)

lemma slot_at_demo: "slot_at demo_table 5 =
  \<lparr> si_State = SlotStateNormal, NodeID = ''n1'', PrimaryID = ''n1'',
    Replicas = [\<lparr> rep_NodeID = ''n2'', MatchLSN = 0, Healthy = True \<rparr>,
                \<lparr> rep_NodeID = ''n3'', MatchLSN = 9, Healthy = True \<rparr>],
    ConfigEpoch = 7, NextLSN = 0, Importing = [], Exporting = [] \<rparr>"
proof -
  let ?sm = "fst (ConfigureReplication NewSlotManager 5 ''n1'' [''n2'', ''n3''] 7)"
  have len: "length (slots NewSlotManager) = SlotCount" by (simp add: NewSlotManager_def)
  have 1: "slot_at ?sm 5 = newSlotInfo\<lparr> NodeID := ''n1'', PrimaryID := ''n1'', ConfigEpoch := 7,
      Replicas := [newReplica ''n2'', newReplica ''n3''] \<rparr>" "length (slots ?sm) = SlotCount"
    using len by (simp_all add: ConfigureReplication_def Let_def in_range_5 slot_view slot_at_new newSlotInfo_def)
  show ?thesis
    by (simp add: demo_table_def UpdateReplicaLSN_def in_range_5 1 newReplica_def newSlotInfo_def
        slot_at_slot_upd [OF 1(2) in_range_5])
qed

theorem restart_roundtrip_witness:
  "\<exists>r. RestoreFromState NewSlotManager (GetSlotMapSnapshot demo_table) (GetMigratingSlots demo_table)
       (sm_GetSlotReplicationState demo_table) = Some r \<and> slot_at r 5 = slot_at demo_table 5 \<and>
     NodeID (slot_at r 5) = ''n1''"
proof -
  have "mwf (GetMigratingSlots demo_table)" "mwf (sm_GetSlotReplicationState demo_table)"
    by (simp_all add: GetMigratingSlots_def sm_GetSlotReplicationState_def collect_table [OF demo_table_ok])
  from restart_roundtrip [OF demo_table_ok this(1) refl this(2) refl, of NewSlotManager] show ?thesis
    using in_range_5 by (auto simp: slot_at_demo persisted_def)
qed

section \<open>Reachable tables\<close>

text \<open>Every sequence of operations on a new table, with a restart from any persisted state in between.\<close>

inductive slot_reach :: "SlotManager \<Rightarrow> bool" where
  new: "slot_reach NewSlotManager"
| manager: "slot_reach sm \<Longrightarrow> slot_reach (sm_SetStateManager d sm)"
| assign: "slot_reach sm \<Longrightarrow> slot_reach (fst (AssignSlot sm slot n))"
| assign_range: "slot_reach sm \<Longrightarrow> slot_reach (fst (AssignSlotRange sm slot stop n))"
| epoch: "slot_reach sm \<Longrightarrow> slot_reach (SetSlotConfigEpoch sm slot e)"
| configure: "slot_reach sm \<Longrightarrow> slot_reach (fst (ConfigureReplication sm slot p rs e))"
| replica: "slot_reach sm \<Longrightarrow> slot_reach (AddSlotReplica sm slot r)"
| replica_master: "slot_reach sm \<Longrightarrow> slot_reach (fst (AddReplicaToMaster sm p r e))"
| allocate: "slot_reach sm \<Longrightarrow> slot_reach (fst (AllocateLSN sm slot))"
| match: "slot_reach sm \<Longrightarrow> slot_reach (fst (UpdateReplicaLSN sm slot n lsn))"
| promote: "slot_reach sm \<Longrightarrow> slot_reach (fst (PromoteReplica sm slot n))"
| importing: "slot_reach sm \<Longrightarrow> SetImporting sm slot n = Some sm' \<Longrightarrow> slot_reach sm'"
| exporting: "slot_reach sm \<Longrightarrow> SetExporting sm slot n = Some sm' \<Longrightarrow> slot_reach sm'"
| stable: "slot_reach sm \<Longrightarrow> SetStable sm slot = Some sm' \<Longrightarrow> slot_reach sm'"
| finish: "slot_reach sm \<Longrightarrow> FinishMigration sm slot n = Some sm' \<Longrightarrow> slot_reach sm'"
| restore: "slot_reach sm \<Longrightarrow> length ids = SlotCount \<Longrightarrow>
    RestoreFromState sm ids ml rl = Some sm' \<Longrightarrow> slot_reach sm'"

lemma slot_reach_ok: "slot_reach sm \<Longrightarrow> sm_ok sm"
proof (induction rule: slot_reach.induct)
  case (manager sm d)
  then show ?case
    by (simp add: sm_SetStateManager_def sm_ok_def sm_wf_def indexed_def primaries_def slotsOf_def slot_at_def)
qed (blast intro: sm_ok_New AssignSlot_ok AssignSlotRange_ok SetSlotConfigEpoch_ok ConfigureReplication_ok
    AddSlotReplica_ok AddReplicaToMaster_ok AllocateLSN_ok UpdateReplicaLSN_ok PromoteReplica_ok SetImporting_ok
    SetExporting_ok SetStable_ok FinishMigration_ok RestoreFromState_ok)+

text \<open>
  C12: in every table that the operations of the slot manager can reach from a new one, restarts included,
  the slots listed for a node are exactly the slots it owns, each of them once, and the primary of a slot is
  its owner; the nodes are those with a name.
\<close>

theorem slots_index:
  assumes "slot_reach sm"
  shows "(n \<noteq> [] \<longrightarrow> distinct (GetNodeSlots sm n) \<and>
       (\<forall>slot. slot \<in> set (GetNodeSlots sm n) \<longleftrightarrow> GetSlotNode sm slot = n)) \<and>
    (\<forall>slot info. GetSlotInfo sm slot = Some info \<longrightarrow> PrimaryID info = NodeID info)"
proof -
  from assms have "sm_wf sm" "primaries sm" using slot_reach_ok by (simp_all add: sm_ok_def)
  then show ?thesis
    by (auto simp: GetNodeSlots_def GetSlotNode_def GetSlotInfo_def sm_wf_index primaries_def split: if_splits)
qed

theorem slots_index_witness:
  "slot_reach demo_table \<and> distinct (GetNodeSlots demo_table ''n1'') \<and> 5 \<in> set (GetNodeSlots demo_table ''n1'')"
proof -
  have "slot_reach demo_table"
    unfolding demo_table_def by (intro slot_reach.match slot_reach.configure slot_reach.new)
  from slots_index [OF this, of "''n1''"] this show ?thesis
    by (simp add: GetSlotNode_def in_range_5 slot_at_demo)
qed

section \<open>The ranges of the cluster view\<close>

definition expand :: "SlotRange \<Rightarrow> (16 word \<times> string) list" where
  "expand r = map (\<lambda>k. (of_nat k, sr_NodeID r)) [unat (sr_Start r) ..< Suc (unat (sr_End r))]"

fun owned :: "16 word \<Rightarrow> SlotInfo list \<Rightarrow> (16 word \<times> string) list" where
  "owned i [] = []"
| "owned i (info # infos) = (if NodeID info = [] then [] else [(i, NodeID info)]) @ owned (i + 1) infos"

fun maximal :: "SlotRange list \<Rightarrow> bool" where
  "maximal (a # b # rs) \<longleftrightarrow>
     \<not> (unat (sr_Start b) = unat (sr_End a) + 1 \<and> sr_NodeID a = sr_NodeID b) \<and> maximal (b # rs)"
| "maximal _ \<longleftrightarrow> True"

lemma expand_single: "expand \<lparr> sr_Start = i, sr_End = i, sr_NodeID = n \<rparr> = [(i, n)]"
  by (simp add: expand_def)

lemma expand_extend:
  assumes "unat (sr_Start c) \<le> unat (sr_End c)" "unat i = unat (sr_End c) + 1"
  shows "expand (c\<lparr> sr_End := i \<rparr>) = expand c @ [(i, sr_NodeID c)]"
proof -
  have "(of_nat (Suc (unat (sr_End c))) :: 16 word) = of_nat (unat i)" using assms(2) by simp
  also have "\<dots> = i" by simp
  finally show ?thesis using assms by (simp add: expand_def)
qed

definition range_before :: "16 word \<Rightarrow> SlotRange option \<Rightarrow> bool" where
  "range_before i cur \<longleftrightarrow>
     (\<forall>c. cur = Some c \<longrightarrow> unat (sr_Start c) \<le> unat (sr_End c) \<and> unat i = unat (sr_End c) + 1)"

lemma range_before_simps [simp]:
  "range_before i None"
  "range_before i (Some c) \<longleftrightarrow> unat (sr_Start c) \<le> unat (sr_End c) \<and> unat i = unat (sr_End c) + 1"
  by (simp_all add: range_before_def)

lemma clusterRanges_spec:
  "unat i + length infos \<le> SlotCount \<Longrightarrow> range_before i cur \<Longrightarrow>
     concat (map expand (clusterRanges i infos cur)) =
     (case cur of None \<Rightarrow> [] | Some c \<Rightarrow> expand c) @ owned i infos"
proof (induction infos arbitrary: i cur)
  case (Cons info infos)
  then have "unat (i + 1) = unat i + 1" by (simp add: unat_Suc_slot in_range_def)
  with Cons show ?case by (cases cur) (auto simp: expand_single expand_extend)
qed (auto split: option.split)

lemma clusterRanges_maximal:
  "unat i + length infos \<le> SlotCount \<Longrightarrow> range_before i cur \<Longrightarrow>
     maximal (clusterRanges i infos cur) \<and>
     (case cur of
        None \<Rightarrow> clusterRanges i infos cur = [] \<or> unat i \<le> unat (sr_Start (hd (clusterRanges i infos cur)))
      | Some c \<Rightarrow> clusterRanges i infos cur \<noteq> [] \<and> sr_Start (hd (clusterRanges i infos cur)) = sr_Start c \<and>
          sr_NodeID (hd (clusterRanges i infos cur)) = sr_NodeID c)"
proof (induction infos arbitrary: i cur)
  case (Cons info infos)
  then have i: "unat (i + 1) = unat i + 1" "unat (i + 1) + length infos \<le> SlotCount"
    by (simp_all add: unat_Suc_slot in_range_def)
  have cons: "maximal (c # rs)" if "maximal rs" "rs = [] \<or>
      \<not> (unat (sr_Start (hd rs)) = unat (sr_End c) + 1 \<and> sr_NodeID c = sr_NodeID (hd rs))" for c rs
    using that by (cases rs) auto
  note IH = Cons.IH [OF i(2)]
  from Cons.prems(2) show ?case
    using IH [of None] IH [of "Some \<lparr> sr_Start = i, sr_End = i, sr_NodeID = NodeID info \<rparr>"]
      IH [of "Some ((the cur)\<lparr> sr_End := i \<rparr>)"] i(1)
    by (cases cur) (auto intro!: cons)
qed (auto split: option.split)

text \<open>
  C34: \<^verbatim>\<open>GetClusterSlots\<close> reports the slot table exactly: the ranges, expanded in order, list every slot that
  has an owner once, with that owner, in ascending order and no other slot; and the ranges are maximal,
  no two neighbours could be merged.
\<close>

theorem GetClusterSlots_exact:
  assumes "sm_ok sm"
  shows "concat (map expand (GetClusterSlots sm)) =
      map (\<lambda>k. (of_nat k, NodeID (slots sm ! k))) (filter (\<lambda>k. NodeID (slots sm ! k) \<noteq> []) [0..<SlotCount]) \<and>
    maximal (GetClusterSlots sm)"
proof -
  have owned: "owned (of_nat j) xs =
      map (\<lambda>k. (of_nat (j + k), NodeID (xs ! k))) (filter (\<lambda>k. NodeID (xs ! k) \<noteq> []) [0..<length xs])" for j xs
  proof (induction xs arbitrary: j)
    case (Cons x xs)
    have "[0..<length (x # xs)] = 0 # map Suc [0..<length xs]" by (simp only: list.size(4) map_Suc_upt upt_conv_Cons add_Suc_right add_0_right zero_less_Suc)
    with Cons [of "Suc j"] show ?case by (simp add: filter_map o_def add.commute)
  qed simp
  have len: "length (slots sm) = SlotCount" using assms by (simp add: sm_ok_def)
  show ?thesis
    using clusterRanges_spec [of 0 "slots sm" None] clusterRanges_maximal [of 0 "slots sm" None] owned [of 0 "slots sm"] len
    by (simp add: GetClusterSlots_def)
qed

theorem GetClusterSlots_exact_witness:
  "sm_ok demo_table \<and> maximal (GetClusterSlots demo_table) \<and>
   (5, ''n1'') \<in> set (concat (map expand (GetClusterSlots demo_table)))"
proof -
  have "NodeID (slots demo_table ! 5) = ''n1''" using slot_at_demo by (simp add: slot_at_def)
  moreover have "(5::nat) < SlotCount" by (simp add: SlotCount_def)
  ultimately have "(5, ''n1'') \<in> set (map (\<lambda>k. (of_nat k :: 16 word, NodeID (slots demo_table ! k)))
      (filter (\<lambda>k. NodeID (slots demo_table ! k) \<noteq> []) [0..<SlotCount]))"
    by (auto simp: image_iff intro!: bexI [of _ 5])
  with GetClusterSlots_exact [OF demo_table_ok] demo_table_ok show ?thesis by simp
qed

section \<open>Failover\<close>

lemma bestReplica_from:
  "b \<noteq> [] \<Longrightarrow> (\<forall>r \<in> set rs. rep_NodeID r \<noteq> []) \<Longrightarrow>
     (bestReplica rs b l = b \<and> (\<forall>r \<in> set rs. Healthy r \<longrightarrow> MatchLSN r \<le> l)) \<or>
     (\<exists>r \<in> set rs. Healthy r \<and> bestReplica rs b l = rep_NodeID r \<and> l < MatchLSN r \<and>
        (\<forall>r' \<in> set rs. Healthy r' \<longrightarrow> MatchLSN r' \<le> MatchLSN r))"
proof (induction rs arbitrary: b l)
  case (Cons r rs)
  show ?case
  proof (cases "Healthy r \<and> MatchLSN r > l")
    case True
    with Cons.IH [of "rep_NodeID r" "MatchLSN r"] Cons.prems show ?thesis
      by auto
  next
    case False
    then have "bestReplica (r # rs) b l = bestReplica rs b l" "Healthy r \<longrightarrow> MatchLSN r \<le> l"
      using Cons.prems by (auto simp: not_less)
    moreover from Cons.prems(2) have "\<forall>r \<in> set rs. rep_NodeID r \<noteq> []" by simp
    note Cons.IH [OF Cons.prems(1) this, of l]
    ultimately show ?thesis by (elim disjE bexE conjE) auto
  qed
qed simp

lemma bestReplica_first:
  "(\<forall>r \<in> set rs. rep_NodeID r \<noteq> []) \<Longrightarrow>
     (bestReplica rs [] 0 = [] \<and> (\<forall>r \<in> set rs. \<not> Healthy r)) \<or>
     (\<exists>r \<in> set rs. Healthy r \<and> bestReplica rs [] 0 = rep_NodeID r \<and>
        (\<forall>r' \<in> set rs. Healthy r' \<longrightarrow> MatchLSN r' \<le> MatchLSN r))"
proof (induction rs)
  case (Cons r rs)
  show ?case
  proof (cases "Healthy r")
    case True
    with bestReplica_from [of "rep_NodeID r" rs "MatchLSN r"] Cons.prems show ?thesis
      by auto
  next
    case False
    with Cons show ?thesis by auto
  qed
qed simp

definition named_replicas :: "SlotInfo \<Rightarrow> bool" where
  "named_replicas info \<longleftrightarrow>
     distinct (map rep_NodeID (Replicas info)) \<and> (\<forall>r \<in> set (Replicas info). rep_NodeID r \<noteq> [])"

lemma filter_rep_NodeID:
  "distinct (map rep_NodeID rs) \<Longrightarrow> r \<in> set rs \<Longrightarrow> filter (\<lambda>r'. rep_NodeID r' = rep_NodeID r) rs = [r]"
proof (induction rs)
  case (Cons x rs)
  then show ?case by (cases "x = r") (auto simp: filter_empty_conv image_iff)
qed simp

text \<open>The slot after the promotion of one of its replicas.\<close>

lemma PromoteReplica_spec:
  assumes ok: "sm_ok sm" and slot: "in_range slot" and named: "named_replicas (slot_at sm slot)"
    and r: "r \<in> set (Replicas (slot_at sm slot))"
  shows "\<exists>sm'. PromoteReplica sm slot (rep_NodeID r) = (sm', Inr ()) \<and> sm_ok sm' \<and>
    (\<forall>s. slot_at sm' s =
       (if s = slot then let info = slot_at sm slot in info\<lparr> NodeID := rep_NodeID r, PrimaryID := rep_NodeID r,
          Replicas := filter (\<lambda>r'. rep_NodeID r' \<noteq> rep_NodeID r) (Replicas info) @
            (if NodeID info \<noteq> [] \<and> NodeID info \<noteq> rep_NodeID r then [newReplica (NodeID info)] else []),
          ConfigEpoch := ConfigEpoch info + 1, NextLSN := max (NextLSN info) (MatchLSN r) \<rparr>
        else slot_at sm s))"
proof -
  have prim: "PrimaryID (slot_at sm slot) = NodeID (slot_at sm slot)"
    using ok slot by (simp add: sm_ok_def primaries_def)
  have chosen: "filter (\<lambda>r'. rep_NodeID r' = rep_NodeID r) (Replicas (slot_at sm slot)) = [r]"
    using named r by (simp add: named_replicas_def filter_rep_NodeID)
  have len: "length (slots sm) = SlotCount" using ok by (simp add: sm_ok_def)
  define sm' where "sm' = fst (PromoteReplica sm slot (rep_NodeID r))"
  have "PromoteReplica sm slot (rep_NodeID r) = (sm', Inr ())"
    using slot by (simp add: sm'_def PromoteReplica_def Let_def chosen)
  moreover have "sm_ok sm'" unfolding sm'_def by (rule PromoteReplica_ok [OF ok])
  moreover have "slot_at sm' s =
       (if s = slot then let info = slot_at sm slot in info\<lparr> NodeID := rep_NodeID r, PrimaryID := rep_NodeID r,
          Replicas := filter (\<lambda>r'. rep_NodeID r' \<noteq> rep_NodeID r) (Replicas info) @
            (if NodeID info \<noteq> [] \<and> NodeID info \<noteq> rep_NodeID r then [newReplica (NodeID info)] else []),
          ConfigEpoch := ConfigEpoch info + 1, NextLSN := max (NextLSN info) (MatchLSN r) \<rparr>
        else slot_at sm s)" for s
    using slot len
    by (simp add: sm'_def PromoteReplica_def Let_def chosen slot_view prim max_def not_le)
  ultimately show ?thesis by blast
qed

text \<open>
  C13: a failover of a slot promotes a healthy replica that is not behind any other healthy replica, and no
  other node may then serve its writes; the configuration epoch grows by one, the next sequence number
  does not fall behind the promoted replica, the old owner becomes a replica, the new primary is announced
  and the old one told to stop, and no other slot changes. Without a healthy replica nothing changes.
\<close>

theorem failover_spec:
  assumes "fm_slots m = Some sm" "sm_ok sm" "in_range slot" "named_replicas (slot_at sm slot)"
  defines "info \<equiv> slot_at sm slot"
  shows "if \<exists>r \<in> set (Replicas info). Healthy r
    then \<exists>r \<in> set (Replicas info). \<exists>sm'. Healthy r \<and>
      (\<forall>r' \<in> set (Replicas info). Healthy r' \<longrightarrow> MatchLSN r' \<le> MatchLSN r) \<and>
      PromoteBestReplica m slot =
        (m\<lparr> fm_slots := Some sm' \<rparr>,
         (if fm_broadcast m then [Broadcast slot (rep_NodeID r)] else []) @
         (if NodeID info \<noteq> [] \<and> NodeID info \<noteq> rep_NodeID r \<and> fm_failClosed m
          then [FailClosed slot (NodeID info)] else []),
         Inr (rep_NodeID r)) \<and>
      sm_ok sm' \<and> (\<forall>n. CanNodeServeWrites (m\<lparr> fm_slots := Some sm' \<rparr>) slot n \<longleftrightarrow> n = rep_NodeID r) \<and>
      ConfigEpoch (slot_at sm' slot) = ConfigEpoch info + 1 \<and>
      NextLSN (slot_at sm' slot) = max (NextLSN info) (MatchLSN r) \<and>
      (NodeID info \<noteq> [] \<and> NodeID info \<noteq> rep_NodeID r \<longrightarrow>
         newReplica (NodeID info) \<in> set (Replicas (slot_at sm' slot))) \<and>
      (\<forall>s. s \<noteq> slot \<longrightarrow> slot_at sm' s = slot_at sm s)
    else \<exists>e. PromoteBestReplica m slot = (m, [], Inl e)"
proof (cases "\<exists>r \<in> set (Replicas info). Healthy r")
  case True
  have names: "\<forall>r \<in> set (Replicas info). rep_NodeID r \<noteq> []"
    using assms(4) by (simp add: named_replicas_def info_def)
  from bestReplica_first [OF this] True obtain r where
    r: "r \<in> set (Replicas info)" "Healthy r" "bestReplica (Replicas info) [] 0 = rep_NodeID r"
      "\<forall>r' \<in> set (Replicas info). Healthy r' \<longrightarrow> MatchLSN r' \<le> MatchLSN r" by blast
  obtain sm' where sm': "PromoteReplica sm slot (rep_NodeID r) = (sm', Inr ())" "sm_ok sm'"
    "\<And>s. slot_at sm' s =
       (if s = slot then info\<lparr> NodeID := rep_NodeID r, PrimaryID := rep_NodeID r,
          Replicas := filter (\<lambda>r'. rep_NodeID r' \<noteq> rep_NodeID r) (Replicas info) @
            (if NodeID info \<noteq> [] \<and> NodeID info \<noteq> rep_NodeID r then [newReplica (NodeID info)] else []),
          ConfigEpoch := ConfigEpoch info + 1, NextLSN := max (NextLSN info) (MatchLSN r) \<rparr>
        else slot_at sm s)"
    using PromoteReplica_spec [OF assms(2-4), of r] r(1) by (auto simp: info_def Let_def)
  have stale: "primaryOf info = NodeID info"
    using assms(2,3) by (simp add: primaryOf_def info_def sm_ok_def primaries_def)
  have best: "SelectBestReplica m slot = Inr (rep_NodeID r)"
    using assms(1,3) r names by (simp add: SelectBestReplica_def GetSlotInfo_def info_def Let_def)
  have prom: "PromoteBestReplica m slot = (m\<lparr> fm_slots := Some sm' \<rparr>,
      (if fm_broadcast m then [Broadcast slot (rep_NodeID r)] else []) @
      (if NodeID info \<noteq> [] \<and> NodeID info \<noteq> rep_NodeID r \<and> fm_failClosed m
       then [FailClosed slot (NodeID info)] else []), Inr (rep_NodeID r))"
    using assms(1,3) best stale sm'(1) by (simp add: PromoteBestReplica_def GetSlotInfo_def info_def Let_def)
  show ?thesis
    unfolding if_P [OF True]
    using names r assms(3) sm'(2)
    by (intro bexI [OF _ r(1)] exI [of _ sm'])
      (auto simp: prom sm'(3) CanNodeServeWrites_def GetSlotInfo_def primaryOf_def)
next
  case False
  with bestReplica_first [of "Replicas info"] assms(4) have "bestReplica (Replicas info) [] 0 = []"
    by (auto simp: named_replicas_def info_def)
  with False assms(1,3) show ?thesis
    by (simp add: PromoteBestReplica_def SelectBestReplica_def GetSlotInfo_def info_def Let_def)
qed

theorem failover_spec_witness:
  "let m = \<lparr> fm_slots = Some demo_table, fm_broadcast = True, fm_failClosed = True \<rparr>
   in \<exists>m'. PromoteBestReplica m 5 = (m', [Broadcast 5 ''n3'', FailClosed 5 ''n1''], Inr ''n3'') \<and>
        CanNodeServeWrites m' 5 ''n3'' \<and> \<not> CanNodeServeWrites m' 5 ''n1''"
proof -
  let ?m = "\<lparr> fm_slots = Some demo_table, fm_broadcast = True, fm_failClosed = True \<rparr>"
  have named: "named_replicas (slot_at demo_table 5)" by (simp add: named_replicas_def slot_at_demo)
  have ex: "\<exists>r \<in> set (Replicas (slot_at demo_table 5)). Healthy r" by (simp add: slot_at_demo)
  have "fm_slots ?m = Some demo_table" by simp
  from failover_spec [OF this demo_table_ok in_range_5 named, unfolded if_P [OF ex]]
  obtain r sm' where r: "r \<in> set (Replicas (slot_at demo_table 5))"
    "\<forall>r' \<in> set (Replicas (slot_at demo_table 5)). Healthy r' \<longrightarrow> MatchLSN r' \<le> MatchLSN r"
    and prom: "PromoteBestReplica ?m 5 = (?m\<lparr> fm_slots := Some sm' \<rparr>,
      (if fm_broadcast ?m then [Broadcast 5 (rep_NodeID r)] else []) @
      (if NodeID (slot_at demo_table 5) \<noteq> [] \<and> NodeID (slot_at demo_table 5) \<noteq> rep_NodeID r \<and> fm_failClosed ?m
       then [FailClosed 5 (NodeID (slot_at demo_table 5))] else []), Inr (rep_NodeID r))"
    and can: "\<forall>n. CanNodeServeWrites (?m\<lparr> fm_slots := Some sm' \<rparr>) 5 n \<longleftrightarrow> n = rep_NodeID r"
    by (elim bexE exE conjE) blast
  from r have "rep_NodeID r = ''n3''" by (auto simp: slot_at_demo)
  with prom can show ?thesis by (simp add: slot_at_demo Let_def)
qed

section \<open>Allocation of sequence numbers\<close>

text \<open>
  The contract the replication manager relies on: for a slot that is ready, the allocator returns the
  number after the current one and moves to it, and leaves the other slots alone.
\<close>

locale lsn_source =
  fixes alloc :: "'a \<Rightarrow> 16 word \<Rightarrow> 'a \<times> (64 word \<times> 64 word) res"
    and lsn :: "'a \<Rightarrow> 16 word \<Rightarrow> 64 word"
    and ready :: "'a \<Rightarrow> 16 word \<Rightarrow> bool"
  assumes alloc_next: "ready t slot \<Longrightarrow> \<exists>t' epoch. alloc t slot = (t', Inr (epoch, lsn t slot + 1)) \<and>
    lsn t' slot = lsn t slot + 1 \<and> ready t' slot"

lemma AllocateLSN_next:
  assumes "sm_ok sm \<and> in_range slot \<and> NodeID (slot_at sm slot) \<noteq> []"
  shows "\<exists>sm' epoch. AllocateLSN sm slot = (sm', Inr (epoch, NextLSN (slot_at sm slot) + 1)) \<and>
    NextLSN (slot_at sm' slot) = NextLSN (slot_at sm slot) + 1 \<and>
    sm_ok sm' \<and> in_range slot \<and> NodeID (slot_at sm' slot) \<noteq> []"
proof -
  have len: "length (slots sm) = SlotCount" using assms by (simp add: sm_ok_def)
  show ?thesis
    using assms AllocateLSN_ok [of sm slot]
    by (simp add: AllocateLSN_def Let_def slot_at_slot_upd [OF len])
qed

interpretation slot_lsn: lsn_source AllocateLSN "\<lambda>sm slot. NextLSN (slot_at sm slot)"
  "\<lambda>sm slot. sm_ok sm \<and> in_range slot \<and> NodeID (slot_at sm slot) \<noteq> []"
  by unfold_locales (rule AllocateLSN_next)

end
