(* ===== verification/ReplicationProps.thy ===== *)
theory ReplicationProps
  imports Replication SlotsProps
begin

text \<open>
  Correctness of the replication of writes: an operation is read from the wire as it was sent; the log of
  a slot is a bounded suffix of its history, from which a replica gets exactly what it lacks; what a write
  does when the log agrees with the sequence numbers, and what it does after a restart, when it does not.
\<close>

section \<open>The wire format\<close>

text \<open>The length of a string that fits into memory.\<close>

definition fits :: "string \<Rightarrow> bool" where
  "fits f \<longleftrightarrow> length f < 2 ^ 62"

lemma readField_bulk:
  assumes "fits f"
  shows "readField (bulk f @ s) = Some (Inr (f, s))"
proof -
  let ?n = "int (length f)"
  have line: "ReadLine (bulk f @ s) = Some (''$'' @ FormatInt ?n @ CRLF, f @ CRLF @ s)"
    using ReadLine_append [of "''$'' @ FormatInt ?n @ [CR]" "f @ CRLF @ s"]
    by (simp add: bulk_def LF_FormatInt)
  have n: "Sscanf_d (FormatInt ?n @ CRLF) = ?n"
    using assms by (intro Sscanf_d_FormatInt) (simp_all add: fits_def is_i64_def is_digit_def)
  have i: "i64 (?n + 2) = ?n + 2" using assms by (intro i64_id) (simp add: fits_def is_i64_def)
  have "ReadFull (nat (?n + 2)) (f @ CRLF @ s) = Some (f @ CRLF, s)"
    using ReadFull_append [of "f @ CRLF" "nat (?n + 2)" s] by (simp add: nat_add_distrib)
  then show ?thesis by (simp add: readField_def line n i Let_def)
qed

lemma readFields_bulks:
  "\<forall>f \<in> set fs. fits f \<Longrightarrow>
     readFields (length fs) (concat (map bulk fs) @ s) = Some (Inr (fs, s))"
  by (induction fs) (simp_all add: readField_bulk)

lemma format_nat_length: "n < 10 ^ Suc k \<Longrightarrow> length (format_nat n) \<le> Suc k"
proof (induction k arbitrary: n)
  case 0
  then show ?case by (simp add: format_nat.simps [of n])
next
  case (Suc k)
  then have "n div 10 < 10 ^ Suc k" by (simp add: less_mult_imp_div_less)
  then show ?case using Suc.IH [of "n div 10"] by (simp add: format_nat.simps [of n])
qed

lemma fits_FormatUint [simp]: "fits (FormatUint w)"
proof -
  have "unat w < 10 ^ Suc 19" using unsigned_less [of w, where 'a = nat] by simp
  from format_nat_length [OF this] show ?thesis by (simp add: fits_def FormatUint_def)
qed

lemma fits_FormatInt [simp]: "is_i64 i \<Longrightarrow> fits (FormatInt i)"
proof -
  assume "is_i64 i"
  then have "nat i < 10 ^ Suc 19" "nat (- i) < 10 ^ Suc 19" by (simp_all add: is_i64_def) arith+
  then show ?thesis
    using format_nat_length [of "nat i" 19] format_nat_length [of "nat (- i)" 19] by (simp add: fits_def FormatInt_def)
qed

lemma read_op_encode:
  assumes "fits (OpType op)" "fits (op_Key op)" "fits (Payload op)" "is_i64 (ExpireAtNs op)"
  shows "readReplicationOp (encodeReplicationApplyCommand op @ rest) = Some (Inr (op, rest))"
proof -
  let ?fs = "[''REPLAPPLY'', FormatUint (ucast (op_Slot op)), FormatUint (op_Epoch op), FormatUint (op_LSN op),
    OpType op, op_Key op, FormatInt (ExpireAtNs op), Payload op]"
  let ?enc = "encodeReplicationApplyCommand op @ rest"
  have line: "ReadLine ?enc = Some (''*'' @ FormatInt 8 @ CRLF, concat (map bulk ?fs) @ rest)"
    using ReadLine_append [of "''*'' @ FormatInt 8 @ [CR]" "concat (map bulk ?fs) @ rest"] LF_FormatInt [of 8]
    by (simp add: encodeReplicationApplyCommand_def resp_array_def)
  have n: "Sscanf_d (FormatInt 8 @ CRLF) = 8"
    by (intro Sscanf_d_FormatInt) (simp_all add: is_i64_def is_digit_def)
  have "readFields (length ?fs) (concat (map bulk ?fs) @ rest) = Some (Inr (?fs, rest))"
    using assms by (intro readFields_bulks) (simp add: fits_def [of "''REPLAPPLY''"])
  moreover have "length ?fs = nat 8" by simp
  ultimately have fields: "readFields (nat 8) (concat (map bulk ?fs) @ rest) = Some (Inr (?fs, rest))"
    by (simp only:)
  have "ucast (ucast (op_Slot op) :: 64 word) = op_Slot op"
    by (rule bit_eqI) (auto simp: bit_simps dest: bit_imp_le_length)
  then have "opOfFields ?fs = op"
    using Sscanf_u_FormatUint [of "[]"] Sscanf_d_FormatInt [OF assms(4), of "[]"]
    by (cases op) (simp add: opOfFields_def)
  then show ?thesis using n
    by (simp add: readReplicationOp_def line Let_def fields del: concat.simps list.map nat_numeral)
qed

definition demo_op :: Op where
  "demo_op = \<lparr> op_Slot = 12182, op_Epoch = 3, op_LSN = 7, OpType = ''SET'', op_Key = ''foo'',
     Payload = [CHR ''v'', CHR 0x00, CHR 0x0D, CHR 0x0A], ExpireAtNs = -1 \<rparr>"

definition sendable :: "Op \<Rightarrow> bool" where
  "sendable op \<longleftrightarrow> fits (OpType op) \<and> fits (op_Key op) \<and> fits (Payload op) \<and> is_i64 (ExpireAtNs op)"

lemma receiveLoop_encode:
  "\<forall>op \<in> set ops. sendable op \<Longrightarrow>
     receiveLoop onOp st (concat (map encodeReplicationApplyCommand ops)) =
     Some (fold onOp ops st, wrapErr ''read op'' (wrapErr ''read array header'' io_EOF))"
proof (induction ops arbitrary: st)
  case Nil
  show ?case by (simp add: receiveLoop.simps [of _ _ "[]"] readReplicationOp_def ReadLine_def)
next
  case (Cons op ops)
  then have "readReplicationOp (concat (map encodeReplicationApplyCommand (op # ops))) =
      Some (Inr (op, concat (map encodeReplicationApplyCommand ops)))"
    by (simp add: read_op_encode sendable_def)
  with Cons show ?case by (subst receiveLoop.simps) simp
qed

text \<open>
  C15: a replica that has shaken hands executes every operation that the master writes to the connection
  afterwards, in the order of the writes and exactly once, whatever bytes the keys and payloads contain. What
  arrives in the same read as the answer to the handshake is dropped: the result is the same for every
  \<open>early\<close>.
\<close>

theorem replica_stream:
  assumes "\<forall>op \<in> set ops. sendable op"
  shows "connectAndReceive onOp st (''+OK'' @ LF # early) (concat (map encodeReplicationApplyCommand ops)) =
    Some (fold onOp ops st, wrapErr ''read op'' (wrapErr ''read array header'' io_EOF))"
proof -
  have "ReadLine (''+OK'' @ LF # early) = Some (''+OK'' @ [LF], early)" by (rule ReadLine_append) simp
  with receiveLoop_encode [OF assms, of onOp st] show ?thesis by (simp add: connectAndReceive_def)
qed

theorem replica_stream_witness:
  "map_option fst (connectAndReceive (\<lambda>op ops. ops @ [op_LSN op]) [] (''+OK'' @ LF # encodeReplicationApplyCommand demo_op)
     (concat (map encodeReplicationApplyCommand [demo_op\<lparr> op_LSN := 8 \<rparr>, demo_op\<lparr> op_LSN := 9 \<rparr>]))) = Some [8, 9]"
proof -
  have "\<forall>op \<in> set [demo_op\<lparr> op_LSN := 8 \<rparr>, demo_op\<lparr> op_LSN := 9 \<rparr>]. sendable op"
    by (simp add: sendable_def demo_op_def is_i64_def fits_def)
  from replica_stream [OF this, of "\<lambda>op ops. ops @ [op_LSN op]" "[]" "encodeReplicationApplyCommand demo_op"]
  show ?thesis by simp
qed

section \<open>The log\<close>

text \<open>The histories of the slots that a log store has seen: every operation that it accepted, by slot.\<close>

inductive log_reach :: "LogStore \<Rightarrow> (16 word \<Rightarrow> Op list) \<Rightarrow> bool" where
  new: "log_reach (NewLogStore limit) (\<lambda>_. [])"
| accepted: "log_reach s h \<Longrightarrow> log_Append s op = (s', Inr ()) \<Longrightarrow> length (h (op_Slot op)) + 1 < 2 ^ 64 \<Longrightarrow>
    log_reach s' (h(op_Slot op := h (op_Slot op) @ [op]))"
| refused: "log_reach s h \<Longrightarrow> log_Append s op = (s', Inl e) \<Longrightarrow> log_reach s' h"

definition numbered :: "Op list \<Rightarrow> bool" where
  "numbered ops \<longleftrightarrow> length ops < 2 ^ 64 \<and> (\<forall>i < length ops. op_LSN (ops ! i) = of_nat (Suc i))"

definition log_inv :: "LogStore \<Rightarrow> (16 word \<Rightarrow> Op list) \<Rightarrow> bool" where
  "log_inv s h \<longleftrightarrow> 0 < ls_limit s \<and>
     (\<forall>slot. numbered (h slot) \<and>
        mget (ls_last s) slot = (if h slot = [] then None else Some (of_nat (length (h slot)))) \<and>
        mget0 [] (logs s) slot = drop (length (h slot) - nat (ls_limit s)) (h slot) \<and>
        mget0 0 (ls_first s) slot =
          (if h slot = [] then 0 else of_nat (Suc (length (h slot) - nat (ls_limit s)))))"

lemma log_inv_New: "log_inv (NewLogStore limit) (\<lambda>_. [])"
  by (simp add: log_inv_def NewLogStore_def numbered_def mget0_def)

lemma mget0_mput: "mget0 z (mput k v m) k' = (if k' = k then v else mget0 z m k')"
  by (simp add: mget0_def go_map)

lemma numbered_snoc:
  "numbered ops \<Longrightarrow> length ops + 1 < 2 ^ 64 \<Longrightarrow> op_LSN op = of_nat (Suc (length ops)) \<Longrightarrow> numbered (ops @ [op])"
  by (auto simp: numbered_def nth_append less_Suc_eq)

lemma log_inv_Append:
  assumes inv: "log_inv s h" and app: "log_Append s op = (s', Inr ())" and room: "length (h (op_Slot op)) + 1 < 2 ^ 64"
  shows "log_inv s' (h(op_Slot op := h (op_Slot op) @ [op]))"
proof -
  let ?slot = "op_Slot op" and ?h = "h (op_Slot op)" and ?lim = "nat (ls_limit s)"
  have lim: "0 < ?lim" using inv by (simp add: log_inv_def)
  have num: "numbered ?h" and l: "mget0 [] (logs s) ?slot = drop (length ?h - ?lim) ?h"
    and last0: "mget0 0 (ls_last s) ?slot = of_nat (length ?h)"
    using inv by (simp_all add: log_inv_def mget0_def)
  from app last0 have lsn: "op_LSN op = of_nat (Suc (length ?h))"
    by (auto simp: log_Append_def Let_def split: if_splits)
  let ?h' = "?h @ [op]"
  let ?l' = "drop (length ?h' - ?lim) ?h'"
  have l': "(let l = mget0 [] (logs s) ?slot @ [op] in
      if int (length l) > ls_limit s then drop (length l - ?lim) l else l) = ?l'"
    using lim by (auto simp: l Let_def drop_drop Suc_diff_le)
  have num': "numbered ?h'" using num room lsn by (rule numbered_snoc)
  have ne: "?l' \<noteq> []" using lim by simp
  have head: "op_LSN (hd ?l') = of_nat (Suc (length ?h' - ?lim))"
    using num' lim by (subst hd_drop_conv_nth) (simp_all only: numbered_def, simp_all)
  have s': "logs s' = mput ?slot ?l' (logs s)" "ls_last s' = mput ?slot (op_LSN op) (ls_last s)"
    "ls_limit s' = ls_limit s" "\<And>k. mget0 0 (ls_first s') k = (if k = ?slot then op_LSN (hd ?l') else mget0 0 (ls_first s) k)"
    using app lsn last0 l' ne
    by (auto simp: log_Append_def Let_def mget0_mput split: list.splits if_splits)
  show ?thesis
    using inv num' lsn head by (simp add: log_inv_def s' mget0_mput go_map)
qed

lemma log_Append_refused: "log_Append s op = (s', Inl e) \<Longrightarrow> s' = s"
  by (auto simp: log_Append_def Let_def split: if_splits)

lemma log_reach_inv: "log_reach s h \<Longrightarrow> log_inv s h"
proof (induction rule: log_reach.induct)
  case (refused s h op s' e)
  then show ?case using log_Append_refused by blast
qed (rule log_inv_New log_inv_Append; assumption)+

lemma filter_after:
  "(\<forall>i < length ops. unat (op_LSN (ops ! i)) = n + Suc i) \<Longrightarrow>
     filter (\<lambda>op. op_LSN op > a) ops = drop (unat a - n) ops"
proof (induction ops arbitrary: n)
  case (Cons x ops)
  have x: "unat (op_LSN x) = Suc n" using Cons.prems [rule_format, of 0] by simp
  have "filter (\<lambda>op. op_LSN op > a) ops = drop (unat a - Suc n) ops"
    using Cons.prems by (intro Cons.IH) (metis Suc_less_eq add_Suc add_Suc_right length_Cons nth_Cons_Suc)
  with x show ?case by (auto simp: word_less_nat_alt drop_Cons' Suc_le_eq diff_Suc split: nat.split)
qed simp

lemma unat64: "n < 2 ^ 64 \<Longrightarrow> unat (of_nat n :: 64 word) = n"
  by (simp add: unsigned_of_nat take_bit_nat_eq_self)

lemma numbered_unat:
  assumes "numbered ops" "i < length ops"
  shows "unat (op_LSN (ops ! i)) = Suc i"
proof -
  have "op_LSN (ops ! i) = of_nat (Suc i)" "Suc i < 2 ^ 64" using assms unfolding numbered_def by auto
  then show ?thesis by (simp only: unat64)
qed

text \<open>
  C16: the log serves a replica exactly what it lacks, or nothing. For a log that accepted the operations \<open>h\<close>
  of each slot, a replica that has applied the first \<open>a\<close> operations of a slot is sent precisely the later
  ones, in order, if they are still kept, and otherwise is told to synchronise in full; a replica that
  claims to be ahead of the log is refused too.
\<close>

theorem IncrementalOps_exact:
  assumes "log_reach (rm_logs m) h"
  shows "IncrementalOps m slot a =
    (if length (h slot) - nat (ls_limit (rm_logs m)) \<le> unat a \<and> unat a \<le> length (h slot)
     then Some (drop (unat a) (h slot)) else None)"
proof -
  let ?h = "h slot" and ?k = "length (h slot) - nat (ls_limit (rm_logs m))"
  have inv: "numbered ?h"
    "mget (ls_last (rm_logs m)) slot = (if ?h = [] then None else Some (of_nat (length ?h)))"
    "mget0 [] (logs (rm_logs m)) slot = drop ?k ?h" "0 < ls_limit (rm_logs m)"
    "mget0 0 (ls_first (rm_logs m)) slot = (if ?h = [] then 0 else of_nat (Suc ?k))"
    using log_reach_inv [OF assms] by (simp_all add: log_inv_def)
  have n: "unat (of_nat (length ?h) :: 64 word) = length ?h"
    using inv(1) by (intro unat64) (simp add: numbered_def)
  have list: "ListAfter (rm_logs m) slot a = drop (unat a - ?k) (drop ?k ?h)"
    unfolding ListAfter_def inv(3) using numbered_unat [OF inv(1)] by (intro filter_after) (simp add: add.commute)
  show ?thesis
  proof (cases "?h = []")
    case True
    then show ?thesis
      using inv(2) list by (auto simp: IncrementalOps_def CanReplayFromLSN_def log_Range_def unat_eq_zero)
  next
    case False
    have k: "?k < length ?h" using False inv(4) by simp
    then have k': "unat (of_nat (Suc ?k) :: 64 word) = Suc ?k"
      using inv(1) by (intro unat64) (simp add: numbered_def)
    have "CanReplayFromLSN (rm_logs m) slot a \<longleftrightarrow> ?k \<le> unat a \<and> unat a \<le> length ?h"
    proof (cases "unat a < length ?h")
      case True
      then have "unat (a + 1) = Suc (unat a)" using inv(1) by (simp add: numbered_def unat_word_ariths)
      with True False inv(2,5) n k' show ?thesis
        by (simp add: CanReplayFromLSN_def log_Range_def word_less_nat_alt word_le_nat_alt word_unat_eq_iff)
    next
      case False': False
      with False inv(2) n k show ?thesis
        by (auto simp: CanReplayFromLSN_def log_Range_def word_less_nat_alt word_unat_eq_iff)
    qed
    then show ?thesis by (auto simp: IncrementalOps_def list)
  qed
qed

definition demo_ops :: "Op list" where
  "demo_ops = map (\<lambda>n. demo_op\<lparr> op_Slot := 5, op_LSN := n \<rparr>) [1, 2, 3]"

definition demo_log :: LogStore where
  "demo_log = foldl (\<lambda>s op. fst (log_Append s op)) (NewLogStore 2) demo_ops"

lemmas demo_log_defs = demo_log_def demo_ops_def demo_op_def NewLogStore_def log_Append_def mget0_def Let_def

lemma demo_log_reach: "log_reach demo_log ((\<lambda>_. [])(5 := demo_ops))"
proof -
  let ?o = "\<lambda>n. demo_op\<lparr> op_Slot := 5, op_LSN := n \<rparr>"
  let ?s0 = "NewLogStore 2"
  let ?s1 = "fst (log_Append ?s0 (?o 1))"
  let ?s2 = "fst (log_Append ?s1 (?o 2))"
  let ?s3 = "fst (log_Append ?s2 (?o 3))"
  have 1: "log_reach ?s1 ((\<lambda>_. [])(5 := [?o 1]))"
    using log_reach.accepted [OF log_reach.new [of 2], of "?o 1" ?s1] by (simp add: demo_log_defs)
  have 2: "log_reach ?s2 ((\<lambda>_. [])(5 := [?o 1, ?o 2]))"
    using log_reach.accepted [OF 1, of "?o 2" ?s2] by (simp add: demo_log_defs)
  have 3: "log_reach ?s3 ((\<lambda>_. [])(5 := [?o 1, ?o 2, ?o 3]))"
    using log_reach.accepted [OF 2, of "?o 3" ?s3] by (simp add: demo_log_defs)
  then show ?thesis by (simp add: demo_log_def demo_ops_def)
qed

theorem IncrementalOps_exact_witness:
  "let m = NewReplManager (Some demo_log)
   in IncrementalOps m 5 1 = Some (tl demo_ops) \<and> IncrementalOps m 5 0 = None \<and> IncrementalOps m 5 4 = None"
proof -
  let ?m = "NewReplManager (Some demo_log)"
  have "log_reach (rm_logs ?m) ((\<lambda>_. [])(5 := demo_ops))" by (simp add: NewReplManager_def demo_log_reach)
  note exact = IncrementalOps_exact [OF this, of 5]
  have lim: "ls_limit (rm_logs ?m) = 2" by (simp add: NewReplManager_def demo_log_defs)
  show ?thesis using exact [of 1] exact [of 0] exact [of 4] lim by (simp add: demo_ops_def Let_def)
qed

section \<open>Writes\<close>

definition logged :: "ReplManager \<Rightarrow> 16 word \<Rightarrow> 64 word" where
  "logged m slot = mget0 0 (ls_last (rm_logs m)) slot"

lemma dispatch_logs [simp]: "rm_logs (fst (dispatch wr resolve m op)) = rm_logs m"
  by (simp add: dispatch_def Let_def split: prod.splits option.splits)

text \<open>A sequence of write requests: the data, the slot table and the manager after it, and which of the requests
  succeeded.\<close>

fun writes ::
  "(nat \<Rightarrow> bool) \<Rightarrow> (16 word \<Rightarrow> PeerTarget list) option \<Rightarrow> ('a \<Rightarrow> 16 word \<Rightarrow> 'a \<times> (64 word \<times> 64 word) res) \<Rightarrow>
     's \<Rightarrow> 'a \<Rightarrow> ReplManager \<Rightarrow> (('s \<Rightarrow> 's \<times> unit res) \<times> WriteRequest) list \<Rightarrow> 's \<times> 'a \<times> ReplManager \<times> bool list" where
  "writes wr resolve alloc st t m [] = (st, t, m, [])"
| "writes wr resolve alloc st t m ((f, req) # ws) =
     (case ApplyWrite wr resolve f (Some alloc) st t m req of
        (st1, t1, m1, _, r) \<Rightarrow>
          (case writes wr resolve alloc st1 t1 m1 ws of
             (st2, t2, m2, rs) \<Rightarrow> (st2, t2, m2, (\<not> isl r) # rs)))"

definition executes :: "16 word \<Rightarrow> (('s \<Rightarrow> 's \<times> unit res) \<times> WriteRequest) list \<Rightarrow> bool" where
  "executes slot ws \<longleftrightarrow> (\<forall>(f, req) \<in> set ws. wr_Slot req = slot \<and> (\<forall>s. snd (f s) = Inr ()))"

lemma executes_Cons:
  "executes slot ((f, req) # ws) \<longleftrightarrow> wr_Slot req = slot \<and> (\<forall>s. f s = (fst (f s), Inr ())) \<and> executes slot ws"
  by (auto simp: executes_def prod_eq_iff)

context lsn_source
begin

text \<open>As long as the log ends at the current sequence number a write succeeds and keeps that.\<close>

lemma write_in_step:
  assumes "ready t (wr_Slot req)" "f st = (st', Inr ())" "logged m (wr_Slot req) = lsn t (wr_Slot req)"
  shows "\<exists>t' m' sent op. ApplyWrite wr resolve f (Some alloc) st t m req = (st', t', m', sent, Inr op) \<and>
    op_LSN op = lsn t (wr_Slot req) + 1 \<and> ready t' (wr_Slot req) \<and> logged m' (wr_Slot req) = lsn t' (wr_Slot req)"
proof -
  obtain t' epoch where t': "alloc t (wr_Slot req) = (t', Inr (epoch, lsn t (wr_Slot req) + 1))"
    "lsn t' (wr_Slot req) = lsn t (wr_Slot req) + 1" "ready t' (wr_Slot req)"
    using alloc_next [OF assms(1)] by blast
  let ?op = "\<lparr> op_Slot = wr_Slot req, op_Epoch = epoch, op_LSN = lsn t (wr_Slot req) + 1, OpType = wr_OpType req,
    op_Key = wr_Key req, Payload = wr_Payload req, ExpireAtNs = wr_ExpireAtNs req \<rparr>"
  obtain l' where l': "log_Append (rm_logs m) ?op = (l', Inr ())" "mget0 0 (ls_last l') (wr_Slot req) = op_LSN ?op"
    using assms(3) by (simp add: log_Append_def logged_def Let_def mget0_mput)
  obtain m' sent where d: "dispatch wr resolve (m\<lparr> rm_logs := l' \<rparr>) ?op = (m', sent)"
    by (cases "dispatch wr resolve (m\<lparr> rm_logs := l' \<rparr>) ?op")
  then have "rm_logs m' = l'" using dispatch_logs [of wr resolve "m\<lparr> rm_logs := l' \<rparr>" ?op] by simp
  with t' l' d assms(2) show ?thesis by (simp add: ApplyWrite_def Let_def logged_def)
qed

text \<open>When the log ends elsewhere, the write is executed, its number is used up, nothing is logged or sent and
  an error is returned.\<close>

lemma write_out_of_step:
  assumes "ready t (wr_Slot req)" "f st = (st', Inr ())" "logged m (wr_Slot req) \<noteq> lsn t (wr_Slot req)"
  shows "\<exists>t' e. ApplyWrite wr resolve f (Some alloc) st t m req = (st', t', m, [], Inl e) \<and>
    ready t' (wr_Slot req) \<and> lsn t' (wr_Slot req) = lsn t (wr_Slot req) + 1"
proof -
  obtain t' epoch where t': "alloc t (wr_Slot req) = (t', Inr (epoch, lsn t (wr_Slot req) + 1))"
    "lsn t' (wr_Slot req) = lsn t (wr_Slot req) + 1" "ready t' (wr_Slot req)"
    using alloc_next [OF assms(1)] by blast
  then show ?thesis
    using assms(2,3) by (simp add: ApplyWrite_def log_Append_def logged_def Let_def)
qed

lemma writes_in_step:
  "executes slot ws \<Longrightarrow> ready t slot \<Longrightarrow> logged m slot = lsn t slot \<Longrightarrow>
     \<exists>t' m'. writes wr resolve alloc st t m ws =
       (fold (\<lambda>(f, _) s. fst (f s)) ws st, t', m', replicate (length ws) True)"
proof (induction ws arbitrary: st t m)
  case (Cons w ws)
  obtain f req where w: "w = (f, req)" by (cases w)
  with Cons.prems(1) have e: "wr_Slot req = slot" "f st = (fst (f st), Inr ())" "executes slot ws"
    by (auto simp: executes_Cons)
  obtain t' m' sent op where
    a: "ApplyWrite wr resolve f (Some alloc) st t m req = (fst (f st), t', m', sent, Inr op)"
      "ready t' slot" "logged m' slot = lsn t' slot"
    using write_in_step [of t req f st "fst (f st)" m wr resolve] e Cons.prems(2,3) by auto
  from Cons.IH [OF e(3) a(2,3), of "fst (f st)"] show ?case by (auto simp: w a(1))
qed simp

lemma writes_out_of_step:
  "executes slot ws \<Longrightarrow> ready t slot \<Longrightarrow> unat (logged m slot) < unat (lsn t slot) \<Longrightarrow>
   unat (lsn t slot) + length ws < 2 ^ 64 \<Longrightarrow>
     \<exists>t'. writes wr resolve alloc st t m ws =
       (fold (\<lambda>(f, _) s. fst (f s)) ws st, t', m, replicate (length ws) False)"
proof (induction ws arbitrary: st t)
  case (Cons w ws)
  obtain f req where w: "w = (f, req)" by (cases w)
  with Cons.prems(1) have e: "wr_Slot req = slot" "f st = (fst (f st), Inr ())" "executes slot ws"
    by (auto simp: executes_Cons)
  have "logged m slot \<noteq> lsn t slot" using Cons.prems(3) by auto
  then obtain t' err where a: "ApplyWrite wr resolve f (Some alloc) st t m req = (fst (f st), t', m, [], Inl err)"
      "ready t' slot" "lsn t' slot = lsn t slot + 1"
    using write_out_of_step [of t req f st "fst (f st)" m wr resolve] e Cons.prems(2) by auto
  have "unat (lsn t' slot) = unat (lsn t slot) + 1"
    using Cons.prems(4) by (simp add: a(3) unat_word_ariths)
  with Cons.prems(3,4) have "unat (logged m slot) < unat (lsn t' slot)" "unat (lsn t' slot) + length ws < 2 ^ 64"
    by simp_all
  from Cons.IH [OF e(3) a(2) this, of "fst (f st)"] show ?case by (auto simp: w a(1))
qed simp

end

text \<open>
  C39: whether a node that starts accepts writes for a slot it owns depends on the sequence number in its slot
  table. The replication log is empty after a start. If the slot has no number yet, every write of any
  sequence succeeds. If the table was restored from disk, or a failover raised the number, so that it is
  not 0, then every write is executed on the data and nevertheless answered with an error, and none of
  them is logged or sent to a replica, for as long as the node runs.
\<close>

theorem writes_after_start:
  assumes "sm_ok sm" "in_range slot" "NodeID (slot_at sm slot) \<noteq> []" "executes slot ws"
    "unat (NextLSN (slot_at sm slot)) + length ws < 2 ^ 64"
  shows "\<exists>sm' m'. writes wr resolve AllocateLSN st sm (NewReplManager (Some (NewLogStore limit))) ws =
      (fold (\<lambda>(f, _) s. fst (f s)) ws st, sm', m', replicate (length ws) (NextLSN (slot_at sm slot) = 0)) \<and>
    (NextLSN (slot_at sm slot) \<noteq> 0 \<longrightarrow> m' = NewReplManager (Some (NewLogStore limit)))"
proof -
  let ?m = "NewReplManager (Some (NewLogStore limit))"
  have 0: "logged ?m slot = 0" by (simp add: logged_def NewReplManager_def NewLogStore_def mget0_def)
  have ready: "sm_ok sm \<and> in_range slot \<and> NodeID (slot_at sm slot) \<noteq> []" using assms(1-3) by simp
  show ?thesis
  proof (cases "NextLSN (slot_at sm slot) = 0")
    case True
    then show ?thesis
      using slot_lsn.writes_in_step [OF assms(4) ready, of ?m wr resolve st] 0 by auto
  next
    case False
    then have "unat (logged ?m slot) < unat (NextLSN (slot_at sm slot))" using 0 by (simp add: unat_gt_0)
    from slot_lsn.writes_out_of_step [OF assms(4) ready this assms(5), of wr resolve st] False show ?thesis by auto
  qed
qed

text \<open>The table of the example after the failover to the replica that had applied nine operations.\<close>

definition demo_failed_over :: SlotManager where
  "demo_failed_over = fst (PromoteReplica demo_table 5 ''n3'')"

lemma demo_failed_over:
  "sm_ok demo_failed_over" "NodeID (slot_at demo_failed_over 5) = ''n3''" "NextLSN (slot_at demo_failed_over 5) = 9"
proof -
  show "sm_ok demo_failed_over" unfolding demo_failed_over_def by (rule PromoteReplica_ok [OF demo_table_ok])
  have len: "length (slots demo_table) = SlotCount" using demo_table_ok by (simp add: sm_ok_def)
  show "NodeID (slot_at demo_failed_over 5) = ''n3''" "NextLSN (slot_at demo_failed_over 5) = 9"
    by (simp_all add: demo_failed_over_def PromoteReplica_def in_range_5 slot_at_demo Let_def len slot_view)
qed

theorem writes_after_start_witness:
  "let add = \<lambda>x (st :: string list). (st @ [x], Inr ());
       req = \<lparr> wr_Slot = 5, wr_OpType = ''SET'', wr_Key = ''k'', wr_Payload = [], wr_ExpireAtNs = 0 \<rparr>
   in \<exists>sm' m'. writes (\<lambda>_. True) None AllocateLSN [] demo_failed_over (NewReplManager (Some (NewLogStore 1024)))
        [(add ''a'', req), (add ''b'', req)] = ([''a'', ''b''], sm', m', [False, False])"
proof -
  let ?req = "\<lparr> wr_Slot = 5, wr_OpType = ''SET'', wr_Key = ''k'', wr_Payload = [], wr_ExpireAtNs = 0 \<rparr>"
  let ?add = "\<lambda>x (st :: string list). (st @ [x], Inr () :: unit res)"
  let ?ws = "[(?add ''a'', ?req), (?add ''b'', ?req)]"
  have ex: "executes 5 ?ws" by (simp add: executes_def)
  have "NodeID (slot_at demo_failed_over 5) \<noteq> []" "unat (NextLSN (slot_at demo_failed_over 5)) + length ?ws < 2 ^ 64"
    by (simp_all add: demo_failed_over)
  from writes_after_start [OF demo_failed_over(1) in_range_5 this(1) ex this(2), of "\<lambda>_. True" None "[]" 1024]
  obtain sm' m' where "writes (\<lambda>_. True) None AllocateLSN [] demo_failed_over (NewReplManager (Some (NewLogStore 1024))) ?ws =
      (fold (\<lambda>(f, _) s. fst (f s)) ?ws [], sm', m', replicate (length ?ws) (NextLSN (slot_at demo_failed_over 5) = 0))"
    by blast
  moreover have "fold (\<lambda>(f, _) s. fst (f s)) ?ws [] = [''a'', ''b'']" by simp
  moreover have "replicate (length ?ws) (NextLSN (slot_at demo_failed_over 5) = 0) = [False, False]"
    by (simp add: demo_failed_over)
  ultimately show ?thesis unfolding Let_def by metis
qed

section \<open>The replica\<close>

text \<open>What a replica does with the operations it receives, one at a time: those it does not skip are executed and
  committed. The second component is the sequence of operations that were executed.\<close>

fun deliver :: "ReplicaApplier \<Rightarrow> Op list \<Rightarrow> ReplicaApplier \<times> Op list" where
  "deliver a [] = (a, [])"
| "deliver a (op # ops) =
     (case applier_Begin a op of
        Inl _ \<Rightarrow> deliver a ops
      | Inr skip \<Rightarrow>
          if skip then deliver a ops
          else case deliver (applier_Commit a op) ops of (a', done) \<Rightarrow> (a', op # done))"

definition progress :: "ReplicaApplier \<Rightarrow> 16 word \<Rightarrow> ApplyProgress" where
  "progress a slot = mget0 \<lparr> ap_Epoch = 0, ap_LSN = 0 \<rparr> a slot"

definition epoch_ops :: "16 word \<Rightarrow> 64 word \<Rightarrow> Op list \<Rightarrow> bool" where
  "epoch_ops slot e ops \<longleftrightarrow> numbered ops \<and> (\<forall>op \<in> set ops. op_Slot op = slot \<and> op_Epoch op = e)"

lemma applier_Begin_at:
  assumes "op_Slot op = slot" "op_Epoch op = e"
    and "ap_Epoch (progress a slot) \<le> e" "ap_Epoch (progress a slot) = e \<longrightarrow> ap_LSN (progress a slot) = n"
    "ap_Epoch (progress a slot) < e \<longrightarrow> n = 0"
  shows "applier_Begin a op = Inr (op_LSN op \<le> n)"
  using assms by (auto simp: applier_Begin_def progress_def Let_def not_less)

lemma progress_Commit: "progress (applier_Commit a op) slot =
  (if slot = op_Slot op then \<lparr> ap_Epoch = op_Epoch op, ap_LSN = op_LSN op \<rparr> else progress a slot)"
  by (simp add: applier_Commit_def progress_def mget0_mput)

lemma snd_deliver_Cons:
  "applier_Begin a op = Inr skip \<Longrightarrow>
     snd (deliver a (op # ops)) = (if skip then snd (deliver a ops) else op # snd (deliver (applier_Commit a op) ops))"
  by (simp split: prod.split)

text \<open>The progress of a replica that has executed the first \<open>n\<close> operations of epoch \<open>e\<close>.\<close>

definition at_op :: "ReplicaApplier \<Rightarrow> 16 word \<Rightarrow> 64 word \<Rightarrow> nat \<Rightarrow> bool" where
  "at_op a slot e n \<longleftrightarrow>
     ap_Epoch (progress a slot) = e \<and> ap_LSN (progress a slot) = of_nat n \<or>
     ap_Epoch (progress a slot) < e \<and> n = 0"

lemma deliver_op:
  assumes ops: "epoch_ops slot e ops" and k: "k < length ops" "k \<le> n" "n \<le> length ops" and at: "at_op a slot e n"
  shows "snd (deliver a (ops ! k # zs)) =
      (if k < n then snd (deliver a zs) else ops ! k # snd (deliver (applier_Commit a (ops ! k)) zs))"
    and "at_op (applier_Commit a (ops ! k)) slot e (Suc k)"
proof -
  have z: "op_Slot (ops ! k) = slot" "op_Epoch (ops ! k) = e" "unat (op_LSN (ops ! k)) = Suc k"
    "op_LSN (ops ! k) = of_nat (Suc k)"
    using ops k(1) numbered_unat [of ops k] by (auto simp: epoch_ops_def numbered_def)
  have "applier_Begin a (ops ! k) = Inr (op_LSN (ops ! k) \<le> of_nat n)"
    using at z(1,2) by (intro applier_Begin_at [of _ slot e]) (auto simp: at_op_def)
  moreover have "op_LSN (ops ! k) \<le> of_nat n \<longleftrightarrow> k < n"
    using ops k(3) z(3) unat64 [of n] by (simp add: word_le_nat_alt epoch_ops_def numbered_def Suc_le_eq)
  ultimately show "snd (deliver a (ops ! k # zs)) =
      (if k < n then snd (deliver a zs) else ops ! k # snd (deliver (applier_Commit a (ops ! k)) zs))"
    by (simp only: snd_deliver_Cons)
  show "at_op (applier_Commit a (ops ! k)) slot e (Suc k)"
    using z by (simp add: at_op_def progress_Commit)
qed

lemma deliver_shuffle:
  assumes ops: "epoch_ops slot e ops"
  shows "zs \<in> shuffles (drop i ops) (drop j ops) \<Longrightarrow> i \<le> length ops \<Longrightarrow> j \<le> length ops \<Longrightarrow>
    at_op a slot e (max i j) \<Longrightarrow> snd (deliver a zs) = drop (max i j) ops"
proof (induction zs arbitrary: i j a)
  case Nil
  then have "drop i ops = []" "drop j ops = []" by simp_all
  then show ?case by simp
next
  case (Cons z zs)
  have step: "snd (deliver a (z # zs)) = drop (max i j) ops"
    if z: "k < length ops" "z = ops ! k" "k \<le> max i j" "zs \<in> shuffles (drop i' ops) (drop j' ops)"
      "i' \<le> length ops" "j' \<le> length ops" "max i' j' = max (max i j) (Suc k)" for k i' j'
  proof (cases "k < max i j")
    case True
    then have "max i' j' = max i j" using z(7) by simp
    with True z Cons.IH [OF z(4-6)] Cons.prems deliver_op(1) [OF ops z(1,3) _ Cons.prems(4)] show ?thesis by simp
  next
    case False
    then have k: "k = max i j" "max i' j' = Suc (max i j)" using z(3,7) by auto
    with z Cons.IH [OF z(4-6)] Cons.prems deliver_op [OF ops z(1,3) _ Cons.prems(4)] Cons_nth_drop_Suc [of k ops]
    show ?thesis by simp
  qed
  from Cons.prems(1) consider
      "drop i ops \<noteq> []" "z = hd (drop i ops)" "zs \<in> shuffles (tl (drop i ops)) (drop j ops)"
    | "drop j ops \<noteq> []" "z = hd (drop j ops)" "zs \<in> shuffles (drop i ops) (tl (drop j ops))"
    by (auto simp: Cons_in_shuffles_iff)
  then show ?case
  proof cases
    case 1
    then show ?thesis using Cons.prems by (intro step [of i "Suc i" j]) (auto simp: hd_drop_conv_nth tl_drop drop_Suc)
  next
    case 2
    then show ?thesis using Cons.prems by (intro step [of j i "Suc j"]) (auto simp: hd_drop_conv_nth tl_drop drop_Suc)
  qed
qed



end
