(* ===== verification/StateFile.thy ===== *)
theory StateFile
  imports Prelude
begin

text \<open>
  The saving of the cluster state, \<^verbatim>\<open>internal/cluster/state/manager.go\<close>, as a state machine: the changes of the
  cluster, the goroutine \<^verbatim>\<open>saveLoop\<close> with its debounce timer, and the two ends of a save, which runs while
  the cluster goes on changing. The state of the cluster is a value of a type \<open>'s\<close>; JSON and the file
  system are the success or failure of a save.
\<close>

section \<open>Model\<close>

record 's StateManager =
  dirty :: bool
  saveCh :: bool
  timer :: bool
  saving :: "'s option"
  disk :: "'s option"
  provided :: 's

definition NewStateManager :: "'s \<Rightarrow> 's StateManager" where
  "NewStateManager x =
     \<lparr> dirty = False, saveCh = False, timer = False, saving = None, disk = None, provided = x \<rparr>"

text \<open>\<^verbatim>\<open>MarkDirty\<close>: only the change from clean to dirty sends to the channel, which holds one signal.\<close>

definition MarkDirty :: "'s StateManager \<Rightarrow> 's StateManager" where
  "MarkDirty m = (if dirty m then m else m\<lparr> dirty := True, saveCh := True \<rparr>)"

text \<open>\<^verbatim>\<open>saveLoop\<close>: a signal starts the timer again; the timer starts a save when the state is dirty.\<close>

definition loopSignal :: "'s StateManager \<Rightarrow> 's StateManager" where
  "loopSignal m = m\<lparr> saveCh := False, timer := True \<rparr>"

definition loopTimer :: "'s StateManager \<Rightarrow> 's StateManager" where
  "loopTimer m =
     (let m1 = m\<lparr> timer := False \<rparr> in if dirty m1 then m1\<lparr> saving := Some (provided m1) \<rparr> else m1)"

text \<open>The end of \<^verbatim>\<open>save\<close>, when the file is in place, and when an error left it as it was.\<close>

definition saveDone :: "'s StateManager \<Rightarrow> 's StateManager" where
  "saveDone m = m\<lparr> disk := saving m, saving := None, dirty := False \<rparr>"

definition saveFailed :: "'s StateManager \<Rightarrow> 's StateManager" where
  "saveFailed m = m\<lparr> saving := None \<rparr>"

inductive step :: "'s StateManager \<Rightarrow> 's StateManager \<Rightarrow> bool" where
  change: "step m (MarkDirty (m\<lparr> provided := x \<rparr>))"
| signal: "saving m = None \<Longrightarrow> saveCh m \<Longrightarrow> step m (loopSignal m)"
| fires: "saving m = None \<Longrightarrow> timer m \<Longrightarrow> step m (loopTimer m)"
| saved: "saving m \<noteq> None \<Longrightarrow> step m (saveDone m)"
| failed: "saving m \<noteq> None \<Longrightarrow> step m (saveFailed m)"

text \<open>A step of a run in which every save succeeds and no change falls into one.\<close>

inductive calm_step :: "'s StateManager \<Rightarrow> 's StateManager \<Rightarrow> bool" where
  change: "saving m = None \<Longrightarrow> calm_step m (MarkDirty (m\<lparr> provided := x \<rparr>))"
| signal: "saving m = None \<Longrightarrow> saveCh m \<Longrightarrow> calm_step m (loopSignal m)"
| fires: "saving m = None \<Longrightarrow> timer m \<Longrightarrow> calm_step m (loopTimer m)"
| saved: "saving m \<noteq> None \<Longrightarrow> calm_step m (saveDone m)"

definition idle :: "'s StateManager \<Rightarrow> bool" where
  "idle m \<longleftrightarrow> \<not> saveCh m \<and> \<not> timer m \<and> saving m = None"

lemmas state_defs = MarkDirty_def loopSignal_def loopTimer_def saveDone_def saveFailed_def NewStateManager_def
  idle_def Let_def

section \<open>Calm runs\<close>

definition calm_inv :: "'s \<Rightarrow> 's StateManager \<Rightarrow> bool" where
  "calm_inv x0 m \<longleftrightarrow>
     (if dirty m then saveCh m \<or> timer m \<or> saving m = Some (provided m)
      else saving m = None \<and> (disk m = Some (provided m) \<or> disk m = None \<and> provided m = x0)) \<and>
     (saving m \<noteq> None \<longrightarrow> dirty m \<and> saving m = Some (provided m))"

lemma calm_inv_step: "calm_step m m' \<Longrightarrow> calm_inv x0 m \<Longrightarrow> calm_inv x0 m'"
  by (induction rule: calm_step.induct) (auto simp: calm_inv_def state_defs)

lemma calm_inv_run: "calm_step\<^sup>*\<^sup>* m m' \<Longrightarrow> calm_inv x0 m \<Longrightarrow> calm_inv x0 m'"
  by (induction rule: rtranclp_induct) (auto intro: calm_inv_step)

text \<open>
  in a run in which every save succeeds and no change of the cluster falls into a save, whenever the state
  manager has nothing left to do the file holds the current state, or nothing has changed at all.
\<close>

theorem calm_run_saved:
  assumes "calm_step\<^sup>*\<^sup>* (NewStateManager x0) m" "idle m"
  shows "disk m = Some (provided m) \<or> disk m = None \<and> provided m = x0"
proof -
  have "calm_inv x0 (NewStateManager x0)" by (simp add: calm_inv_def state_defs)
  from calm_inv_run [OF assms(1) this] assms(2) show ?thesis by (auto simp: calm_inv_def idle_def split: if_splits)
qed

lemma calm_example:
  "calm_step\<^sup>*\<^sup>* (NewStateManager (0::nat))
     (saveDone (loopTimer (loopSignal (MarkDirty ((NewStateManager 0)\<lparr> provided := 1 \<rparr>)))))"
proof -
  let ?m1 = "MarkDirty ((NewStateManager (0::nat))\<lparr> provided := 1 \<rparr>)"
  have "calm_step (NewStateManager 0) ?m1" by (rule calm_step.change) (simp add: state_defs)
  moreover have "calm_step ?m1 (loopSignal ?m1)" by (rule calm_step.signal) (simp_all add: state_defs)
  moreover have "calm_step (loopSignal ?m1) (loopTimer (loopSignal ?m1))"
    by (rule calm_step.fires) (simp_all add: state_defs)
  moreover have "calm_step (loopTimer (loopSignal ?m1)) (saveDone (loopTimer (loopSignal ?m1)))"
    by (rule calm_step.saved) (simp add: state_defs)
  ultimately show ?thesis by (meson rtranclp.rtrancl_into_rtrancl rtranclp.rtrancl_refl)
qed

theorem calm_run_saved_witness:
  "let m = saveDone (loopTimer (loopSignal (MarkDirty ((NewStateManager (0::nat))\<lparr> provided := 1 \<rparr>))))
   in idle m \<and> disk m = Some 1"
  using calm_run_saved [OF calm_example] by (simp add: state_defs)

section \<open>Other runs\<close>

lemma steps_trans: "step\<^sup>*\<^sup>* a b \<Longrightarrow> step b c \<Longrightarrow> step\<^sup>*\<^sup>* a c"
  by (rule rtranclp.rtrancl_into_rtrancl)

text \<open>A failed save leaves the flag set, and a later change finds it set and sends no signal.\<close>

definition stuck :: "'s StateManager \<Rightarrow> bool" where
  "stuck m \<longleftrightarrow> dirty m \<and> idle m"

lemma stuck_step: "step m m' \<Longrightarrow> stuck m \<Longrightarrow> stuck m' \<and> disk m' = disk m"
  by (induction rule: step.induct) (auto simp: stuck_def state_defs)

lemma stuck_run: "step\<^sup>*\<^sup>* m m' \<Longrightarrow> stuck m \<Longrightarrow> stuck m' \<and> disk m' = disk m"
  by (induction rule: rtranclp_induct) (auto dest: stuck_step)

text \<open>
  C37: a change can be lost. For every two states of the cluster there is a run, with a change while the file is
  being written, after which the manager is idle and clean and the file holds the earlier state. And there
  is a run, with one save that fails, after which no further run of the manager ever writes the file
  again, whatever changes.
\<close>

theorem state_lost:
  "(\<exists>m. step\<^sup>*\<^sup>* (NewStateManager x0) m \<and> idle m \<and> \<not> dirty m \<and> disk m = Some x \<and> provided m = y) \<and>
   (\<exists>m. step\<^sup>*\<^sup>* (NewStateManager x0) m \<and> disk m = None \<and> provided m = x \<and>
      (\<forall>m'. step\<^sup>*\<^sup>* m m' \<longrightarrow> idle m' \<and> disk m' = None))"
proof -
  let ?m1 = "MarkDirty ((NewStateManager x0)\<lparr> provided := x \<rparr>)"
  let ?m2 = "loopSignal ?m1"
  let ?m3 = "loopTimer ?m2"
  let ?m4 = "MarkDirty (?m3\<lparr> provided := y \<rparr>)"
  have "step\<^sup>*\<^sup>* (NewStateManager x0) ?m1" by (rule steps_trans [OF rtranclp.rtrancl_refl step.change])
  moreover have "step ?m1 ?m2" by (rule step.signal) (simp_all add: state_defs)
  moreover have "step ?m2 ?m3" by (rule step.fires) (simp_all add: state_defs)
  ultimately have m3: "step\<^sup>*\<^sup>* (NewStateManager x0) ?m3" by (blast intro: steps_trans)
  have "step ?m3 ?m4" by (rule step.change)
  moreover have "step ?m4 (saveDone ?m4)" by (rule step.saved) (simp add: state_defs)
  ultimately have "step\<^sup>*\<^sup>* (NewStateManager x0) (saveDone ?m4)" using m3 by (blast intro: steps_trans)
  moreover have "idle (saveDone ?m4) \<and> \<not> dirty (saveDone ?m4) \<and> disk (saveDone ?m4) = Some x \<and> provided (saveDone ?m4) = y"
    by (simp add: state_defs)
  moreover have "step ?m3 (saveFailed ?m3)" by (rule step.failed) (simp add: state_defs)
  with m3 have "step\<^sup>*\<^sup>* (NewStateManager x0) (saveFailed ?m3)" by (rule steps_trans)
  moreover have "stuck (saveFailed ?m3)" "disk (saveFailed ?m3) = None" "provided (saveFailed ?m3) = x"
    by (simp_all add: stuck_def state_defs)
  ultimately show ?thesis using stuck_run by (metis stuck_def)
qed

theorem state_lost_witness:
  "\<exists>m. step\<^sup>*\<^sup>* (NewStateManager (0::nat)) m \<and> idle m \<and> \<not> dirty m \<and> disk m = Some 1 \<and> provided m = 2"
  using state_lost [of "0::nat" 1 2] by blast

end
