(* ===== verification/Gossip.thy ===== *)
theory Gossip
  imports Slots GoFmt
begin

text \<open>
  The gossip protocol of the cluster, \<^verbatim>\<open>internal/cluster/gossip/gossip.go\<close> and \<^verbatim>\<open>message.go\<close>: the nodes a node
  knows, what it learns from a message about nodes and the owners of slots, the detection of failed
  nodes, and the framing of messages.

  \<^verbatim>\<open>self\<close> is the entry of the node map under its own name, which the code shares by a pointer. \<open>now\<close> is the
  time in milliseconds. Callbacks and messages to other nodes run in goroutines of their own; an
  operation returns the list of those it starts. The random choice of nodes is a function argument.
\<close>

unbundle bit_operations_syntax

section \<open>Data\<close>

datatype NodeState = NodeStateUnknown | NodeStateHandshake | NodeStateConnected | NodeStatePFail | NodeStateFail

datatype NodeRole = NodeRoleMaster | NodeRoleReplica

record HotSlotGossip =
  hs_Slot :: "16 word"
  hs_QPS :: "64 word"

record NodeLoadInfo =
  TotalQPS :: "64 word"
  HotSlotCount :: "16 word"
  HotSlots :: "HotSlotGossip list"

record GossipNode =
  gn_ID :: string
  gn_IP :: string
  gn_Port :: int
  gn_ClusterPort :: int
  gn_Role :: NodeRole
  gn_MasterID :: string
  gn_State :: NodeState
  gn_PingSent :: int
  gn_PongReceived :: int
  gn_FailReports :: "(string, int) gomap"
  gn_Load :: NodeLoadInfo

record NodeInfo =
  ni_ID :: string
  ni_IP :: string
  ni_Port :: int
  ni_ClusterPort :: int
  ni_Flags :: "16 word"
  ni_MasterID :: string
  ni_PingSent :: int
  ni_PongRecv :: int
  ni_ConfigEpoch :: "64 word"
  ni_Slots :: "8 word list"
  ni_Load :: NodeLoadInfo
  ni_ReporterID :: string

datatype MessageType = MsgPing | MsgPong | MsgMeet | MsgFail | MsgPublish | MsgUpdate | MsgOther "8 word"

record Message =
  msg_Type :: MessageType
  msg_Sender :: string
  msg_CurrentEpoch :: "64 word"
  msg_ConfigEpoch :: "64 word"
  msg_NodeInfo :: "NodeInfo option"
  msg_GossipNodes :: "NodeInfo list"
  msg_FailNodeID :: string
  msg_Data :: "8 word list"

record Gossip =
  g_self :: string
  g_nodes :: "(string, GossipNode) gomap"
  g_slotEpochs :: "(16 word, 64 word) gomap"
  g_currentEpoch :: "64 word"

datatype GossipEvent =
    NodeJoin string
  | NodeLeave string
  | SlotChange "16 word" string
  | BroadcastFail string

definition ClusterNodeTimeout :: int where "ClusterNodeTimeout = 15000"
definition ClusterPingInterval :: int where "ClusterPingInterval = 1000"
definition ClusterFailReportValidity :: int where "ClusterFailReportValidity = 30000"
definition GossipCount :: nat where "GossipCount = 3"

definition NodeFlagMaster :: "16 word" where "NodeFlagMaster = 1"
definition NodeFlagReplica :: "16 word" where "NodeFlagReplica = 2"
definition NodeFlagPFail :: "16 word" where "NodeFlagPFail = 4"
definition NodeFlagFail :: "16 word" where "NodeFlagFail = 8"

lemmas node_flags = NodeFlagMaster_def NodeFlagReplica_def NodeFlagPFail_def NodeFlagFail_def

definition noLoad :: NodeLoadInfo where
  "noLoad = \<lparr> TotalQPS = 0, HotSlotCount = 0, HotSlots = [] \<rparr>"

section \<open>Nodes\<close>

definition gn_Addr :: "GossipNode \<Rightarrow> string" where
  "gn_Addr n = gn_IP n @ '':'' @ FormatInt (gn_Port n)"

definition gn_ClusterAddr :: "GossipNode \<Rightarrow> string" where
  "gn_ClusterAddr n = gn_IP n @ '':'' @ FormatInt (gn_ClusterPort n)"

definition UpdatePong :: "int \<Rightarrow> GossipNode \<Rightarrow> GossipNode" where
  "UpdatePong now n = n\<lparr> gn_PongReceived := now, gn_State := NodeStateConnected \<rparr>"

definition MarkPFail :: "GossipNode \<Rightarrow> GossipNode" where
  "MarkPFail n = (if gn_State n = NodeStateConnected then n\<lparr> gn_State := NodeStatePFail \<rparr> else n)"

definition MarkFail :: "GossipNode \<Rightarrow> GossipNode" where
  "MarkFail n = n\<lparr> gn_State := NodeStateFail \<rparr>"

definition AddFailReport :: "int \<Rightarrow> string \<Rightarrow> GossipNode \<Rightarrow> GossipNode" where
  "AddFailReport now reporterID n = n\<lparr> gn_FailReports := mput reporterID now (gn_FailReports n) \<rparr>"

definition CountFailReports :: "int \<Rightarrow> int \<Rightarrow> GossipNode \<Rightarrow> int" where
  "CountFailReports now valid n = int (length (filter (\<lambda>(_, ts). now - ts < valid) (gn_FailReports n)))"

definition NewGossip :: "GossipNode \<Rightarrow> Gossip" where
  "NewGossip self = \<lparr> g_self = gn_ID self, g_nodes = [(gn_ID self, self)], g_slotEpochs = [], g_currentEpoch = 0 \<rparr>"

definition upd_node :: "string \<Rightarrow> (GossipNode \<Rightarrow> GossipNode) \<Rightarrow> Gossip \<Rightarrow> Gossip" where
  "upd_node n f g =
     (case mget (g_nodes g) n of None \<Rightarrow> g | Some node \<Rightarrow> g\<lparr> g_nodes := mput n (f node) (g_nodes g) \<rparr>)"

definition GetNodes :: "Gossip \<Rightarrow> GossipNode list" where
  "GetNodes g = map snd (g_nodes g)"

definition GetNode :: "Gossip \<Rightarrow> string \<Rightarrow> GossipNode option" where
  "GetNode g n = mget (g_nodes g) n"

definition SetCurrentEpoch :: "64 word \<Rightarrow> Gossip \<Rightarrow> Gossip" where
  "SetCurrentEpoch epoch g = g\<lparr> g_currentEpoch := epoch \<rparr>"

definition SetSelfRole :: "NodeRole \<Rightarrow> string \<Rightarrow> Gossip \<Rightarrow> Gossip" where
  "SetSelfRole role masterID g = upd_node (g_self g) (\<lambda>n. n\<lparr> gn_Role := role, gn_MasterID := masterID \<rparr>) g"

definition PromoteToMaster :: "string \<Rightarrow> Gossip \<Rightarrow> Gossip" where
  "PromoteToMaster nodeID g = upd_node nodeID (\<lambda>n. n\<lparr> gn_Role := NodeRoleMaster, gn_MasterID := [] \<rparr>) g"

section \<open>Slot bitmaps\<close>

text \<open>\<^verbatim>\<open>SlotsToBytes\<close> panics for a slot beyond the bitmap.\<close>

definition setBit :: "16 word \<Rightarrow> 8 word list \<Rightarrow> 8 word list go" where
  "setBit slot bitmap =
     (let i = unat slot div 8
      in if i < length bitmap then Some (bitmap[i := bitmap ! i OR push_bit (unat slot mod 8) 1]) else None)"

fun setBits :: "16 word list \<Rightarrow> 8 word list \<Rightarrow> 8 word list go" where
  "setBits [] bitmap = Some bitmap"
| "setBits (slot # rest) bitmap = do { bitmap' \<leftarrow> setBit slot bitmap; setBits rest bitmap' }"

definition SlotsToBytes :: "16 word list \<Rightarrow> 8 word list go" where
  "SlotsToBytes ss = setBits ss (replicate (SlotCount div 8) 0)"

definition BytesToSlots :: "8 word list \<Rightarrow> 16 word list" where
  "BytesToSlots bitmap =
     map of_nat (filter (\<lambda>i. bitmap ! (i div 8) AND push_bit (i mod 8) 1 \<noteq> 0) [0..<min (length bitmap * 8) SlotCount])"

section \<open>Owners of slots\<close>

definition epochOf :: "Gossip \<Rightarrow> 16 word \<Rightarrow> 64 word" where
  "epochOf g slot = (case mget (g_slotEpochs g) slot of None \<Rightarrow> 0 | Some e \<Rightarrow> e)"

definition recordSlotEpoch :: "16 word \<Rightarrow> 64 word \<Rightarrow> Gossip \<Rightarrow> Gossip" where
  "recordSlotEpoch slot epoch g =
     (if epoch \<ge> epochOf g slot then g\<lparr> g_slotEpochs := mput slot epoch (g_slotEpochs g) \<rparr> else g)"

definition canApplySlotOwnership :: "Gossip \<Rightarrow> SlotManager \<Rightarrow> 16 word \<Rightarrow> 64 word \<Rightarrow> bool" where
  "canApplySlotOwnership g sm slot incomingEpoch =
     (let assigned = GetSlotConfigEpoch sm slot;
          seen = (if assigned > epochOf g slot then assigned else epochOf g slot)
      in if incomingEpoch = 0 then seen = 0 else incomingEpoch > seen)"

definition slotEpoch :: "Gossip \<Rightarrow> SlotManager \<Rightarrow> 16 word \<Rightarrow> Gossip \<times> 64 word" where
  "slotEpoch g sm slot =
     (let epoch = GetSlotConfigEpoch sm slot
      in if epoch > 0 then (recordSlotEpoch slot epoch g, epoch) else (g, g_currentEpoch g))"

fun applySlots ::
  "string \<Rightarrow> 64 word \<Rightarrow> Gossip \<Rightarrow> SlotManager \<Rightarrow> 16 word list \<Rightarrow> Gossip \<times> SlotManager \<times> GossipEvent list" where
  "applySlots n epoch g sm [] = (g, sm, [])"
| "applySlots n epoch g sm (slot # rest) =
     (if \<not> canApplySlotOwnership g sm slot epoch then applySlots n epoch g sm rest
      else if GetSlotNode sm slot \<noteq> n then
        (case AssignSlot sm slot n of
           (sm', Inl _) \<Rightarrow> applySlots n epoch g sm' rest
         | (sm', Inr _) \<Rightarrow>
             (case applySlots n epoch (recordSlotEpoch slot epoch g) sm' rest of
                (g', sm'', ev) \<Rightarrow> (g', sm'', SlotChange slot n # ev)))
      else applySlots n epoch (recordSlotEpoch slot epoch g) sm rest)"

section \<open>Learning about a node\<close>

definition newNode :: "NodeInfo \<Rightarrow> GossipNode" where
  "newNode info = \<lparr> gn_ID = ni_ID info, gn_IP = ni_IP info, gn_Port = ni_Port info, gn_ClusterPort = ni_ClusterPort info,
     gn_Role = NodeRoleMaster, gn_MasterID = [], gn_State = NodeStateConnected, gn_PingSent = 0, gn_PongReceived = 0,
     gn_FailReports = [], gn_Load = noLoad \<rparr>"

definition updateNode :: "int \<Rightarrow> NodeInfo \<Rightarrow> bool \<Rightarrow> GossipNode \<Rightarrow> GossipNode" where
  "updateNode now info direct n =
     (let n1 = (if direct then
                  (if ni_Flags info AND NodeFlagMaster \<noteq> 0 then n\<lparr> gn_Role := NodeRoleMaster, gn_MasterID := [] \<rparr>
                   else if ni_Flags info AND NodeFlagReplica \<noteq> 0
                   then n\<lparr> gn_Role := NodeRoleReplica, gn_MasterID := ni_MasterID info \<rparr>
                   else n)
                else n);
          n2 = n1\<lparr> gn_Load := (gn_Load n1)\<lparr> TotalQPS := TotalQPS (ni_Load info),
                                            HotSlotCount := HotSlotCount (ni_Load info) \<rparr> \<rparr>
      in if ni_Flags info AND NodeFlagPFail \<noteq> 0 \<and> ni_ReporterID info \<noteq> []
         then AddFailReport now (ni_ReporterID info) n2 else n2)"

definition addReplicas :: "string \<Rightarrow> SlotManager \<Rightarrow> 16 word list \<Rightarrow> SlotManager" where
  "addReplicas replicaID = foldl (\<lambda>sm slot. AddSlotReplica sm slot replicaID)"

definition processNodeInfo ::
  "int \<Rightarrow> Gossip \<Rightarrow> SlotManager \<Rightarrow> NodeInfo \<Rightarrow> bool \<Rightarrow> Gossip \<times> SlotManager \<times> GossipEvent list" where
  "processNodeInfo now g sm info direct =
     (let (node, ev) = (case mget (g_nodes g) (ni_ID info) of
                          None \<Rightarrow> (newNode info, [NodeJoin (ni_ID info)])
                        | Some n \<Rightarrow> (n, []));
          node' = updateNode now info direct node;
          g1 = g\<lparr> g_nodes := mput (ni_ID info) node' (g_nodes g) \<rparr>;
          sm1 = (if direct \<and> ni_MasterID info \<noteq> [] \<and> ni_MasterID info = g_self g
                 then addReplicas (ni_ID info) sm (GetNodeSlots sm (g_self g)) else sm);
          sm2 = (if direct \<and> ni_MasterID info \<noteq> [] \<and> ni_MasterID info \<noteq> g_self g
                 then addReplicas (ni_ID info) sm1 (GetNodeSlots sm1 (ni_MasterID info)) else sm1)
      in if ni_Slots info \<noteq> [] \<and> gn_Role node' = NodeRoleMaster
         then (case applySlots (gn_ID node') (ni_ConfigEpoch info) g1 sm2 (BytesToSlots (ni_Slots info)) of
                 (g2, sm3, ev') \<Rightarrow> (g2, sm3, ev @ ev'))
         else (g1, sm2, ev))"

fun processSecondHand ::
  "int \<Rightarrow> string \<Rightarrow> Gossip \<Rightarrow> SlotManager \<Rightarrow> NodeInfo list \<Rightarrow> Gossip \<times> SlotManager \<times> GossipEvent list" where
  "processSecondHand now sender g sm [] = (g, sm, [])"
| "processSecondHand now sender g sm (info # infos) =
     (case processNodeInfo now g sm (info\<lparr> ni_ReporterID := sender \<rparr>) False of
        (g1, sm1, ev) \<Rightarrow>
          (case processSecondHand now sender g1 sm1 infos of (g2, sm2, ev') \<Rightarrow> (g2, sm2, ev @ ev')))"

section \<open>Messages\<close>

definition roleFlags :: "NodeRole \<Rightarrow> 16 word" where
  "roleFlags r = (if r = NodeRoleMaster then NodeFlagMaster else NodeFlagReplica)"

text \<open>\<^verbatim>\<open>selfNodeInfo\<close>; the load comes from the hotspot detector when there is one.\<close>

definition selfNodeInfo :: "NodeLoadInfo option \<Rightarrow> Gossip \<Rightarrow> SlotManager \<Rightarrow> NodeInfo go" where
  "selfNodeInfo load g sm =
     do { self \<leftarrow> mget (g_nodes g) (g_self g);
          bitmap \<leftarrow> SlotsToBytes (GetNodeSlots sm (gn_ID self));
          Some \<lparr> ni_ID = gn_ID self, ni_IP = gn_IP self, ni_Port = gn_Port self, ni_ClusterPort = gn_ClusterPort self,
                 ni_Flags = roleFlags (gn_Role self), ni_MasterID = gn_MasterID self, ni_PingSent = 0, ni_PongRecv = 0,
                 ni_ConfigEpoch = g_currentEpoch g, ni_Slots = bitmap,
                 ni_Load = (case load of None \<Rightarrow> noLoad | Some l \<Rightarrow> l), ni_ReporterID = [] \<rparr> }"

definition gossipInfo :: "Gossip \<Rightarrow> SlotManager \<Rightarrow> GossipNode \<Rightarrow> NodeInfo go" where
  "gossipInfo g sm n =
     do { bitmap \<leftarrow> SlotsToBytes (GetNodeSlots sm (gn_ID n));
          Some \<lparr> ni_ID = gn_ID n, ni_IP = gn_IP n, ni_Port = gn_Port n, ni_ClusterPort = gn_ClusterPort n,
                 ni_Flags = roleFlags (gn_Role n) OR
                   (if gn_State n = NodeStatePFail then NodeFlagPFail else 0) OR
                   (if gn_State n = NodeStateFail then NodeFlagFail else 0),
                 ni_MasterID = gn_MasterID n, ni_PingSent = gn_PingSent n, ni_PongRecv = gn_PongReceived n,
                 ni_ConfigEpoch = g_currentEpoch g, ni_Slots = bitmap, ni_Load = noLoad, ni_ReporterID = [] \<rparr> }"

fun gossipInfos :: "Gossip \<Rightarrow> SlotManager \<Rightarrow> GossipNode list \<Rightarrow> NodeInfo list go" where
  "gossipInfos g sm [] = Some []"
| "gossipInfos g sm (n # ns) =
     (if gn_ID n = g_self g then gossipInfos g sm ns
      else do { i \<leftarrow> gossipInfo g sm n; is \<leftarrow> gossipInfos g sm ns; Some (i # is) })"

definition randomGossipNodes :: "(NodeInfo list \<Rightarrow> NodeInfo list) \<Rightarrow> Gossip \<Rightarrow> SlotManager \<Rightarrow> NodeInfo list go" where
  "randomGossipNodes shuffle g sm =
     do { nodes \<leftarrow> gossipInfos g sm (GetNodes g);
          Some (if length nodes > GossipCount then take GossipCount (shuffle nodes) else nodes) }"

definition newMessage :: "MessageType \<Rightarrow> string \<Rightarrow> NodeInfo option \<Rightarrow> NodeInfo list \<Rightarrow> Message" where
  "newMessage t sender info nodes =
     \<lparr> msg_Type = t, msg_Sender = sender, msg_CurrentEpoch = 0, msg_ConfigEpoch = 0, 
       msg_NodeInfo = info, msg_GossipNodes = nodes, msg_FailNodeID = [], msg_Data = [] \<rparr>"

definition NewFailMessage :: "string \<Rightarrow> string \<Rightarrow> Message" where
  "NewFailMessage sender failNodeID =
     \<lparr> msg_Type = MsgFail, msg_Sender = sender, msg_CurrentEpoch = 0, msg_ConfigEpoch = 0, 
       msg_NodeInfo = None, msg_GossipNodes = [], msg_FailNodeID = failNodeID, msg_Data = [] \<rparr>"

definition learn :: "int \<Rightarrow> Gossip \<Rightarrow> SlotManager \<Rightarrow> Message \<Rightarrow> Gossip \<times> SlotManager \<times> GossipEvent list" where
  "learn now g sm msg =
     (let (g1, sm1, ev1) = (case msg_NodeInfo msg of
                              None \<Rightarrow> (g, sm, [])
                            | Some info \<Rightarrow> processNodeInfo now g sm info True);
          (g2, sm2, ev2) = processSecondHand now (msg_Sender msg) g1 sm1 (msg_GossipNodes msg)
      in (g2, sm2, ev1 @ ev2))"

definition handlePing ::
  "int \<Rightarrow> NodeLoadInfo option \<Rightarrow> (NodeInfo list \<Rightarrow> NodeInfo list) \<Rightarrow> Gossip \<Rightarrow> SlotManager \<Rightarrow> Message \<Rightarrow>
     (Gossip \<times> SlotManager \<times> GossipEvent list \<times> Message) go" where
  "handlePing now load shuffle g sm msg =
     (case learn now g sm msg of
        (g1, sm1, ev) \<Rightarrow>
          do { self \<leftarrow> selfNodeInfo load g1 sm1;
               nodes \<leftarrow> randomGossipNodes shuffle g1 sm1;
               Some (g1, sm1, ev, newMessage MsgPong (g_self g1) (Some self) nodes) })"

definition handlePong ::
  "int \<Rightarrow> Gossip \<Rightarrow> SlotManager \<Rightarrow> Message \<Rightarrow> Gossip \<times> SlotManager \<times> GossipEvent list" where
  "handlePong now g sm msg = learn now (upd_node (msg_Sender msg) (UpdatePong now) g) sm msg"

definition handleFail :: "Gossip \<Rightarrow> Message \<Rightarrow> Gossip \<times> GossipEvent list" where
  "handleFail g msg =
     (case mget (g_nodes g) (msg_FailNodeID msg) of
        None \<Rightarrow> (g, [])
      | Some _ \<Rightarrow> (upd_node (msg_FailNodeID msg) MarkFail g, [NodeLeave (msg_FailNodeID msg)]))"

definition handleConnection ::
  "int \<Rightarrow> NodeLoadInfo option \<Rightarrow> (NodeInfo list \<Rightarrow> NodeInfo list) \<Rightarrow> Gossip \<Rightarrow> SlotManager \<Rightarrow> Message \<Rightarrow>
     (Gossip \<times> SlotManager \<times> GossipEvent list \<times> Message option) go" where
  "handleConnection now load shuffle g sm msg =
     (case msg_Type msg of
        MsgPing \<Rightarrow> do { (g', sm', ev, pong) \<leftarrow> handlePing now load shuffle g sm msg; Some (g', sm', ev, Some pong) }
      | MsgMeet \<Rightarrow> do { (g', sm', ev, pong) \<leftarrow> handlePing now load shuffle g sm msg; Some (g', sm', ev, Some pong) }
      | MsgPong \<Rightarrow> (case handlePong now g sm msg of (g', sm', ev) \<Rightarrow> Some (g', sm', ev, None))
      | MsgFail \<Rightarrow> (case handleFail g msg of (g', ev) \<Rightarrow> Some (g', sm, ev, None))
      | _ \<Rightarrow> Some (g, sm, [], None))"

section \<open>Pings and failures\<close>

definition pingCandidates :: "int \<Rightarrow> Gossip \<Rightarrow> GossipNode list" where
  "pingCandidates now g =
     filter (\<lambda>n. gn_ID n \<noteq> g_self g \<and> now - gn_PingSent n > ClusterPingInterval) (GetNodes g)"

text \<open>\<^verbatim>\<open>pingNode\<close> once the connection is open: \<open>net\<close> gives the answer to a message, \<open>None\<close> when writing,
  reading or decoding fails.\<close>

definition pingNode ::
  "int \<Rightarrow> NodeLoadInfo option \<Rightarrow> (NodeInfo list \<Rightarrow> NodeInfo list) \<Rightarrow> (Message \<Rightarrow> Message option) \<Rightarrow>
     Gossip \<Rightarrow> SlotManager \<Rightarrow> string \<Rightarrow> (Gossip \<times> SlotManager \<times> GossipEvent list) go" where
  "pingNode now load shuffle net g sm n =
     do { let g1 = upd_node n (\<lambda>node. node\<lparr> gn_PingSent := now \<rparr>) g;
          self \<leftarrow> selfNodeInfo load g1 sm;
          nodes \<leftarrow> randomGossipNodes shuffle g1 sm;
          Some (case net (newMessage MsgPing (g_self g1) (Some self) nodes) of
                  None \<Rightarrow> (g1, sm, [])
                | Some resp \<Rightarrow> if msg_Type resp = MsgPong then handlePong now g1 sm resp else (g1, sm, [])) }"

text \<open>\<^verbatim>\<open>Meet\<close>: \<open>dial\<close> opens the connection, \<open>net\<close> gives the answer or the error of writing, reading or decoding.\<close>

definition gossip_Meet ::
  "int \<Rightarrow> NodeLoadInfo option \<Rightarrow> (string \<Rightarrow> unit res) \<Rightarrow> (string \<Rightarrow> Message \<Rightarrow> Message res) \<Rightarrow> Gossip \<Rightarrow> SlotManager \<Rightarrow>
     string \<Rightarrow> (Gossip \<times> SlotManager \<times> GossipEvent list \<times> unit res) go" where
  "gossip_Meet now load dial net g sm addr =
     (case dial addr of
        Inl e \<Rightarrow> Some (g, sm, [], Inl (wrapErr (''connect to '' @ addr) e))
      | Inr _ \<Rightarrow>
          do { self \<leftarrow> selfNodeInfo load g sm;
               Some (case net addr (newMessage MsgMeet (g_self g) (Some self) []) of
                       Inl e \<Rightarrow> (g, sm, [], Inl e)
                     | Inr resp \<Rightarrow>
                         (case msg_NodeInfo resp of
                            Some info \<Rightarrow>
                              if msg_Type resp = MsgPong
                              then (case processNodeInfo now g sm info True of (g', sm', ev) \<Rightarrow> (g', sm', ev, Inr ()))
                              else (g, sm, [], Inr ())
                          | None \<Rightarrow> (g, sm, [], Inr ()))) })"

definition countMasters :: "Gossip \<Rightarrow> int" where
  "countMasters g =
     int (length (filter (\<lambda>n. gn_Role n = NodeRoleMaster \<and> gn_State n = NodeStateConnected) (GetNodes g)))"

definition checkNode :: "int \<Rightarrow> Gossip \<Rightarrow> string \<Rightarrow> Gossip \<times> GossipEvent list" where
  "checkNode now g k =
     (case mget (g_nodes g) k of
        None \<Rightarrow> (g, [])
      | Some node \<Rightarrow>
          (if gn_ID node = g_self g then (g, [])
           else let g1 = (if gn_State node = NodeStateConnected \<and> now - gn_PongReceived node > ClusterNodeTimeout
                          then upd_node k MarkPFail g else g);
                    node1 = (if gn_State node = NodeStateConnected \<and> now - gn_PongReceived node > ClusterNodeTimeout
                             then MarkPFail node else node)
                in if gn_State node1 = NodeStatePFail \<and>
                      CountFailReports now ClusterFailReportValidity node1 \<ge> countMasters g1 div 2 + 1
                   then (upd_node k MarkFail g1, [BroadcastFail (gn_ID node), NodeLeave (gn_ID node)])
                   else (g1, [])))"

fun checkNodes :: "int \<Rightarrow> Gossip \<Rightarrow> string list \<Rightarrow> Gossip \<times> GossipEvent list" where
  "checkNodes now g [] = (g, [])"
| "checkNodes now g (k # ks) =
     (case checkNode now g k of
        (g1, ev) \<Rightarrow> (case checkNodes now g1 ks of (g2, ev') \<Rightarrow> (g2, ev @ ev')))"

definition checkNodeFailures :: "int \<Rightarrow> Gossip \<Rightarrow> Gossip \<times> GossipEvent list" where
  "checkNodeFailures now g = checkNodes now g (mkeys (g_nodes g))"

text \<open>The nodes that a failure or a change of ownership is sent to.\<close>

definition connectedPeers :: "Gossip \<Rightarrow> GossipNode list" where
  "connectedPeers g = filter (\<lambda>n. gn_ID n \<noteq> g_self g \<and> gn_State n = NodeStateConnected) (GetNodes g)"

definition broadcastFail :: "Gossip \<Rightarrow> string \<Rightarrow> (string \<times> Message) list" where
  "broadcastFail g failNodeID =
     map (\<lambda>n. (gn_ClusterAddr n, NewFailMessage (g_self g) failNodeID)) (connectedPeers g)"

text \<open>A message for each peer; the result is the first error of the network, \<open>send\<close>.\<close>

definition firstErr :: "('a \<Rightarrow> unit res) \<Rightarrow> 'a list \<Rightarrow> unit res" where
  "firstErr send xs = (case filter (isl \<circ> send) xs of [] \<Rightarrow> Inr () | x # _ \<Rightarrow> send x)"

definition broadcastNodeInfo ::
  "NodeLoadInfo option \<Rightarrow> (string \<times> Message \<Rightarrow> unit res) \<Rightarrow> Gossip \<Rightarrow> SlotManager \<Rightarrow> NodeInfo \<Rightarrow>
     ((string \<times> Message) list \<times> unit res) go" where
  "broadcastNodeInfo load send g sm info =
     (if connectedPeers g = [] then Some ([], Inr ())
      else do { self \<leftarrow> selfNodeInfo load g sm;
                let msg = newMessage MsgPing (g_self g) (Some self) [info];
                let out = map (\<lambda>n. (gn_ClusterAddr n, msg)) (connectedPeers g);
                Some (out, firstErr send out) })"

definition ownerInfo :: "GossipNode \<Rightarrow> 64 word \<Rightarrow> 8 word list \<Rightarrow> NodeInfo" where
  "ownerInfo owner epoch bitmap =
     \<lparr> ni_ID = gn_ID owner, ni_IP = gn_IP owner, ni_Port = gn_Port owner, ni_ClusterPort = gn_ClusterPort owner,
       ni_Flags = NodeFlagMaster, ni_MasterID = [], ni_PingSent = 0, ni_PongRecv = 0, ni_ConfigEpoch = epoch,
       ni_Slots = bitmap, ni_Load = noLoad, ni_ReporterID = [] \<rparr>"

definition BroadcastSlotOwnership ::
  "NodeLoadInfo option \<Rightarrow> (string \<times> Message \<Rightarrow> unit res) \<Rightarrow> Gossip \<Rightarrow> SlotManager \<Rightarrow> 16 word \<Rightarrow> string \<Rightarrow>
     (Gossip \<times> (string \<times> Message) list \<times> unit res) go" where
  "BroadcastSlotOwnership load send g sm slot ownerID =
     (case mget (g_nodes g) ownerID of
        None \<Rightarrow> Some (g, [], Inl (ErrMsg (''owner node '' @ ownerID @ '' not found'')))
      | Some owner \<Rightarrow>
          (case slotEpoch g sm slot of
             (g1, epoch) \<Rightarrow>
               do { let owned = GetNodeSlots sm ownerID;
                    bitmap \<leftarrow> SlotsToBytes (if slot \<in> set owned then owned else owned @ [slot]);
                    (out, err) \<leftarrow> broadcastNodeInfo load send g1 sm (ownerInfo owner epoch bitmap);
                    Some (g1, out, err) }))"

section \<open>Framing\<close>

definition writeMessage :: "8 word list \<Rightarrow> 8 word list" where
  "writeMessage data =
     (let n = of_nat (length data) :: 32 word
      in [ucast (drop_bit 24 n), ucast (drop_bit 16 n), ucast (drop_bit 8 n), ucast n] @ data)"

text \<open>The message and the rest of the input.\<close>

definition readMessage :: "8 word list \<Rightarrow> (8 word list \<times> 8 word list) res" where
  "readMessage s =
     (case s of
        b0 # b1 # b2 # b3 # rest \<Rightarrow>
          (let n = push_bit 24 (ucast b0) OR push_bit 16 (ucast b1) OR push_bit 8 (ucast b2) OR (ucast b3 :: 32 word)
           in if n > 1024 * 1024 then Inl (ErrMsg (''message too large: '' @ FormatInt (uint n)))
              else if unat n \<le> length rest then Inr (take (unat n) rest, drop (unat n) rest)
              else Inl (ErrMsg (if rest = [] then ''EOF'' else ''unexpected EOF'')))
      | [] \<Rightarrow> Inl (ErrMsg ''EOF'')
      | _ \<Rightarrow> Inl (ErrMsg ''unexpected EOF''))"

text \<open>The bytes of a message are its type and the encoding of the library \<^verbatim>\<open>encoding/gob\<close>, here \<open>gob\<close> and
  \<open>ungob\<close>.\<close>

definition typeByte :: "MessageType \<Rightarrow> 8 word" where
  "typeByte t =
     (case t of MsgPing \<Rightarrow> 1 | MsgPong \<Rightarrow> 2 | MsgMeet \<Rightarrow> 3 | MsgFail \<Rightarrow> 4 | MsgPublish \<Rightarrow> 5 | MsgUpdate \<Rightarrow> 6
      | MsgOther b \<Rightarrow> b)"

definition byteType :: "8 word \<Rightarrow> MessageType" where
  "byteType b =
     (if b = 1 then MsgPing else if b = 2 then MsgPong else if b = 3 then MsgMeet else if b = 4 then MsgFail
      else if b = 5 then MsgPublish else if b = 6 then MsgUpdate else MsgOther b)"

definition Encode :: "(Message \<Rightarrow> 8 word list res) \<Rightarrow> Message \<Rightarrow> 8 word list res" where
  "Encode gob m = (case gob m of Inl e \<Rightarrow> Inl e | Inr bs \<Rightarrow> Inr (typeByte (msg_Type m) # bs))"

definition Decode :: "(8 word list \<Rightarrow> Message res) \<Rightarrow> 8 word list \<Rightarrow> Message res" where
  "Decode ungob data =
     (case data of
        [] \<Rightarrow> Inl (ErrMsg ''invalid message'')
      | t # bs \<Rightarrow> (case ungob bs of Inl e \<Rightarrow> Inl e | Inr m \<Rightarrow> Inr (m\<lparr> msg_Type := byteType t \<rparr>)))"

end
