(* ===== verification/GossipProps.thy ===== *)
theory GossipProps
  imports Gossip SlotsProps
begin

text \<open>
  Correctness of the gossip protocol: the slot bitmaps and the frames of messages survive the network;
  no message crashes a node or breaks its tables; the owner of a slot changes only on the word of a
  message that names the new owner with a newer epoch; when a node is declared failed.
\<close>

section \<open>Slot bitmaps\<close>

definition has_bit :: "8 word list \<Rightarrow> nat \<Rightarrow> bool" where
  "has_bit b i \<longleftrightarrow> bit (b ! (i div 8)) (i mod 8)"

lemma BytesToSlots_alt:
  "BytesToSlots b = map of_nat (filter (has_bit b) [0..<min (length b * 8) SlotCount])"
proof -
  have "has_bit b = (\<lambda>i. b ! (i div 8) AND push_bit (i mod 8) 1 \<noteq> 0)"
    by (rule ext) (simp only: has_bit_def bit_iff_and_push_bit_not_eq_0)
  then show ?thesis by (simp only: BytesToSlots_def)
qed

lemma setBit_Some:
  assumes "unat slot < 8 * length b"
  shows "\<exists>b'. setBit slot b = Some b' \<and> length b' = length b \<and>
    (\<forall>i < 8 * length b. has_bit b' i \<longleftrightarrow> has_bit b i \<or> i = unat slot)"
proof -
  have k: "unat slot div 8 < length b" using assms by simp
  let ?b = "b[unat slot div 8 := b ! (unat slot div 8) OR push_bit (unat slot mod 8) 1]"
  have "has_bit ?b i \<longleftrightarrow> has_bit b i \<or> i = unat slot" if "i < 8 * length b" for i
  proof (cases "i div 8 = unat slot div 8")
    case True
    then have "i = unat slot \<longleftrightarrow> i mod 8 = unat slot mod 8" by (metis div_mult_mod_eq)
    moreover have "i mod 8 < 8" by simp
    ultimately show ?thesis using True k by (auto simp: has_bit_def bit_or_iff bit_exp_iff)
  qed (auto simp: has_bit_def)
  with k show ?thesis by (simp add: setBit_def Let_def)
qed

lemma setBits_Some:
  assumes "\<forall>s \<in> set ss. unat s < 8 * length b"
  shows "\<exists>b'. setBits ss b = Some b' \<and> length b' = length b \<and>
    (\<forall>i < 8 * length b. has_bit b' i \<longleftrightarrow> has_bit b i \<or> i \<in> unat ` set ss)"
  using assms
proof (induction ss arbitrary: b)
  case (Cons s ss)
  from Cons.prems setBit_Some [of s b] obtain b1 where
    b1: "setBit s b = Some b1" "length b1 = length b" "\<forall>i < 8 * length b. has_bit b1 i \<longleftrightarrow> has_bit b i \<or> i = unat s"
    by auto
  from Cons.IH [of b1] Cons.prems b1(2) obtain b' where
    "setBits ss b1 = Some b'" "length b' = length b"
    "\<forall>i < 8 * length b. has_bit b' i \<longleftrightarrow> has_bit b1 i \<or> i \<in> unat ` set ss" by auto
  with b1 show ?case by auto
qed simp

lemma slot_bits: "8 * (SlotCount div 8) = SlotCount" "SlotCount div 8 * 8 = SlotCount"
  by (simp_all add: SlotCount_def)

lemma SlotsToBytes_Some:
  assumes "\<forall>s \<in> set ss. in_range s"
  shows "\<exists>b. SlotsToBytes ss = Some b \<and> length b = SlotCount div 8 \<and>
    BytesToSlots b = map of_nat (filter (\<lambda>i. i \<in> unat ` set ss) [0..<SlotCount])"
proof -
  let ?z = "replicate (SlotCount div 8) (0 :: 8 word)"
  from assms setBits_Some [of ss ?z] obtain b where
    b: "SlotsToBytes ss = Some b" "length b = SlotCount div 8"
      "\<forall>i < SlotCount. has_bit b i \<longleftrightarrow> has_bit ?z i \<or> i \<in> unat ` set ss"
    by (auto simp: in_range_def slot_bits SlotsToBytes_def)
  have "\<not> has_bit ?z i" if "i < SlotCount" for i
    using that slot_bits(1) by (simp add: has_bit_def less_mult_imp_div_less mult.commute)
  with b(3) have "filter (has_bit b) [0..<SlotCount] = filter (\<lambda>i. i \<in> unat ` set ss) [0..<SlotCount]"
    by (intro filter_cong) auto
  with b show ?thesis by (auto simp: BytesToSlots_alt slot_bits)
qed

lemma SlotsToBytes_total: "\<forall>s \<in> set ss. in_range s \<Longrightarrow> \<exists>b. SlotsToBytes ss = Some b"
  using SlotsToBytes_Some by blast

lemma set_slots_of:
  assumes "\<forall>s \<in> set ss. in_range s"
  shows "set (map of_nat (filter (\<lambda>i. i \<in> unat ` set ss) [0..<SlotCount])) = set ss"
proof -
  have "{i. i < SlotCount \<and> i \<in> unat ` set ss} = unat ` set ss"
    using assms by (auto simp: in_range_def)
  then have "set (map of_nat (filter (\<lambda>i. i \<in> unat ` set ss) [0..<SlotCount])) = (of_nat :: nat \<Rightarrow> 16 word) ` unat ` set ss"
    by auto
  also have "\<dots> = set ss" by (simp add: image_image)
  finally show ?thesis .
qed

lemma in_range_of_nat: "i < SlotCount \<Longrightarrow> unat (of_nat i :: 16 word) = i"
  by (simp add: SlotCount_def unat_of_nat)

lemma sorted_slots: "sorted_wrt (<) (map (of_nat :: nat \<Rightarrow> 16 word) (filter P [0..<SlotCount]))"
proof -
  have "sorted_wrt (<) (filter P [0..<SlotCount])" by (simp add: sorted_wrt_filter)
  then have "sorted_wrt (\<lambda>i j. (of_nat i :: 16 word) < of_nat j) (filter P [0..<SlotCount])"
    by (rule sorted_wrt_mono_rel [rotated]) (simp add: word_less_nat_alt in_range_of_nat)
  then show ?thesis by (simp add: sorted_wrt_map)
qed

lemma setBits_None: "length b = SlotCount div 8 \<Longrightarrow> \<exists>s \<in> set ss. \<not> in_range s \<Longrightarrow> setBits ss b = None"
proof (induction ss arbitrary: b)
  case (Cons s ss)
  show ?case
  proof (cases "in_range s")
    case True
    with Cons.prems setBit_Some [of s b] obtain b1 where "setBit s b = Some b1" "length b1 = length b"
      by (auto simp: in_range_def slot_bits)
    with Cons True show ?thesis by auto
  next
    case False
    then have "\<not> unat s div 8 < SlotCount div 8" by (simp add: in_range_def SlotCount_def)
    with Cons.prems(1) show ?thesis by (simp add: setBit_def)
  qed
qed simp

section \<open>Invariant\<close>

definition small :: "SlotManager \<Rightarrow> bool" where
  "small sm \<longleftrightarrow> (\<forall>n. \<forall>s \<in> set (slotsOf sm n). in_range s)"

definition gs_ok :: "Gossip \<Rightarrow> SlotManager \<Rightarrow> bool" where
  "gs_ok g sm \<longleftrightarrow> sm_ok sm \<and> small sm \<and> mwf (g_nodes g) \<and>
     (\<forall>k n. mget (g_nodes g) k = Some n \<longrightarrow> gn_ID n = k) \<and> mget (g_nodes g) (g_self g) \<noteq> None"

lemma small_markDirty [simp]: "small (markDirty sm) = small sm"
  by (simp add: small_def)

lemma AssignSlot_small: "small sm \<Longrightarrow> small (fst (AssignSlot sm slot n))"
  by (auto simp: AssignSlot_def Let_def small_def slot_view dest: subsetD [OF set_remove1_subset])

lemma AddSlotReplica_view:
  assumes "length (slots sm) = SlotCount"
  shows "slotsOf (AddSlotReplica sm slot r) = slotsOf sm"
    and "GetSlotNode (AddSlotReplica sm slot r) s = GetSlotNode sm s"
    and "GetSlotConfigEpoch (AddSlotReplica sm slot r) s = GetSlotConfigEpoch sm s"
  using assms by (simp_all add: AddSlotReplica_def Let_def GetSlotNode_def GetSlotConfigEpoch_def slot_view)

lemma sm_ok_length: "sm_ok sm \<Longrightarrow> length (slots sm) = SlotCount"
  by (simp add: sm_ok_def)

lemma addReplicas_view:
  assumes "sm_ok sm"
  shows "sm_ok (addReplicas r sm ss) \<and> slotsOf (addReplicas r sm ss) = slotsOf sm \<and>
    GetSlotNode (addReplicas r sm ss) = GetSlotNode sm \<and>
    GetSlotConfigEpoch (addReplicas r sm ss) = GetSlotConfigEpoch sm"
  using assms
proof (induction ss arbitrary: sm)
  case (Cons s ss)
  from Cons.IH [OF AddSlotReplica_ok [OF Cons.prems, of s r]] Cons.prems show ?case
    by (simp add: addReplicas_def AddSlotReplica_view [OF sm_ok_length [OF Cons.prems]] fun_eq_iff)
qed (simp add: addReplicas_def)

lemma AssignSlot_epoch:
  assumes "sm_ok sm"
  shows "GetSlotConfigEpoch (fst (AssignSlot sm slot n)) s = GetSlotConfigEpoch sm s"
proof (cases "in_range slot")
  case True
  with assms AssignSlot_view(1) [of sm slot n s] show ?thesis by (simp add: GetSlotConfigEpoch_def sm_ok_def)
qed (simp add: AssignSlot_def)

lemma AssignSlot_owner:
  assumes "sm_ok sm" "in_range slot"
  shows "GetSlotNode (fst (AssignSlot sm slot n)) s = (if s = slot then n else GetSlotNode sm s)"
  using assms AssignSlot_view(1) [of sm slot n s] by (auto simp: GetSlotNode_def sm_ok_def)

section \<open>Owners and epochs\<close>

definition seen :: "Gossip \<Rightarrow> SlotManager \<Rightarrow> 16 word \<Rightarrow> 64 word" where
  "seen g sm slot = max (epochOf g slot) (GetSlotConfigEpoch sm slot)"

definition newer :: "64 word \<Rightarrow> 64 word \<Rightarrow> bool" where
  "newer e s \<longleftrightarrow> s < e \<or> e = 0 \<and> s = 0"

lemma canApply_iff: "canApplySlotOwnership g sm slot e \<longleftrightarrow> newer e (seen g sm slot)"
  by (auto simp: canApplySlotOwnership_def Let_def newer_def seen_def max_def)

lemma newer_mono: "newer e s \<Longrightarrow> s' \<le> s \<Longrightarrow> newer e s'"
  by (auto simp: newer_def)

lemma epochOf_record:
  "epochOf (recordSlotEpoch slot e g) s = (if s = slot then max e (epochOf g slot) else epochOf g s)"
  by (auto simp: recordSlotEpoch_def epochOf_def go_map max_def split: option.splits)

lemma record_view [simp]:
  "g_nodes (recordSlotEpoch slot e g) = g_nodes g" "g_self (recordSlotEpoch slot e g) = g_self g"
  by (simp_all add: recordSlotEpoch_def)

lemma gs_ok_record [simp]: "gs_ok (recordSlotEpoch slot e g) sm = gs_ok g sm"
  by (simp add: gs_ok_def)

text \<open>A claim is a node, an epoch and the slots it is said to own. A change is justified by claims when no
  epoch goes back and a slot has a new owner only if a claim with a newer epoch names it.\<close>

definition claim :: "NodeInfo \<Rightarrow> string \<times> 64 word \<times> 16 word list" where
  "claim info = (ni_ID info, ni_ConfigEpoch info, BytesToSlots (ni_Slots info))"

definition justified ::
  "(string \<times> 64 word \<times> 16 word list) set \<Rightarrow> Gossip \<Rightarrow> SlotManager \<Rightarrow> Gossip \<Rightarrow> SlotManager \<Rightarrow> bool" where
  "justified C g sm g' sm' \<longleftrightarrow>
     gs_ok g' sm' \<and> g_self g' = g_self g \<and>
     (\<forall>slot. seen g sm slot \<le> seen g' sm' slot \<and>
        (GetSlotNode sm' slot = GetSlotNode sm slot \<or>
         (\<exists>(n, e, ss) \<in> C. n = GetSlotNode sm' slot \<and> slot \<in> set ss \<and> newer e (seen g sm slot) \<and>
            e \<le> seen g' sm' slot)))"

lemma justified_same:
  "gs_ok g' sm' \<Longrightarrow> g_self g' = g_self g \<Longrightarrow> GetSlotNode sm' = GetSlotNode sm \<Longrightarrow>
     (\<And>slot. seen g sm slot \<le> seen g' sm' slot) \<Longrightarrow> justified C g sm g' sm'"
  by (simp add: justified_def)

lemma justified_trans:
  assumes 1: "justified C g sm g1 sm1" and 2: "justified D g1 sm1 g2 sm2"
  shows "justified (C \<union> D) g sm g2 sm2"
proof -
  have "GetSlotNode sm2 slot = GetSlotNode sm slot \<or>
      (\<exists>(n, e, ss) \<in> C \<union> D. n = GetSlotNode sm2 slot \<and> slot \<in> set ss \<and> newer e (seen g sm slot) \<and>
         e \<le> seen g2 sm2 slot)"
    and mono: "seen g sm slot \<le> seen g2 sm2 slot" for slot
  proof -
    have m: "seen g sm slot \<le> seen g1 sm1 slot" "seen g1 sm1 slot \<le> seen g2 sm2 slot"
      using 1 2 by (simp_all add: justified_def)
    then show "seen g sm slot \<le> seen g2 sm2 slot" by simp
    show "GetSlotNode sm2 slot = GetSlotNode sm slot \<or>
      (\<exists>(n, e, ss) \<in> C \<union> D. n = GetSlotNode sm2 slot \<and> slot \<in> set ss \<and> newer e (seen g sm slot) \<and>
         e \<le> seen g2 sm2 slot)"
    proof (cases "GetSlotNode sm2 slot = GetSlotNode sm1 slot")
      case True
      from 1 have "GetSlotNode sm1 slot = GetSlotNode sm slot \<or>
          (\<exists>(n, e, ss) \<in> C. n = GetSlotNode sm1 slot \<and> slot \<in> set ss \<and> newer e (seen g sm slot) \<and>
             e \<le> seen g1 sm1 slot)"
        by (simp add: justified_def)
      with True m(2) show ?thesis by (fastforce intro: order_trans)
    next
      case False
      with 2 obtain n e ss where "(n, e, ss) \<in> D" "n = GetSlotNode sm2 slot" "slot \<in> set ss"
        "newer e (seen g1 sm1 slot)" "e \<le> seen g2 sm2 slot"
        unfolding justified_def by blast
      with newer_mono [OF _ m(1)] show ?thesis by blast
    qed
  qed
  with 1 2 show ?thesis by (simp add: justified_def)
qed

lemma justified_mono: "justified C g sm g' sm' \<Longrightarrow> C \<subseteq> D \<Longrightarrow> justified D g sm g' sm'"
  unfolding justified_def by blast

section \<open>Learning from messages\<close>

lemma AssignSlot_res: "in_range slot \<Longrightarrow> AssignSlot sm slot n = (fst (AssignSlot sm slot n), Inr ())"
  by (simp add: AssignSlot_def Let_def)

lemma BytesToSlots_range: "s \<in> set (BytesToSlots b) \<Longrightarrow> in_range s"
  by (auto simp: BytesToSlots_def in_range_def in_range_of_nat)

lemma assign_justified:
  assumes ok: "gs_ok g sm" and slot: "in_range slot" "slot \<in> set ss" and new: "newer e (seen g sm slot)"
  shows "justified {(n, e, ss)} g sm (recordSlotEpoch slot e g) (fst (AssignSlot sm slot n))"
proof -
  from ok have sm: "sm_ok sm" by (simp add: gs_ok_def)
  show ?thesis
    unfolding justified_def
  proof (intro conjI allI)
    show "gs_ok (recordSlotEpoch slot e g) (fst (AssignSlot sm slot n))"
      using ok by (simp add: gs_ok_def AssignSlot_ok AssignSlot_small)
    show "seen g sm s \<le> seen (recordSlotEpoch slot e g) (fst (AssignSlot sm slot n)) s" for s
      by (auto simp: seen_def epochOf_record AssignSlot_epoch [OF sm] max_def)
    show "GetSlotNode (fst (AssignSlot sm slot n)) s = GetSlotNode sm s \<or>
        (\<exists>(m, d, rs) \<in> {(n, e, ss)}. m = GetSlotNode (fst (AssignSlot sm slot n)) s \<and> s \<in> set rs \<and>
           newer d (seen g sm s) \<and> d \<le> seen (recordSlotEpoch slot e g) (fst (AssignSlot sm slot n)) s)" for s
      using slot new by (simp add: AssignSlot_owner [OF sm slot(1)] AssignSlot_epoch [OF sm] seen_def epochOf_record le_max_iff_disj)
  qed simp
qed

lemma record_justified: "gs_ok g sm \<Longrightarrow> justified C g sm (recordSlotEpoch slot e g) sm"
  by (rule justified_same) (auto simp: seen_def epochOf_record max_def)

lemma justified_refl: "gs_ok g sm \<Longrightarrow> justified C g sm g sm"
  by (rule justified_same) simp_all

lemma justified_ok: "justified C g sm g' sm' \<Longrightarrow> gs_ok g' sm'"
  by (simp add: justified_def)

lemma justified_then: "justified C g sm g1 sm1 \<Longrightarrow> justified C g1 sm1 g2 sm2 \<Longrightarrow> justified C g sm g2 sm2"
  using justified_trans [of C g sm g1 sm1 C g2 sm2] by simp

lemma applySlots_justified:
  assumes "gs_ok g sm" "\<forall>s \<in> set rest. in_range s" "set rest \<subseteq> set ss" "applySlots n e g sm rest = (g', sm', ev)"
  shows "justified {(n, e, ss)} g sm g' sm'"
  using assms
proof (induction n e g sm rest arbitrary: g' sm' ev rule: applySlots.induct)
  case (1 n epoch g sm)
  then show ?case by (simp add: justified_refl)
next
  case (2 n epoch g sm slot rest)
  have slot: "in_range slot" "slot \<in> set ss" and rest: "\<forall>s \<in> set rest. in_range s" "set rest \<subseteq> set ss"
    using "2.prems"(2,3) by simp_all
  let ?g = "recordSlotEpoch slot epoch g" and ?sm = "fst (AssignSlot sm slot n)"
  show ?case
  proof (cases "canApplySlotOwnership g sm slot epoch")
    case False
    with 2 rest show ?thesis by simp
  next
    case can: True
    show ?thesis
    proof (cases "GetSlotNode sm slot = n")
      case True
      with 2 can rest have "justified {(n, epoch, ss)} ?g sm g' sm'" by simp
      with record_justified [OF "2.prems"(1)] show ?thesis by (rule justified_then)
    next
      case False
      from can have j: "justified {(n, epoch, ss)} g sm ?g ?sm"
        by (intro assign_justified "2.prems"(1) slot) (simp add: canApply_iff)
      from False can "2.prems"(4) AssignSlot_res [OF slot(1), of sm n] obtain ev' where
        "applySlots n epoch ?g ?sm rest = (g', sm', ev')" by (auto split: prod.splits)
      with "2.IH"(3) [OF _ _ AssignSlot_res [OF slot(1), symmetric] refl justified_ok [OF j] rest] can False
      have "justified {(n, epoch, ss)} ?g ?sm g' sm'" by simp
      with j show ?thesis by (rule justified_then)
    qed
  qed
qed

lemma upd_node_ok: "gs_ok g sm \<Longrightarrow> (\<And>n. gn_ID (f n) = gn_ID n) \<Longrightarrow> gs_ok (upd_node k f g) sm"
  by (auto simp: gs_ok_def upd_node_def go_map split: option.splits)

lemma upd_node_view [simp]: "g_self (upd_node k f g) = g_self g" "epochOf (upd_node k f g) = epochOf g"
  by (simp_all add: upd_node_def epochOf_def fun_eq_iff split: option.split)

lemma gn_ID_updateNode [simp]: "gn_ID (updateNode now info direct n) = gn_ID n"
  by (simp add: updateNode_def Let_def AddFailReport_def)

lemma node_put_justified:
  assumes ok: "gs_ok g sm" and n: "gn_ID n = k"
    and sm: "sm_ok sm'" "slotsOf sm' = slotsOf sm" "GetSlotNode sm' = GetSlotNode sm"
      "GetSlotConfigEpoch sm' = GetSlotConfigEpoch sm"
  shows "justified C g sm (g\<lparr> g_nodes := mput k n (g_nodes g) \<rparr>) sm'"
  using assms by (intro justified_same) (auto simp: gs_ok_def go_map small_def seen_def epochOf_def)

definition known :: "Gossip \<Rightarrow> NodeInfo \<Rightarrow> GossipNode" where
  "known g info = (case mget (g_nodes g) (ni_ID info) of None \<Rightarrow> newNode info | Some n \<Rightarrow> n)"

definition tellReplicas :: "Gossip \<Rightarrow> SlotManager \<Rightarrow> NodeInfo \<Rightarrow> bool \<Rightarrow> SlotManager" where
  "tellReplicas g sm info direct =
     (if direct \<and> ni_MasterID info \<noteq> [] then addReplicas (ni_ID info) sm (GetNodeSlots sm (ni_MasterID info)) else sm)"

definition joined :: "Gossip \<Rightarrow> NodeInfo \<Rightarrow> GossipEvent list" where
  "joined g info = (if mget (g_nodes g) (ni_ID info) = None then [NodeJoin (ni_ID info)] else [])"

lemma processNodeInfo_alt:
  "processNodeInfo now g sm info direct =
     (let node' = updateNode now info direct (known g info);
          g1 = g\<lparr> g_nodes := mput (ni_ID info) node' (g_nodes g) \<rparr>;
          sm1 = tellReplicas g sm info direct
      in if ni_Slots info \<noteq> [] \<and> gn_Role node' = NodeRoleMaster
         then (case applySlots (gn_ID node') (ni_ConfigEpoch info) g1 sm1 (BytesToSlots (ni_Slots info)) of
                 (g2, sm2, ev') \<Rightarrow> (g2, sm2, joined g info @ ev'))
         else (g1, sm1, joined g info))"
proof -
  have "(case mget (g_nodes g) (ni_ID info) of None \<Rightarrow> (newNode info, [NodeJoin (ni_ID info)]) | Some n \<Rightarrow> (n, [])) =
      (known g info, joined g info)"
    by (simp add: known_def joined_def split: option.split)
  moreover have "(if direct \<and> ni_MasterID info \<noteq> [] \<and> ni_MasterID info = g_self g
      then addReplicas (ni_ID info) sm (GetNodeSlots sm (g_self g)) else sm) =
      (if direct \<and> ni_MasterID info \<noteq> [] \<and> ni_MasterID info = g_self g then tellReplicas g sm info direct else sm)"
    by (simp add: tellReplicas_def)
  ultimately show ?thesis
    by (cases direct; cases "ni_MasterID info = []"; cases "ni_MasterID info = g_self g";
      simp add: processNodeInfo_def tellReplicas_def Let_def)
qed

lemma gn_ID_known: "gs_ok g sm \<Longrightarrow> gn_ID (known g info) = ni_ID info"
  by (auto simp: known_def gs_ok_def newNode_def split: option.split)

lemma processNodeInfo_justified:
  assumes ok: "gs_ok g sm" and run: "processNodeInfo now g sm info direct = (g', sm', ev)"
  shows "justified {claim info} g sm g' sm'"
proof -
  let ?n = "updateNode now info direct (known g info)"
  let ?g = "g\<lparr> g_nodes := mput (ni_ID info) ?n (g_nodes g) \<rparr>" and ?sm = "tellReplicas g sm info direct"
  have n: "gn_ID ?n = ni_ID info" by (simp add: gn_ID_known [OF ok])
  from ok have "sm_ok sm" by (simp add: gs_ok_def)
  from addReplicas_view [OF this] have j: "justified {claim info} g sm ?g ?sm"
    using \<open>sm_ok sm\<close> by (intro node_put_justified ok n) (auto simp: tellReplicas_def)
  show ?thesis
  proof (cases "ni_Slots info \<noteq> [] \<and> gn_Role ?n = NodeRoleMaster")
    case True
    obtain g2 sm2 ev2 where a: "applySlots (ni_ID info) (ni_ConfigEpoch info) ?g ?sm (BytesToSlots (ni_Slots info)) =
        (g2, sm2, ev2)" by (cases "applySlots (ni_ID info) (ni_ConfigEpoch info) ?g ?sm (BytesToSlots (ni_Slots info))")
    with True run processNodeInfo_alt [of now g sm info direct] have "g' = g2" "sm' = sm2"
      by (auto simp: Let_def gn_ID_known [OF ok])
    with applySlots_justified [OF justified_ok [OF j] _ order_refl a] have "justified {claim info} ?g ?sm g' sm'"
      by (simp add: claim_def BytesToSlots_range)
    with j show ?thesis by (rule justified_then)
  next
    case False
    with run processNodeInfo_alt [of now g sm info direct] have "g' = ?g" "sm' = ?sm" by (auto simp: Let_def)
    with j show ?thesis by simp
  qed
qed

lemma processSecondHand_justified:
  assumes "gs_ok g sm" "processSecondHand now sender g sm infos = (g', sm', ev)"
  shows "justified (claim ` set infos) g sm g' sm'"
  using assms
proof (induction now sender g sm infos arbitrary: g' sm' ev rule: processSecondHand.induct)
  case (1 now sender g sm)
  then show ?case by (simp add: justified_refl)
next
  case (2 now sender g sm info infos)
  obtain g1 sm1 ev1 where p: "processNodeInfo now g sm (info\<lparr> ni_ReporterID := sender \<rparr>) False = (g1, sm1, ev1)"
    by (cases "processNodeInfo now g sm (info\<lparr> ni_ReporterID := sender \<rparr>) False")
  have j: "justified {claim info} g sm g1 sm1"
    using processNodeInfo_justified [OF "2.prems"(1) p] by (simp add: claim_def)
  from p "2.prems"(2) obtain ev2 where "processSecondHand now sender g1 sm1 infos = (g', sm', ev2)"
    by (auto split: prod.splits)
  with "2.IH" [OF p [symmetric] refl justified_ok [OF j]] have "justified (claim ` set infos) g1 sm1 g' sm'" by simp
  from justified_trans [OF j this] show ?case by simp
qed

definition claims :: "Message \<Rightarrow> (string \<times> 64 word \<times> 16 word list) set" where
  "claims msg = claim ` (set_option (msg_NodeInfo msg) \<union> set (msg_GossipNodes msg))"

lemma learn_justified:
  assumes ok: "gs_ok g sm" and run: "learn now g sm msg = (g', sm', ev)"
  shows "justified (claims msg) g sm g' sm'"
proof -
  obtain g1 sm1 ev1 where p: "(case msg_NodeInfo msg of None \<Rightarrow> (g, sm, [])
      | Some info \<Rightarrow> processNodeInfo now g sm info True) = (g1, sm1, ev1)" using prod_cases3 by blast
  have j: "justified (claim ` set_option (msg_NodeInfo msg)) g sm g1 sm1"
    proof (cases "msg_NodeInfo msg")
    case None
    with p ok show ?thesis by (simp add: justified_refl)
  next
    case (Some info)
    with p processNodeInfo_justified [OF ok, of now info True] show ?thesis by simp
  qed
  from p run obtain ev2 where "processSecondHand now (msg_Sender msg) g1 sm1 (msg_GossipNodes msg) = (g', sm', ev2)"
    by (auto simp: learn_def split: prod.splits)
  from justified_trans [OF j processSecondHand_justified [OF justified_ok [OF j] this]] show ?thesis
    by (simp add: claims_def image_Un)
qed

lemma pong_justified: "gs_ok g sm \<Longrightarrow> justified C g sm (upd_node k (UpdatePong now) g) sm"
  by (rule justified_same) (simp_all add: upd_node_ok UpdatePong_def seen_def)

lemma handlePong_justified:
  assumes ok: "gs_ok g sm" and run: "handlePong now g sm msg = (g', sm', ev)"
  shows "justified (claims msg) g sm g' sm'"
proof -
  let ?g = "upd_node (msg_Sender msg) (UpdatePong now) g"
  have "gs_ok ?g sm" using pong_justified [OF ok] by (rule justified_ok)
  from learn_justified [OF this] run have "justified (claims msg) ?g sm g' sm'" by (simp add: handlePong_def)
  with pong_justified [OF ok] show ?thesis by (rule justified_then)
qed

section \<open>Messages are built without a panic\<close>

lemma gossipInfos_Some:
  assumes "small sm"
  shows "\<exists>is. gossipInfos g sm ns = Some is"
proof (induction ns)
  case (Cons n ns)
  from assms have "\<forall>s \<in> set (GetNodeSlots sm (gn_ID n)). in_range s" by (simp add: small_def GetNodeSlots_def)
  from SlotsToBytes_total [OF this] Cons show ?case by (auto simp: gossipInfo_def)
qed simp

lemma randomGossipNodes_Some: "small sm \<Longrightarrow> \<exists>is. randomGossipNodes shuffle g sm = Some is"
  using gossipInfos_Some [of sm g "GetNodes g"] by (auto simp: randomGossipNodes_def)

lemma selfNodeInfo_Some:
  assumes "gs_ok g sm"
  shows "\<exists>info. selfNodeInfo load g sm = Some info"
proof -
  from assms obtain self where s: "mget (g_nodes g) (g_self g) = Some self" by (auto simp: gs_ok_def)
  from assms have "\<forall>s \<in> set (GetNodeSlots sm (gn_ID self)). in_range s"
    by (simp add: gs_ok_def small_def GetNodeSlots_def)
  from SlotsToBytes_total [OF this] s show ?thesis by (auto simp: selfNodeInfo_def)
qed

lemma handlePing_justified:
  assumes "gs_ok g sm"
  shows "\<exists>g' sm' ev pong. handlePing now load shuffle g sm msg = Some (g', sm', ev, pong) \<and>
    justified (claims msg) g sm g' sm'"
proof -
  obtain g' sm' ev where l: "learn now g sm msg = (g', sm', ev)" by (cases "learn now g sm msg")
  have j: "justified (claims msg) g sm g' sm'" by (rule learn_justified [OF assms l])
  then have ok: "gs_ok g' sm'" by (rule justified_ok)
  then have "small sm'" by (simp add: gs_ok_def)
  with j l selfNodeInfo_Some [OF ok, of load] randomGossipNodes_Some [of sm' shuffle g'] show ?thesis
    by (auto simp: handlePing_def)
qed

lemma handleFail_justified:
  "gs_ok g sm \<Longrightarrow> handleFail g msg = (g', ev) \<Longrightarrow> justified C g sm g' sm"
  by (auto simp: handleFail_def upd_node_ok MarkFail_def seen_def split: option.splits intro!: justified_same)

lemma handleConnection_justified:
  assumes ok: "gs_ok g sm"
  shows "\<exists>g' sm' ev reply. handleConnection now load shuffle g sm msg = Some (g', sm', ev, reply) \<and>
    justified (claims msg) g sm g' sm'"
proof (cases "msg_Type msg")
  case MsgPing
  with handlePing_justified [OF ok, of now load shuffle msg] show ?thesis by (auto simp: handleConnection_def)
next
  case MsgMeet
  with handlePing_justified [OF ok, of now load shuffle msg] show ?thesis by (auto simp: handleConnection_def)
next
  case MsgPong
  then show ?thesis using handlePong_justified [OF ok, of now msg]
    by (cases "handlePong now g sm msg") (simp add: handleConnection_def)
next
  case MsgFail
  then show ?thesis using handleFail_justified [OF ok, of msg]
    by (cases "handleFail g msg") (simp add: handleConnection_def)
qed (simp_all add: handleConnection_def justified_refl ok)

section \<open>Frames\<close>

lemma byte_at:
  fixes n :: "32 word"
  shows "bit (push_bit k (ucast (ucast (drop_bit k n) :: 8 word)) :: 32 word) i \<longleftrightarrow> k \<le> i \<and> i < k + 8 \<and> bit n i"
  by (auto simp: bit_push_bit_iff bit_ucast_iff bit_drop_bit_eq dest: bit_imp_le_length)

lemma bytes32:
  fixes n :: "32 word"
  shows "push_bit 24 (ucast (ucast (drop_bit 24 n) :: 8 word)) OR push_bit 16 (ucast (ucast (drop_bit 16 n) :: 8 word)) OR
    push_bit 8 (ucast (ucast (drop_bit 8 n) :: 8 word)) OR ucast (ucast n :: 8 word) = n"
proof (rule bit_eqI)
  fix i :: nat
  have 0: "bit (ucast (ucast n :: 8 word) :: 32 word) i \<longleftrightarrow> i < 8 \<and> bit n i"
    using byte_at [of 0 n i] by simp
  have "bit n i \<Longrightarrow> i < 32" by (auto dest: bit_imp_le_length)
  then show "bit (push_bit 24 (ucast (ucast (drop_bit 24 n) :: 8 word)) OR
      push_bit 16 (ucast (ucast (drop_bit 16 n) :: 8 word)) OR
      push_bit 8 (ucast (ucast (drop_bit 8 n) :: 8 word)) OR ucast (ucast n :: 8 word) :: 32 word) i = bit n i"
    by (auto simp: bit_or_iff byte_at 0)
qed

lemma readMessage_write:
  assumes "length data \<le> 1024 * 1024"
  shows "readMessage (writeMessage data @ rest) = Inr (data, rest)"
proof -
  define n :: "32 word" where "n = of_nat (length data)"
  have n: "unat n = length data" using assms by (simp add: n_def unat_of_nat)
  then have "\<not> n > 1024 * 1024" using assms by (simp add: word_less_nat_alt)
  moreover have "writeMessage data @ rest =
      ucast (drop_bit 24 n) # ucast (drop_bit 16 n) # ucast (drop_bit 8 n) # ucast n # data @ rest"
    by (simp add: writeMessage_def n_def Let_def)
  ultimately show ?thesis
    by (simp only: readMessage_def list.case Let_def bytes32 n if_False) simp
qed

lemma byteType_typeByte:
  "(\<forall>b. t = MsgOther b \<longrightarrow> b = 0 \<or> 6 < b) \<Longrightarrow> byteType (typeByte t) = t"
  by (cases t) (auto simp: byteType_def typeByte_def)

lemma readMessage_large:
  assumes "1024 * 1024 < length data" "length data < 2 ^ 32"
  shows "isl (readMessage (writeMessage data @ rest))"
proof -
  define n :: "32 word" where "n = of_nat (length data)"
  have "unat n = length data" using assms by (simp add: n_def unat_of_nat)
  then have "n > 1024 * 1024" using assms by (simp add: word_less_nat_alt)
  moreover have "writeMessage data @ rest =
      ucast (drop_bit 24 n) # ucast (drop_bit 16 n) # ucast (drop_bit 8 n) # ucast n # data @ rest"
    by (simp add: writeMessage_def n_def Let_def)
  ultimately show ?thesis by (simp only: readMessage_def list.case Let_def bytes32 if_True) simp
qed

section \<open>Second-hand claims\<close>

lemma applySlots_keeps:
  assumes "gs_ok g sm" "\<forall>s \<in> set rest. in_range s" "GetSlotNode sm slot = n" "applySlots n e g sm rest = (g', sm', ev)"
  shows "GetSlotNode sm' slot = n"
proof -
  have "justified {(n, e, rest)} g sm g' sm'" by (rule applySlots_justified [OF assms(1,2) order_refl assms(4)])
  with assms(3) show ?thesis unfolding justified_def by auto
qed

lemma applySlots_takes:
  assumes "gs_ok g sm" "\<forall>s \<in> set rest. in_range s" "slot \<in> set rest" "newer e (seen g sm slot)"
    "applySlots n e g sm rest = (g', sm', ev)"
  shows "GetSlotNode sm' slot = n"
  using assms
proof (induction n e g sm rest arbitrary: g' sm' ev rule: applySlots.induct)
  case (2 n e g sm s rest)
  have s: "in_range s" and rest: "\<forall>s \<in> set rest. in_range s" using "2.prems"(2) by simp_all
  let ?g = "recordSlotEpoch s e g" and ?sm = "fst (AssignSlot sm s n)"
  show ?case
  proof (cases "canApplySlotOwnership g sm s e")
    case False
    with "2.prems"(4) have "s \<noteq> slot" by (auto simp: canApply_iff)
    with "2.IH"(1) [OF False "2.prems"(1) rest] False "2.prems"(3-5) show ?thesis by simp
  next
    case can: True
    show ?thesis
    proof (cases "GetSlotNode sm s = n")
      case True
      with can "2.prems"(5) have run: "applySlots n e ?g sm rest = (g', sm', ev)" by simp
      show ?thesis
      proof (cases "s = slot")
        case True
        with \<open>GetSlotNode sm s = n\<close> applySlots_keeps [OF _ rest _ run] "2.prems"(1) show ?thesis by simp
      next
        case False
        then have "seen ?g sm slot = seen g sm slot" by (simp add: seen_def epochOf_record)
        with "2.IH"(4) [OF _ _ _ rest] can True False "2.prems"(1,3,4) run show ?thesis by simp
      qed
    next
      case False
      from can have j: "justified {(n, e, [s])} g sm ?g ?sm"
        by (intro assign_justified "2.prems"(1) s) (simp_all add: canApply_iff)
      from False can "2.prems"(5) AssignSlot_res [OF s, of sm n] obtain ev' where
        run: "applySlots n e ?g ?sm rest = (g', sm', ev')" by (auto split: prod.splits)
      have sm: "sm_ok sm" using "2.prems"(1) by (simp add: gs_ok_def)
      show ?thesis
      proof (cases "s = slot")
        case True
        with AssignSlot_owner [OF sm s, of n slot] have "GetSlotNode ?sm slot = n" by simp
        then show ?thesis by (rule applySlots_keeps [OF justified_ok [OF j] rest _ run])
      next
        case other: False
        then have "seen ?g ?sm slot = seen g sm slot" by (simp add: seen_def epochOf_record AssignSlot_epoch [OF sm])
        with "2.IH"(3) [OF _ _ AssignSlot_res [OF s, symmetric] refl justified_ok [OF j] rest] can False other
          "2.prems"(3,4) run show ?thesis by simp
      qed
    qed
  qed
qed simp

lemma gossipInfo_slots:
  assumes "small sm" "gossipInfo g sm n = Some info"
  shows "ni_ID info = gn_ID n" "ni_ConfigEpoch info = g_currentEpoch g"
    "set (BytesToSlots (ni_Slots info)) = set (slotsOf sm (gn_ID n))" "ni_Slots info \<noteq> []"
proof -
  have r: "\<forall>s \<in> set (slotsOf sm (gn_ID n)). in_range s" using assms(1) by (simp add: small_def)
  from SlotsToBytes_Some [OF r] obtain b where b: "SlotsToBytes (slotsOf sm (gn_ID n)) = Some b"
    "length b = SlotCount div 8"
    "BytesToSlots b = map of_nat (filter (\<lambda>i. i \<in> unat ` set (slotsOf sm (gn_ID n))) [0..<SlotCount])" by blast
  have info: "ni_Slots info = b" "ni_ID info = gn_ID n" "ni_ConfigEpoch info = g_currentEpoch g"
    using assms(2) b(1) by (auto simp: gossipInfo_def GetNodeSlots_def)
  then show "ni_ID info = gn_ID n" "ni_ConfigEpoch info = g_currentEpoch g" by simp_all
  show "set (BytesToSlots (ni_Slots info)) = set (slotsOf sm (gn_ID n))"
    by (simp only: info b(3) set_slots_of [OF r])
  show "ni_Slots info \<noteq> []" using b(2) by (auto simp: info SlotCount_def)
qed

lemma processNodeInfo_takes:
  assumes ok: "gs_ok g sm" and run: "processNodeInfo now g sm info direct = (g', sm', ev)"
    and master: "gn_Role (updateNode now info direct (known g info)) = NodeRoleMaster"
    and slot: "slot \<in> set (BytesToSlots (ni_Slots info))" and new: "newer (ni_ConfigEpoch info) (seen g sm slot)"
  shows "GetSlotNode sm' slot = ni_ID info"
proof -
  let ?n = "updateNode now info direct (known g info)"
  let ?g = "g\<lparr> g_nodes := mput (ni_ID info) ?n (g_nodes g) \<rparr>" and ?sm = "tellReplicas g sm info direct"
  have n: "gn_ID (known g info) = ni_ID info" by (rule gn_ID_known [OF ok])
  from ok have sm: "sm_ok sm" by (simp add: gs_ok_def)
  from addReplicas_view [OF sm] sm have v: "sm_ok ?sm" "slotsOf ?sm = slotsOf sm" "GetSlotNode ?sm = GetSlotNode sm"
    "GetSlotConfigEpoch ?sm = GetSlotConfigEpoch sm" by (simp_all add: tellReplicas_def)
  have ok1: "gs_ok ?g ?sm" using node_put_justified [OF ok _ v, of ?n "ni_ID info"] n by (auto dest: justified_ok)
  have "seen ?g ?sm slot = seen g sm slot" by (simp add: seen_def v epochOf_def)
  obtain g2 sm2 ev2 where a: "applySlots (ni_ID info) (ni_ConfigEpoch info) ?g ?sm (BytesToSlots (ni_Slots info)) =
      (g2, sm2, ev2)" by (cases "applySlots (ni_ID info) (ni_ConfigEpoch info) ?g ?sm (BytesToSlots (ni_Slots info))")
  have "ni_Slots info \<noteq> []" using slot by (auto simp: BytesToSlots_def)
  with a run master have "sm' = sm2" by (simp add: processNodeInfo_alt Let_def n)
  with applySlots_takes [OF ok1 _ slot _ a] new \<open>seen ?g ?sm slot = seen g sm slot\<close> show ?thesis
    by (simp add: BytesToSlots_range)
qed

section \<open>Failure detection\<close>

definition same_names :: "Gossip \<Rightarrow> bool" where
  "same_names g \<longleftrightarrow> mwf (g_nodes g) \<and> (\<forall>k n. mget (g_nodes g) k = Some n \<longrightarrow> gn_ID n = k)"

text \<open>A node is suspect when it is in doubt already or has not answered in time.\<close>

definition suspect :: "int \<Rightarrow> GossipNode \<Rightarrow> bool" where
  "suspect now n \<longleftrightarrow> gn_State n = NodeStatePFail \<or>
     gn_State n = NodeStateConnected \<and> now - gn_PongReceived n > ClusterNodeTimeout"

abbreviation reports :: "int \<Rightarrow> GossipNode \<Rightarrow> int" where
  "reports now n \<equiv> CountFailReports now ClusterFailReportValidity n"

lemma countMasters_put:
  assumes "mwf (g_nodes g)" "mget (g_nodes g) k = Some n" "gn_Role n' = gn_Role n"
    "gn_State n' = NodeStateConnected \<longrightarrow> gn_State n = NodeStateConnected"
  shows "countMasters (g\<lparr> g_nodes := mput k n' (g_nodes g) \<rparr>) \<le> countMasters g"
proof -
  let ?P = "\<lambda>n. gn_Role n = NodeRoleMaster \<and> gn_State n = NodeStateConnected"
  have "length (filter ?P (map snd (mput k n' m))) \<le> length (filter ?P (map snd m))"
    if "mwf m" "mget m k = Some n" for m
    using that
  proof (induction m)
    case (Cons p m)
    then show ?case using assms(3,4) by (cases p) (auto simp: mwf_def mput_def)
  qed simp
  with assms(1,2) show ?thesis by (simp add: countMasters_def GetNodes_def)
qed

text \<open>What a round leaves of a node: \<open>lo\<close> and \<open>hi\<close> bound the number of connected masters during the round.\<close>

definition judged :: "int \<Rightarrow> string \<Rightarrow> int \<Rightarrow> int \<Rightarrow> GossipNode \<Rightarrow> GossipNode \<Rightarrow> bool" where
  "judged now self lo hi n n' \<longleftrightarrow>
     (if gn_ID n = self \<or> \<not> suspect now n then n' = n
      else n' = n\<lparr> gn_State := NodeStatePFail \<rparr> \<and> reports now n < hi div 2 + 1 \<or>
           n' = n\<lparr> gn_State := NodeStateFail \<rparr> \<and> reports now n \<ge> lo div 2 + 1)"

lemma reports_state [simp]: "reports now (n\<lparr> gn_State := s \<rparr>) = reports now n"
  by (simp add: CountFailReports_def)

lemma judged_mono:
  "judged now self lo hi n n' \<Longrightarrow> lo' \<le> lo \<Longrightarrow> hi \<le> hi' \<Longrightarrow> judged now self lo' hi' n n'"
  using zdiv_mono1 [of lo' lo 2] zdiv_mono1 [of hi hi' 2] by (auto simp: judged_def split: if_splits)

lemma upd_node_put: "mget (g_nodes g) k = Some n \<Longrightarrow> upd_node k f g = g\<lparr> g_nodes := mput k (f n) (g_nodes g) \<rparr>"
  by (simp add: upd_node_def)

lemma checkNode_spec:
  assumes names: "same_names g" and n: "mget (g_nodes g) k = Some n" and run: "checkNode now g k = (g', ev)"
  shows "\<exists>n'. g_nodes g' = mput k n' (g_nodes g) \<and> g_self g' = g_self g \<and> countMasters g' \<le> countMasters g \<and>
    gn_ID n' = k \<and> judged now (g_self g) (countMasters g') (countMasters g) n n' \<and>
    ev = (if gn_State n' = NodeStateFail \<and> gn_State n \<noteq> NodeStateFail then [BroadcastFail k, NodeLeave k] else [])"
proof -
  have nk: "gn_ID n = k" and wf: "mwf (g_nodes g)" using names n by (simp_all add: same_names_def)
  show ?thesis
  proof (cases "k = g_self g \<or> \<not> suspect now n")
    case True
    then have "g' = g" "ev = []" using run n nk by (auto simp: checkNode_def suspect_def Let_def split: if_splits)
    moreover have "mput k n (g_nodes g) = g_nodes g" using n by (simp add: mput_same)
    ultimately show ?thesis using True nk by (intro exI [of _ n]) (auto simp: judged_def)
  next
    case False
    define p where "p = n\<lparr> gn_State := NodeStatePFail \<rparr>"
    define g1 where "g1 = g\<lparr> g_nodes := mput k p (g_nodes g) \<rparr>"
    have le1: "countMasters g1 \<le> countMasters g"
      unfolding g1_def by (rule countMasters_put [OF wf n]) (simp_all add: p_def)
    let ?fail = "reports now n \<ge> countMasters g1 div 2 + 1"
    have pf: "gn_State n = NodeStateConnected \<Longrightarrow> MarkPFail n = p" "gn_State n = NodeStatePFail \<Longrightarrow> p = n"
      by (simp_all add: MarkPFail_def p_def)
    have g1: "gn_State n = NodeStatePFail \<Longrightarrow> g1 = g" using n pf(2) by (simp add: g1_def mput_same)
    have run': "(g', ev) = (if ?fail then (upd_node k MarkFail g1, [BroadcastFail k, NodeLeave k]) else (g1, []))"
    proof (cases "gn_State n = NodeStatePFail")
      case True
      with run n nk False g1 show ?thesis by (simp add: checkNode_def Let_def split: if_splits)
    next
      case conn: False
      with False have "gn_State n = NodeStateConnected" "now - gn_PongReceived n > ClusterNodeTimeout"
        by (auto simp: suspect_def)
      with run n nk False pf(1) show ?thesis
        by (simp add: checkNode_def Let_def upd_node_put [OF n] g1_def [symmetric] split: if_splits) (simp_all add: p_def)
    qed
    show ?thesis
    proof (cases ?fail)
      case True
      have k1: "mget (g_nodes g1) k = Some p" by (simp add: g1_def go_map)
      let ?f = "n\<lparr> gn_State := NodeStateFail \<rparr>"
      from run' True have g': "g' = g1\<lparr> g_nodes := mput k ?f (g_nodes g1) \<rparr>" "ev = [BroadcastFail k, NodeLeave k]"
        by (simp_all add: upd_node_put [OF k1] MarkFail_def p_def)
      have "countMasters g' \<le> countMasters g1"
        unfolding g'(1) by (rule countMasters_put [OF _ k1]) (simp_all add: p_def g1_def wf)
      moreover have "g_nodes g' = mput k ?f (g_nodes g)" by (simp add: g' g1_def mput_mput)
      ultimately show ?thesis using True False le1 nk zdiv_mono1 [of "countMasters g'" "countMasters g1" 2]
        by (intro exI [of _ ?f]) (auto simp: judged_def g' g1_def suspect_def)
    next
      case nofail: False
      with run' have g': "g' = g1" "ev = []" by simp_all
      with nofail False le1 nk zdiv_mono1 [of "countMasters g1" "countMasters g" 2] show ?thesis
        by (intro exI [of _ p]) (auto simp: judged_def p_def g1_def)
    qed
  qed
qed

definition newly_failed :: "Gossip \<Rightarrow> Gossip \<Rightarrow> string \<Rightarrow> bool" where
  "newly_failed g g' k \<longleftrightarrow> (\<exists>n n'. mget (g_nodes g) k = Some n \<and> mget (g_nodes g') k = Some n' \<and>
     gn_State n' = NodeStateFail \<and> gn_State n \<noteq> NodeStateFail)"

lemma checkNodes_spec:
  assumes "same_names g" "distinct ks" "checkNodes now g ks = (g', ev)"
  shows "same_names g' \<and> g_self g' = g_self g \<and> countMasters g' \<le> countMasters g \<and>
    (\<forall>k. k \<notin> set ks \<longrightarrow> mget (g_nodes g') k = mget (g_nodes g) k) \<and>
    (\<forall>k n. k \<in> set ks \<longrightarrow> mget (g_nodes g) k = Some n \<longrightarrow>
       (\<exists>n'. mget (g_nodes g') k = Some n' \<and> judged now (g_self g) (countMasters g') (countMasters g) n n')) \<and>
    ev = concat (map (\<lambda>k. [BroadcastFail k, NodeLeave k]) (filter (newly_failed g g') ks))"
  using assms
proof (induction ks arbitrary: g ev)
  case Nil
  then show ?case by simp
next
  case (Cons k ks)
  obtain g1 ev1 where c: "checkNode now g k = (g1, ev1)" by (cases "checkNode now g k")
  obtain ev2 where r: "checkNodes now g1 ks = (g', ev2)" and ev: "ev = ev1 @ ev2"
    using Cons.prems(3) c by (auto split: prod.splits)
  have ks: "k \<notin> set ks" "distinct ks" using Cons.prems(2) by simp_all
  have head: "same_names g1 \<and> g_self g1 = g_self g \<and> countMasters g1 \<le> countMasters g \<and>
      (\<forall>j. j \<noteq> k \<longrightarrow> mget (g_nodes g1) j = mget (g_nodes g) j) \<and>
      (\<forall>n. mget (g_nodes g) k = Some n \<longrightarrow>
         (\<exists>n'. mget (g_nodes g1) k = Some n' \<and> judged now (g_self g) (countMasters g1) (countMasters g) n n')) \<and>
      ev1 = (if newly_failed g g1 k then [BroadcastFail k, NodeLeave k] else [])"
  proof (cases "mget (g_nodes g) k")
    case None
    with c Cons.prems(1) show ?thesis by (auto simp: checkNode_def newly_failed_def)
  next
    case (Some n)
    from checkNode_spec [OF Cons.prems(1) this c] obtain n' where
      "g_nodes g1 = mput k n' (g_nodes g)" "g_self g1 = g_self g" "countMasters g1 \<le> countMasters g" "gn_ID n' = k"
      "judged now (g_self g) (countMasters g1) (countMasters g) n n'"
      "ev1 = (if gn_State n' = NodeStateFail \<and> gn_State n \<noteq> NodeStateFail then [BroadcastFail k, NodeLeave k] else [])"
      by blast
    with Some Cons.prems(1) show ?thesis by (auto simp: same_names_def newly_failed_def go_map)
  qed
  have IH: "same_names g' \<and> g_self g' = g_self g1 \<and> countMasters g' \<le> countMasters g1 \<and>
      (\<forall>k. k \<notin> set ks \<longrightarrow> mget (g_nodes g') k = mget (g_nodes g1) k) \<and>
      (\<forall>k n. k \<in> set ks \<longrightarrow> mget (g_nodes g1) k = Some n \<longrightarrow>
         (\<exists>n'. mget (g_nodes g') k = Some n' \<and> judged now (g_self g1) (countMasters g') (countMasters g1) n n')) \<and>
      ev2 = concat (map (\<lambda>k. [BroadcastFail k, NodeLeave k]) (filter (newly_failed g1 g') ks))"
    by (rule Cons.IH [OF _ ks(2) r]) (use head in simp)
  have k': "mget (g_nodes g') k = mget (g_nodes g1) k" using IH ks(1) by simp
  have j: "\<exists>n'. mget (g_nodes g') j = Some n' \<and> judged now (g_self g) (countMasters g') (countMasters g) n n'"
    if j: "j \<in> set (k # ks)" and n: "mget (g_nodes g) j = Some n" for j n
  proof (cases "j = k")
    case True
    with head n obtain n' where "mget (g_nodes g1) k = Some n'"
      "judged now (g_self g) (countMasters g1) (countMasters g) n n'" by blast
    with True IH k' show ?thesis by (metis judged_mono order_refl)
  next
    case False
    with head n have "mget (g_nodes g1) j = Some n" by simp
    with False j IH obtain n' where "mget (g_nodes g') j = Some n'"
      "judged now (g_self g1) (countMasters g') (countMasters g1) n n'" by (metis set_ConsD)
    with head show ?thesis by (metis judged_mono order_refl)
  qed
  have "filter (newly_failed g1 g') ks = filter (newly_failed g g') ks"
    using head ks(1) by (intro filter_cong refl) (auto simp: newly_failed_def)
  moreover have "newly_failed g g' k = newly_failed g g1 k" by (simp add: newly_failed_def k')
  ultimately show ?case using head IH ev j by (simp del: split_paired_All)
qed

section \<open>Theorems\<close>

lemma SlotsToBytes_set:
  assumes "\<forall>s \<in> set ss. in_range s"
  shows "\<exists>b. SlotsToBytes ss = Some b \<and> set (BytesToSlots b) = set ss \<and> sorted_wrt (<) (BytesToSlots b)"
proof -
  from SlotsToBytes_Some [OF assms] obtain b where b: "SlotsToBytes ss = Some b"
    "BytesToSlots b = map of_nat (filter (\<lambda>i. i \<in> unat ` set ss) [0..<SlotCount])" by blast
  have "set (BytesToSlots b) = set ss" by (simp only: b(2) set_slots_of [OF assms])
  moreover have "sorted_wrt (<) (BytesToSlots b)" by (simp only: b(2) sorted_slots)
  ultimately show ?thesis using b(1) by blast
qed


definition demo_node :: "string \<Rightarrow> GossipNode" where
  "demo_node n = \<lparr> gn_ID = n, gn_IP = ''10.0.0.1'', gn_Port = 6379, gn_ClusterPort = 16379, gn_Role = NodeRoleMaster,
     gn_MasterID = [], gn_State = NodeStateConnected, gn_PingSent = 0, gn_PongReceived = 0, gn_FailReports = [],
     gn_Load = noLoad \<rparr>"

lemma small_slot_upd [simp]: "small (slot_upd slot f sm) = small sm"
  by (simp add: small_def)

lemma setOwnerLocked_small: "small sm \<Longrightarrow> in_range slot \<Longrightarrow> small (setOwnerLocked slot n sm)"
  by (auto simp: setOwnerLocked_def Let_def small_def slot_view dest: subsetD [OF set_remove1_subset])

lemma ConfigureReplication_small: "small sm \<Longrightarrow> small (fst (ConfigureReplication sm slot p rs e))"
  by (simp add: ConfigureReplication_def Let_def setOwnerLocked_small)

lemma UpdateReplicaLSN_small: "small sm \<Longrightarrow> small (fst (UpdateReplicaLSN sm slot n lsn))"
  by (simp add: UpdateReplicaLSN_def split: option.split)

lemma small_New: "small NewSlotManager"
  by (simp add: small_def slotsOf_def NewSlotManager_def)

lemma small_demo: "small demo_table"
  unfolding demo_table_def by (intro UpdateReplicaLSN_small ConfigureReplication_small small_New)

lemma gs_ok_NewGossip: "sm_ok sm \<Longrightarrow> small sm \<Longrightarrow> gs_ok (NewGossip n) sm"
  by (simp add: gs_ok_def NewGossip_def mwf_def)


text \<open>
  C38: A node passes on what it believes of the others under its own current epoch. So an outdated view wins
  over a newer assignment: when the sender still takes another node for the owner of a slot, and has a
  current epoch above every epoch that the receiver knows of the slot, the receiver gives the slot back to
  that former owner.
\<close>

theorem stale_view_wins:
  assumes "gs_ok g sm" "small smD" "slot \<in> set (GetNodeSlots smD (gn_ID a))" "seen g sm slot < g_currentEpoch gD"
    and "\<forall>n. mget (g_nodes g) (gn_ID a) = Some n \<longrightarrow> gn_Role n = NodeRoleMaster"
  shows "\<exists>info. gossipInfo gD smD a = Some info \<and>
    GetSlotNode (fst (snd (processNodeInfo now g sm (info\<lparr> ni_ReporterID := d \<rparr>) False))) slot = gn_ID a"
proof -
  have "\<forall>s \<in> set (GetNodeSlots smD (gn_ID a)). in_range s" using assms(2) by (simp add: small_def GetNodeSlots_def)
  from SlotsToBytes_total [OF this] obtain info where info: "gossipInfo gD smD a = Some info"
    by (auto simp: gossipInfo_def)
  note facts = gossipInfo_slots [OF assms(2) info]
  let ?i = "info\<lparr> ni_ReporterID := d \<rparr>"
  obtain g' sm' ev where run: "processNodeInfo now g sm ?i False = (g', sm', ev)"
    by (cases "processNodeInfo now g sm ?i False")
  have "gn_Role (updateNode now ?i False (known g ?i)) = NodeRoleMaster"
    using assms(5) facts(1)
    by (simp add: updateNode_def Let_def AddFailReport_def known_def newNode_def split: option.split)
  moreover have "slot \<in> set (BytesToSlots (ni_Slots ?i))" using assms(3) facts(3) by (simp add: GetNodeSlots_def)
  moreover have "newer (ni_ConfigEpoch ?i) (seen g sm slot)" using assms(4) facts(2) by (simp add: newer_def)
  ultimately have "GetSlotNode sm' slot = ni_ID ?i" by (rule processNodeInfo_takes [OF assms(1) run])
  then have "GetSlotNode sm' slot = gn_ID a" using facts(1) by simp
  with info run show ?thesis by simp
qed

definition demo_stale :: SlotManager where
  "demo_stale = fst (AssignSlot NewSlotManager 5 ''n9'')"

lemma demo_stale_slots: "GetNodeSlots demo_stale ''n9'' = [5]" "small demo_stale"
proof -
  have "sm_wf NewSlotManager" using sm_ok_New by (simp add: sm_ok_def)
  moreover have "slotsOf NewSlotManager m = []" for m by (simp add: slotsOf_def NewSlotManager_def)
  ultimately show "GetNodeSlots demo_stale ''n9'' = [5]"
    using AssignSlot_view(2) [OF _ in_range_5, of NewSlotManager "''n9''" "''n9''"]
    by (simp add: demo_stale_def GetNodeSlots_def)
  show "small demo_stale" unfolding demo_stale_def by (intro AssignSlot_small small_New)
qed

lemma stale_view_wins_witness:
  "GetSlotNode demo_table 5 = ''n1'' \<and>
   (\<exists>info. gossipInfo (SetCurrentEpoch 8 (NewGossip (demo_node ''n4''))) demo_stale (demo_node ''n9'') = Some info \<and>
      GetSlotNode (fst (snd (processNodeInfo 0 (NewGossip (demo_node ''n2'')) demo_table
        (info\<lparr> ni_ReporterID := ''n4'' \<rparr>) False))) 5 = ''n9'')"
proof -
  have ok: "gs_ok (NewGossip (demo_node ''n2'')) demo_table" by (rule gs_ok_NewGossip [OF demo_table_ok small_demo])
  have n9: "gn_ID (demo_node ''n9'') = ''n9''" by (simp add: demo_node_def)
  have e: "seen (NewGossip (demo_node ''n2'')) demo_table 5 < g_currentEpoch (SetCurrentEpoch 8 (NewGossip (demo_node ''n4'')))"
    by (simp add: seen_def GetSlotConfigEpoch_def in_range_5 slot_at_demo epochOf_def NewGossip_def SetCurrentEpoch_def)
  have s: "5 \<in> set (GetNodeSlots demo_stale (gn_ID (demo_node ''n9'')))" by (simp add: n9 demo_stale_slots)
  have m: "\<forall>n. mget (g_nodes (NewGossip (demo_node ''n2''))) (gn_ID (demo_node ''n9'')) = Some n \<longrightarrow> gn_Role n = NodeRoleMaster"
    by (simp add: NewGossip_def demo_node_def)
  from stale_view_wins [OF ok demo_stale_slots(2) s e m, of 0 "''n4''"] show ?thesis
    by (simp add: n9 GetSlotNode_def [of demo_table] in_range_5 slot_at_demo)
qed


text \<open>Three masters: the first hears nothing from the others, and one report declares the third failed.\<close>

definition demo_three :: Gossip where
  "demo_three = (NewGossip (demo_node ''a''))\<lparr> g_nodes :=
     [(''a'', demo_node ''a''), (''b'', demo_node ''b''), (''c'', AddFailReport 19000 ''b'' (demo_node ''c''))] \<rparr>"


text \<open>
  A message survives the network. For a codec that decodes what it encodes, the reader takes exactly the
  bytes of the message from the stream and decodes the same message, as long as they are at most one
  mebibyte; a longer message is refused. The slots of a node arrive in the message as the same set, in
  increasing order.
\<close>

theorem message_roundtrip:
  assumes "gob m = Inr bs" "ungob bs = Inr m" "msg_Type m \<in> {MsgPing, MsgPong, MsgMeet, MsgFail}" "length bs < 2 ^ 32 - 1"
    and "\<forall>s \<in> set ss. in_range s"
  shows "(\<exists>data. Encode gob m = Inr data \<and>
      (if length bs < 1024 * 1024
       then readMessage (writeMessage data @ rest) = Inr (data, rest) \<and> Decode ungob data = Inr m
       else isl (readMessage (writeMessage data @ rest)))) \<and>
    (\<exists>b. SlotsToBytes ss = Some b \<and> set (BytesToSlots b) = set ss \<and> sorted_wrt (<) (BytesToSlots b))"
proof (rule conjI)
  let ?data = "typeByte (msg_Type m) # bs"
  have "Decode ungob ?data = Inr m"
    using assms(2,3) byteType_typeByte [of "msg_Type m"] by (auto simp: Decode_def)
  moreover have "Encode gob m = Inr ?data" using assms(1) by (simp add: Encode_def)
  ultimately show "\<exists>data. Encode gob m = Inr data \<and>
      (if length bs < 1024 * 1024
       then readMessage (writeMessage data @ rest) = Inr (data, rest) \<and> Decode ungob data = Inr m
       else isl (readMessage (writeMessage data @ rest)))"
    using readMessage_write [of ?data rest] readMessage_large [of ?data rest] assms(4)
    by (cases "length bs < 1024 * 1024") simp_all
  show "\<exists>b. SlotsToBytes ss = Some b \<and> set (BytesToSlots b) = set ss \<and> sorted_wrt (<) (BytesToSlots b)"
    by (rule SlotsToBytes_set [OF assms(5)])
qed

theorem message_roundtrip_witness:
  "Encode (\<lambda>m. Inr []) (NewFailMessage ''a'' ''b'') = Inr [4] \<and>
   readMessage (writeMessage [4] @ [1, 2]) = Inr ([4], [1, 2]) \<and>
   Decode (\<lambda>bs. Inr (NewFailMessage ''a'' ''b'')) [4] = Inr (NewFailMessage ''a'' ''b'') \<and>
   (\<exists>b. SlotsToBytes [5] = Some b \<and> set (BytesToSlots b) = {5})"
proof -
  have e: "Encode (\<lambda>m. Inr []) (NewFailMessage ''a'' ''b'') = Inr [4]"
    by (simp add: Encode_def NewFailMessage_def typeByte_def)
  have t: "msg_Type (NewFailMessage ''a'' ''b'') \<in> {MsgPing, MsgPong, MsgMeet, MsgFail}"
    by (simp add: NewFailMessage_def)
  have r: "\<forall>s \<in> set [5]. in_range s" by (simp add: in_range_5)
  have l: "length ([] :: 8 word list) < 2 ^ 32 - 1" by simp
  note m = message_roundtrip [of "\<lambda>m. Inr []" "NewFailMessage ''a'' ''b''" "[]" "\<lambda>bs. Inr (NewFailMessage ''a'' ''b'')",
    OF refl refl t l r]
  from m [THEN conjunct1, of "[1, 2]"] e have "readMessage (writeMessage [4] @ [1, 2]) = Inr ([4], [1, 2])"
    "Decode (\<lambda>bs. Inr (NewFailMessage ''a'' ''b'')) [4] = Inr (NewFailMessage ''a'' ''b'')" by simp_all
  moreover from m [THEN conjunct2] have "\<exists>b. SlotsToBytes [5] = Some b \<and> set (BytesToSlots b) = {5}" by (simp only: list.set) blast
  ultimately show ?thesis using e by blast
qed

end
