(* ===== verification/Cluster.thy ===== *)
theory Cluster
  imports Gossip Replication
begin

text \<open>
  The cluster facade of a node, \<^verbatim>\<open>internal/cluster/cluster.go\<close>, with the node type of \<^verbatim>\<open>node.go\<close> and the router of
  \<^verbatim>\<open>router/router.go\<close>: lookups, routing, epochs, becoming a replica, taking over from a failed master, and moving
  slots to another node.

  The slot table, the gossip and the replication manager are the ones of their theories. \<open>now\<close> is the time
  in nanoseconds. The connections to other nodes are the functions of a record \<open>Net\<close> on a state of the
  network; a message of the gossip is sent by a function argument \<open>send\<close>. The random identity of a node
  without one is an argument.
\<close>

section \<open>Nodes\<close>

record Node =
  nd_ID :: string
  nd_IP :: string
  nd_Port :: int
  nd_ClusterPort :: int
  nd_Role :: NodeRole
  nd_MasterID :: string
  nd_State :: NodeState
  nd_PingSent :: int
  nd_PongReceived :: int
  nd_FailReports :: "(string, int) gomap"
  nd_TotalQPS :: "64 word"
  nd_HotSlotCount :: "16 word"

definition nd_Addr :: "Node \<Rightarrow> string" where
  "nd_Addr n = nd_IP n @ '':'' @ FormatInt (nd_Port n)"

definition gossipNodeToNode :: "GossipNode \<Rightarrow> Node" where
  "gossipNodeToNode gn =
     \<lparr> nd_ID = gn_ID gn, nd_IP = gn_IP gn, nd_Port = gn_Port gn, nd_ClusterPort = gn_ClusterPort gn,
       nd_Role = (if gn_Role gn = NodeRoleMaster then NodeRoleMaster else NodeRoleReplica),
       nd_MasterID = gn_MasterID gn,
       nd_State = (case gn_State gn of NodeStateConnected \<Rightarrow> NodeStateConnected | NodeStatePFail \<Rightarrow> NodeStatePFail
                   | NodeStateFail \<Rightarrow> NodeStateFail | _ \<Rightarrow> NodeStateUnknown),
       nd_PingSent = gn_PingSent gn, nd_PongReceived = gn_PongReceived gn, nd_FailReports = gn_FailReports gn,
       nd_TotalQPS = TotalQPS (gn_Load gn), nd_HotSlotCount = HotSlotCount (gn_Load gn) \<rparr>"

section \<open>The cluster of a node\<close>

datatype ClusterState = ClusterStateDown | ClusterStateOK | ClusterStateFail

definition cs_String :: "ClusterState \<Rightarrow> string" where
  "cs_String s = (case s of ClusterStateDown \<Rightarrow> ''fail'' | ClusterStateOK \<Rightarrow> ''ok'' | ClusterStateFail \<Rightarrow> ''fail'')"

record Cluster =
  c_self :: Node
  c_slots :: SlotManager
  c_gossip :: Gossip
  c_state :: ClusterState
  c_replication :: ReplManager
  c_currentEpoch :: "64 word"
  c_myEpoch :: "64 word"
  c_processedFailovers :: "(string, bool) gomap"

record ClusterConfig =
  cfg_NodeID :: string
  cfg_BindAddr :: string
  cfg_Port :: int
  cfg_ClusterPort :: int

definition NewCluster :: "string \<Rightarrow> ClusterConfig \<Rightarrow> bool option \<Rightarrow> Cluster" where
  "NewCluster generated cfg stateManager =
     (let nodeID = (if cfg_NodeID cfg = [] then generated else cfg_NodeID cfg);
          self = \<lparr> nd_ID = nodeID, nd_IP = cfg_BindAddr cfg, nd_Port = cfg_Port cfg, nd_ClusterPort = cfg_ClusterPort cfg,
                   nd_Role = NodeRoleMaster, nd_MasterID = [], nd_State = NodeStateConnected, nd_PingSent = 0,
                   nd_PongReceived = 0, nd_FailReports = [], nd_TotalQPS = 0, nd_HotSlotCount = 0 \<rparr>;
          gossipNode = \<lparr> gn_ID = nodeID, gn_IP = cfg_BindAddr cfg, gn_Port = cfg_Port cfg,
                   gn_ClusterPort = cfg_ClusterPort cfg, gn_Role = NodeRoleMaster, gn_MasterID = [],
                   gn_State = NodeStateConnected, gn_PingSent = 0, gn_PongReceived = 0, gn_FailReports = [],
                   gn_Load = noLoad \<rparr>
      in \<lparr> c_self = self,
           c_slots = (case stateManager of None \<Rightarrow> NewSlotManager | Some d \<Rightarrow> sm_SetStateManager d NewSlotManager),
           c_gossip = SetCurrentEpoch 0 (NewGossip gossipNode), c_state = ClusterStateDown,
           c_replication = NewReplManager (Some (NewLogStore 1024)), c_currentEpoch = 0, c_myEpoch = 0,
           c_processedFailovers = [] \<rparr>)"

section \<open>Lookups\<close>

definition cl_GetNodes :: "Cluster \<Rightarrow> Node list" where
  "cl_GetNodes c = map gossipNodeToNode (GetNodes (c_gossip c))"

definition cl_GetNode :: "Cluster \<Rightarrow> string \<Rightarrow> Node option" where
  "cl_GetNode c nodeID = map_option gossipNodeToNode (GetNode (c_gossip c) nodeID)"

definition cl_GetSlotNode :: "Cluster \<Rightarrow> 16 word \<Rightarrow> Node option" where
  "cl_GetSlotNode c slot =
     (let nodeID = GetSlotNode (c_slots c) slot in if nodeID = [] then None else cl_GetNode c nodeID)"

definition cl_GetKeyNode :: "Cluster \<Rightarrow> string \<Rightarrow> Node option" where
  "cl_GetKeyNode c key = cl_GetSlotNode c (KeySlot key)"

definition IsSlotLocal :: "Cluster \<Rightarrow> 16 word \<Rightarrow> bool" where
  "IsSlotLocal c slot = (GetSlotNode (c_slots c) slot = nd_ID (c_self c))"

definition IsLocalKey :: "Cluster \<Rightarrow> string \<Rightarrow> bool" where
  "IsLocalKey c key = (GetSlotNode (c_slots c) (KeySlot key) = nd_ID (c_self c))"

definition getPeerAddr :: "Cluster \<Rightarrow> string \<Rightarrow> string" where
  "getPeerAddr c nodeID =
     (case filter (\<lambda>n. nd_ID n = nodeID) (cl_GetNodes c) of [] \<Rightarrow> [] | n # _ \<Rightarrow> nd_Addr n)"

record PeerLoad =
  pl_NodeID :: string
  pl_Addr :: string
  pl_TotalQPS :: "64 word"

definition GetPeerLoads :: "Cluster \<Rightarrow> PeerLoad list" where
  "GetPeerLoads c =
     map (\<lambda>n. \<lparr> pl_NodeID = nd_ID n, pl_Addr = nd_Addr n, pl_TotalQPS = nd_TotalQPS n \<rparr>)
       (filter (\<lambda>n. \<not> (nd_ID n = nd_ID (c_self c) \<or> nd_Role n \<noteq> NodeRoleMaster) \<and> nd_State n = NodeStateConnected)
         (cl_GetNodes c))"

datatype ClusterError = ErrMoved | ErrAsk | NotAssigned "16 word"

definition RouteKey :: "Cluster \<Rightarrow> string \<Rightarrow> Node option \<times> ClusterError option" where
  "RouteKey c key =
     (let slot = KeySlot key
      in case GetSlotInfo (c_slots c) slot of
           None \<Rightarrow> (None, Some (NotAssigned slot))
         | Some info \<Rightarrow>
             if NodeID info = [] then (None, Some (NotAssigned slot))
             else if NodeID info = nd_ID (c_self c) then
               (if si_State info = SlotStateExporting
                then (case cl_GetNode c (Exporting info) of Some n \<Rightarrow> (Some n, Some ErrAsk) | None \<Rightarrow> (None, None))
                else (None, None))
             else (cl_GetNode c (NodeID info), Some ErrMoved))"

fun AssignSlots :: "Cluster \<Rightarrow> 16 word list \<Rightarrow> Cluster \<times> unit res" where
  "AssignSlots c [] = (c, Inr ())"
| "AssignSlots c (slot # rest) =
     (case AssignSlot (c_slots c) slot (nd_ID (c_self c)) of
        (sm, Inl e) \<Rightarrow> (c\<lparr> c_slots := sm \<rparr>, Inl e)
      | (sm, Inr _) \<Rightarrow> AssignSlots (c\<lparr> c_slots := sm \<rparr>) rest)"

definition cl_AssignSlotRange :: "Cluster \<Rightarrow> 16 word \<Rightarrow> 16 word \<Rightarrow> Cluster \<times> unit res" where
  "cl_AssignSlotRange c start stop =
     (case AssignSlotRange (c_slots c) start stop (nd_ID (c_self c)) of (sm, r) \<Rightarrow> (c\<lparr> c_slots := sm \<rparr>, r))"

record ClusterInfo =
  ci_state :: string
  ci_slots_assigned :: int
  ci_slots_ok :: int
  ci_known_nodes :: int
  ci_size :: int
  ci_current_epoch :: "64 word"
  ci_my_epoch :: "64 word"

definition GetClusterInfo :: "Cluster \<Rightarrow> ClusterInfo" where
  "GetClusterInfo c =
     (let nodes = GetNodes (c_gossip c)
      in \<lparr> ci_state = cs_String (c_state c), ci_slots_assigned = CountAssigned (c_slots c),
           ci_slots_ok = CountAssigned (c_slots c), ci_known_nodes = int (length nodes),
           ci_size = int (length (filter (\<lambda>n. gn_Role n = NodeRoleMaster) nodes)),
           ci_current_epoch = c_currentEpoch c, ci_my_epoch = c_myEpoch c \<rparr>)"

record StateNodeInfo =
  sn_ID :: string
  sn_Addr :: string
  sn_ClusterPort :: int
  sn_Role :: string
  sn_MasterID :: string

definition GetNodeInfos :: "Cluster \<Rightarrow> StateNodeInfo list" where
  "GetNodeInfos c =
     map (\<lambda>gn. \<lparr> sn_ID = gn_ID gn, sn_Addr = gn_Addr gn, sn_ClusterPort = gn_ClusterPort gn,
                 sn_Role = (if gn_Role gn = NodeRoleReplica then ''replica'' else ''master''),
                 sn_MasterID = gn_MasterID gn \<rparr>) (GetNodes (c_gossip c))"

definition GetMasterAddr :: "Cluster \<Rightarrow> string" where
  "GetMasterAddr c =
     (if nd_MasterID (c_self c) = [] then []
      else case GetNode (c_gossip c) (nd_MasterID (c_self c)) of None \<Rightarrow> [] | Some n \<Rightarrow> gn_Addr n)"

definition replicationTargetsForSlot :: "Cluster \<Rightarrow> 16 word \<Rightarrow> PeerTarget list" where
  "replicationTargetsForSlot c slot =
     (case GetSlotInfo (c_slots c) slot of
        None \<Rightarrow> []
      | Some info \<Rightarrow>
          List.map_filter (\<lambda>r. case GetNode (c_gossip c) (rep_NodeID r) of
              None \<Rightarrow> None
            | Some n \<Rightarrow> Some \<lparr> pt_NodeID = rep_NodeID r, pt_Addr = gn_Addr n \<rparr>) (Replicas info))"

definition CanAcceptWriteForSlot :: "Cluster \<Rightarrow> 16 word \<Rightarrow> bool" where
  "CanAcceptWriteForSlot c slot =
     (case GetSlotInfo (c_slots c) slot of
        None \<Rightarrow> True
      | Some info \<Rightarrow>
          (let primaryID = (if PrimaryID info = [] then NodeID info else PrimaryID info)
           in if primaryID = [] then True else primaryID = nd_ID (c_self c)))"

definition CanAcceptWrite :: "Cluster \<Rightarrow> string \<Rightarrow> bool" where
  "CanAcceptWrite c key = CanAcceptWriteForSlot c (KeySlot key)"

section \<open>Epochs and roles\<close>

text \<open>The state manager of the cluster is the one of the slot table.\<close>

definition IncrementEpoch :: "Cluster \<Rightarrow> Cluster \<times> 64 word" where
  "IncrementEpoch c =
     (let epoch = c_currentEpoch c + 1
      in (c\<lparr> c_currentEpoch := epoch, c_gossip := SetCurrentEpoch epoch (c_gossip c), c_slots := markDirty (c_slots c) \<rparr>,
          epoch))"

record PersistentState =
  ps_SlotMap :: "string list"
  ps_MigratingSlots :: "(16 word, MigrationState) gomap"
  ps_SlotReplicas :: "(16 word, SlotReplicaSet) gomap"
  ps_CurrentEpoch :: "64 word"
  ps_MyEpoch :: "64 word"

definition RestoreState :: "Cluster \<Rightarrow> PersistentState \<Rightarrow> Cluster go" where
  "RestoreState c ps =
     do { sm \<leftarrow> RestoreFromState (c_slots c) (ps_SlotMap ps) (ps_MigratingSlots ps) (ps_SlotReplicas ps);
          Some (c\<lparr> c_currentEpoch := ps_CurrentEpoch ps, c_myEpoch := ps_MyEpoch ps,
                   c_gossip := SetCurrentEpoch (ps_CurrentEpoch ps) (c_gossip c), c_slots := sm \<rparr>) }"

definition onNodeJoin :: "Cluster \<Rightarrow> string \<Rightarrow> Cluster" where
  "onNodeJoin c nodeID = c\<lparr> c_processedFailovers := mdel nodeID (c_processedFailovers c) \<rparr>"

text \<open>\<^verbatim>\<open>ReplicateTo\<close>: with the result, the address of the master for the callback that starts the replica client.\<close>

definition ReplicateTo :: "Cluster \<Rightarrow> string \<Rightarrow> Cluster \<times> string res" where
  "ReplicateTo c masterNodeID =
     (case GetNode (c_gossip c) masterNodeID of
        None \<Rightarrow> (c, Inl (ErrMsg (''master node '' @ masterNodeID @ '' not known'')))
      | Some node \<Rightarrow>
          if gn_Role node \<noteq> NodeRoleMaster then (c, Inl (ErrMsg (''node '' @ masterNodeID @ '' is not a master'')))
          else let selfID = nd_ID (c_self c);
                   c1 = c\<lparr> c_self := (c_self c)\<lparr> nd_Role := NodeRoleReplica, nd_MasterID := masterNodeID \<rparr>,
                           c_gossip := SetSelfRole NodeRoleReplica masterNodeID (c_gossip c) \<rparr>;
                   c2 = fst (IncrementEpoch c1)
               in case AddReplicaToMaster (c_slots c2) masterNodeID selfID (c_currentEpoch c2) of
                    (sm, Inl e) \<Rightarrow> (c2\<lparr> c_slots := sm \<rparr>, Inl e)
                  | (sm, Inr _) \<Rightarrow>
                      (c2\<lparr> c_slots := sm \<rparr>, Inr (gn_IP node @ '':'' @ FormatInt (gn_Port node + 20000))))"

definition BroadcastSlotOwnershipChange ::
  "NodeLoadInfo option \<Rightarrow> (string \<times> Message \<Rightarrow> unit res) \<Rightarrow> Cluster \<Rightarrow> 16 word \<Rightarrow> string \<Rightarrow>
     (Cluster \<times> (string \<times> Message) list \<times> unit res) go" where
  "BroadcastSlotOwnershipChange load send c slot newPrimary =
     do { (g, out, err) \<leftarrow> BroadcastSlotOwnership load send (c_gossip c) (c_slots c) slot newPrimary;
          Some (c\<lparr> c_gossip := g \<rparr>, out, err) }"

text \<open>\<^verbatim>\<open>FailoverToMaster\<close>: the loop over the slots of the failed master, with the messages sent.\<close>

fun takeOver ::
  "NodeLoadInfo option \<Rightarrow> (string \<times> Message \<Rightarrow> unit res) \<Rightarrow> string \<Rightarrow> 64 word \<Rightarrow> Cluster \<Rightarrow> 16 word list \<Rightarrow>
     (Cluster \<times> (string \<times> Message) list) go" where
  "takeOver load send masterID epoch c [] = Some (c, [])"
| "takeOver load send masterID epoch c (slot # rest) =
     (if (case GetSlotInfo (c_slots c) slot of None \<Rightarrow> True | Some info \<Rightarrow> NodeID info \<noteq> masterID)
      then takeOver load send masterID epoch c rest
      else let sm = SetSlotConfigEpoch (fst (AssignSlot (c_slots c) slot (nd_ID (c_self c)))) slot epoch
           in do { (c1, out, _) \<leftarrow> BroadcastSlotOwnershipChange load send (c\<lparr> c_slots := sm \<rparr>) slot (nd_ID (c_self c));
                   (c2, out') \<leftarrow> takeOver load send masterID epoch c1 rest;
                   Some (c2, out @ out') })"

definition FailoverToMaster ::
  "NodeLoadInfo option \<Rightarrow> (string \<times> Message \<Rightarrow> unit res) \<Rightarrow> Cluster \<Rightarrow> string \<Rightarrow>
     (Cluster \<times> (string \<times> Message) list) go" where
  "FailoverToMaster load send c masterID =
     (let selfID = nd_ID (c_self c);
          c1 = c\<lparr> c_self := (c_self c)\<lparr> nd_Role := NodeRoleMaster, nd_MasterID := [] \<rparr>,
                  c_gossip := PromoteToMaster selfID (SetSelfRole NodeRoleMaster [] (c_gossip c)) \<rparr>;
          masterSlots = GetNodeSlots (c_slots c1) masterID;
          c2 = fst (IncrementEpoch c1)
      in takeOver load send masterID (c_currentEpoch c2) c2 masterSlots)"

section \<open>Moving slots\<close>

record 'n Net =
  net_dial :: "'n \<Rightarrow> string \<Rightarrow> 'n \<times> unit res"
  net_ask :: "'n \<Rightarrow> string \<Rightarrow> string \<Rightarrow> 'n \<times> ((bool \<times> go_error) + string)"

text \<open>One request on a connection: a failure says whether it was in writing or in reading. Only the answer
  \<^verbatim>\<open>+OK\<close> is a success.\<close>

definition expectOK :: "'n Net \<Rightarrow> 'n \<Rightarrow> string \<Rightarrow> string \<Rightarrow> string \<Rightarrow> string \<Rightarrow> 'n \<times> unit res" where
  "expectOK N n addr name refused req =
     (case net_ask N n addr req of
        (n', Inl (True, e)) \<Rightarrow> (n', Inl (wrapErr (''write '' @ name) e))
      | (n', Inl (False, e)) \<Rightarrow> (n', Inl (wrapErr (''read '' @ name) e))
      | (n', Inr resp) \<Rightarrow>
          if resp = ''+OK'' @ CRLF then (n', Inr ()) else (n', Inl (ErrMsg (name @ refused @ resp))))"

definition remainingMs :: "int \<Rightarrow> int option \<Rightarrow> int" where
  "remainingMs now expireAt = (case expireAt of None \<Rightarrow> 0 | Some t \<Rightarrow> sgn (t - now) * (\<bar>t - now\<bar> div 1000000))"

definition restoreRequest :: "string \<Rightarrow> int \<Rightarrow> string \<Rightarrow> string" where
  "restoreRequest key ttlMs serialized = resp_array [''RESTORE'', key, FormatInt ttlMs, serialized, ''REPLACE'']"

definition sendKey :: "'n Net \<Rightarrow> 'n \<Rightarrow> string \<Rightarrow> string \<Rightarrow> int \<Rightarrow> string \<Rightarrow> 'n \<times> unit res" where
  "sendKey N n addr key ttlMs serialized =
     (case net_dial N n addr of
        (n1, Inl e) \<Rightarrow> (n1, Inl (wrapErr ''connect'' e))
      | (n1, Inr _) \<Rightarrow>
          (case expectOK N n1 addr ''ASKING'' '' unexpected response: '' (resp_array [''ASKING'']) of
             (n2, Inl e) \<Rightarrow> (n2, Inl e)
           | (n2, Inr _) \<Rightarrow> expectOK N n2 addr ''RESTORE'' '' failed: '' (restoreRequest key ttlMs serialized)))"

definition drainKey :: "'n Net \<Rightarrow> Json \<Rightarrow> int \<Rightarrow> Store \<Rightarrow> 'n \<Rightarrow> string \<Rightarrow> string \<Rightarrow> (Store \<times> 'n \<times> unit res) go" where
  "drainKey N J now st n key addr =
     do { (st1, r) \<leftarrow> st_GetEntry now st key;
          case r of
            Inl e \<Rightarrow> Some (st1, n, Inl (wrapErr ''get entry'' e))
          | Inr entry \<Rightarrow>
              (let ttlMs = remainingMs now (ee_ExpireAt entry)
               in if ttlMs < 0 then do { (st2, _) \<leftarrow> st_Del st1 [key]; Some (st2, n, Inr ()) }
                  else case SerializeEntryValue J (Some entry) of
                         Inl e \<Rightarrow> Some (st1, n, Inl (wrapErr ''serialize'' e))
                       | Inr serialized \<Rightarrow>
                           (case sendKey N n addr key ttlMs serialized of
                              (n1, Inl e) \<Rightarrow> Some (st1, n1, Inl e)
                            | (n1, Inr _) \<Rightarrow> do { (st2, _) \<leftarrow> st_Del st1 [key]; Some (st2, n1, Inr ()) })) }"

text \<open>\<open>ctx k\<close> is the error of the context before the \<open>k\<close>-th key, if it is done.\<close>

fun drainKeys ::
  "'n Net \<Rightarrow> Json \<Rightarrow> int \<Rightarrow> (nat \<Rightarrow> go_error option) \<Rightarrow> Store \<Rightarrow> 'n \<Rightarrow> string \<Rightarrow> nat \<Rightarrow> string list \<Rightarrow>
     (Store \<times> 'n \<times> unit res) go" where
  "drainKeys N J now ctx st n addr k [] = Some (st, n, Inr ())"
| "drainKeys N J now ctx st n addr k (key # keys) =
     (case ctx k of
        Some e \<Rightarrow> Some (st, n, Inl e)
      | None \<Rightarrow>
          do { (st1, n1, r) \<leftarrow> drainKey N J now st n key addr;
               case r of
                 Inl e \<Rightarrow> Some (st1, n1, Inl (wrapErr (''key '' @ key) e))
               | Inr _ \<Rightarrow> drainKeys N J now ctx st1 n1 addr (Suc k) keys })"

definition drainSlot ::
  "'n Net \<Rightarrow> Json \<Rightarrow> int \<Rightarrow> (nat \<Rightarrow> go_error option) \<Rightarrow> Store \<Rightarrow> 'n \<Rightarrow> 16 word \<Rightarrow> string \<Rightarrow>
     (Store \<times> 'n \<times> unit res) go" where
  "drainSlot N J now ctx st n slot addr =
     do { (st1, keys) \<leftarrow> st_KeysInSlot now st slot 0;
          if keys = [] then Some (st1, n, Inr ())
          else do { (st2, n1, r) \<leftarrow> drainKeys N J now ctx st1 n addr 0 keys;
                    case r of
                      Inl e \<Rightarrow> Some (st2, n1, Inl e)
                    | Inr _ \<Rightarrow>
                        do { (st3, left) \<leftarrow> st_KeysInSlot now st2 slot 0;
                             Some (st3, n1, if left = [] then Inr ()
                               else Inl (ErrMsg (''concurrent writes detected during slot drain: slot='' @
                                      FormatInt (uint slot) @ '', remaining='' @ FormatInt (int (length left)) @ '' keys''))) } } }"

text \<open>The move of one slot, shared by \<^verbatim>\<open>MigrateSlot\<close> and the loop of \<^verbatim>\<open>DrainSlots\<close>: the slot is marked, its keys
  are moved, and the new owner is recorded and announced, or the mark is taken back.\<close>

definition moveSlot ::
  "NodeLoadInfo option \<Rightarrow> (string \<times> Message \<Rightarrow> unit res) \<Rightarrow> 'n Net \<Rightarrow> Json \<Rightarrow> int \<Rightarrow> (nat \<Rightarrow> go_error option) \<Rightarrow>
     Cluster \<Rightarrow> Store \<Rightarrow> 'n \<Rightarrow> 16 word \<Rightarrow> string \<Rightarrow> string \<Rightarrow>
     (Cluster \<times> Store \<times> 'n \<times> (string \<times> Message) list \<times> unit res) go" where
  "moveSlot load send N J now ctx c st n slot target addr =
     do { (st1, n1, r) \<leftarrow> drainSlot N J now ctx st n slot addr;
          case r of
            Inl e \<Rightarrow> do { sm \<leftarrow> SetStable (c_slots c) slot; Some (c\<lparr> c_slots := sm \<rparr>, st1, n1, [], Inl e) }
          | Inr _ \<Rightarrow>
              do { sm \<leftarrow> FinishMigration (c_slots c) slot target;
                   (c1, out, _) \<leftarrow> BroadcastSlotOwnershipChange load send (c\<lparr> c_slots := sm \<rparr>) slot target;
                   Some (c1, st1, n1, out, Inr ()) } }"

definition MigrateSlot ::
  "NodeLoadInfo option \<Rightarrow> (string \<times> Message \<Rightarrow> unit res) \<Rightarrow> 'n Net \<Rightarrow> Json \<Rightarrow> int \<Rightarrow> (nat \<Rightarrow> go_error option) \<Rightarrow>
     Cluster \<Rightarrow> Store \<Rightarrow> 'n \<Rightarrow> 16 word \<Rightarrow> string \<Rightarrow> (Cluster \<times> Store \<times> 'n \<times> (string \<times> Message) list \<times> unit res) go" where
  "MigrateSlot load send N J now ctx c st n slot targetNodeID =
     do { sm \<leftarrow> SetExporting (c_slots c) slot targetNodeID;
          let c1 = c\<lparr> c_slots := sm \<rparr>;
          let addr = getPeerAddr c1 targetNodeID;
          if addr = [] then
            do { sm' \<leftarrow> SetStable (c_slots c1) slot;
                 Some (c1\<lparr> c_slots := sm' \<rparr>, st, n, [],
                       Inl (ErrMsg (''target node '' @ take 8 targetNodeID @ '' not found''))) }
          else do { (c2, st2, n2, out, r) \<leftarrow> moveSlot load send N J now ctx c1 st n slot targetNodeID addr;
                    Some (c2, st2, n2, out, map_sum (wrapErr (''migrate keys for slot '' @ FormatInt (uint slot))) id r) } }"

text \<open>In the loop over the slots \<open>ctx i k\<close> is the error of the context before the \<open>k\<close>-th key of the \<open>i\<close>-th slot.\<close>

fun drainLoop ::
  "NodeLoadInfo option \<Rightarrow> (string \<times> Message \<Rightarrow> unit res) \<Rightarrow> 'n Net \<Rightarrow> Json \<Rightarrow> int \<Rightarrow> (nat \<Rightarrow> nat \<Rightarrow> go_error option) \<Rightarrow>
     Node list \<Rightarrow> Cluster \<Rightarrow> Store \<Rightarrow> 'n \<Rightarrow> nat \<Rightarrow> 16 word list \<Rightarrow>
     (Cluster \<times> Store \<times> 'n \<times> (string \<times> Message) list) go" where
  "drainLoop load send N J now ctx targets c st n i [] = Some (c, st, n, [])"
| "drainLoop load send N J now ctx targets c st n i (slot # rest) =
     (let target = targets ! (i mod length targets)
      in do { sm \<leftarrow> SetExporting (c_slots c) slot (nd_ID target);
              (c1, st1, n1, out, _) \<leftarrow>
                moveSlot load send N J now (ctx i) (c\<lparr> c_slots := sm \<rparr>) st n slot (nd_ID target) (nd_Addr target);
              (c2, st2, n2, out') \<leftarrow> drainLoop load send N J now ctx targets c1 st1 n1 (Suc i) rest;
              Some (c2, st2, n2, out @ out') })"

definition drainPeers :: "Cluster \<Rightarrow> Node list" where
  "drainPeers c =
     filter (\<lambda>n. (nd_ID n \<noteq> nd_ID (c_self c) \<and> nd_Role n = NodeRoleMaster \<and> nd_State n = NodeStateConnected) \<and>
                 (nd_IP n \<noteq> [] \<and> nd_Port n > 0)) (cl_GetNodes c)"

definition DrainSlots ::
  "NodeLoadInfo option \<Rightarrow> (string \<times> Message \<Rightarrow> unit res) \<Rightarrow> 'n Net \<Rightarrow> Json \<Rightarrow> int \<Rightarrow> (nat \<Rightarrow> nat \<Rightarrow> go_error option) \<Rightarrow>
     Cluster \<Rightarrow> Store option \<Rightarrow> 'n \<Rightarrow> (Cluster \<times> Store option \<times> 'n \<times> (string \<times> Message) list \<times> unit res) go" where
  "DrainSlots load send N J now ctx c engine n =
     (let mySlots = GetNodeSlots (c_slots c) (nd_ID (c_self c))
      in if mySlots = [] \<or> drainPeers c = [] then Some (c, engine, n, [], Inr ())
         else case engine of
                None \<Rightarrow> Some (c, None, n, [], Inl (ErrMsg ''engine not set, cannot drain slots''))
              | Some st \<Rightarrow>
                  do { (c1, st1, n1, out) \<leftarrow> drainLoop load send N J now ctx (drainPeers c) c st n 0 mySlots;
                       Some (c1, Some st1, n1, out, Inr ()) })"

section \<open>The router\<close>

datatype RedirectType = RedirectMoved | RedirectAsk

record Redirect =
  rd_Type :: RedirectType
  rd_Slot :: "16 word"
  rd_Addr :: string

record RouteResult =
  rt_Local :: bool
  rt_Redirect :: "Redirect option"
  rt_CrossSlot :: bool
  rt_Slot :: "16 word"

definition routeLocal :: "16 word \<Rightarrow> RouteResult" where
  "routeLocal slot = \<lparr> rt_Local = True, rt_Redirect = None, rt_CrossSlot = False, rt_Slot = slot \<rparr>"

definition routeTo :: "RedirectType \<Rightarrow> 16 word \<Rightarrow> string \<Rightarrow> RouteResult" where
  "routeTo t slot addr =
     \<lparr> rt_Local = False, rt_Redirect = Some \<lparr> rd_Type = t, rd_Slot = slot, rd_Addr = addr \<rparr>, rt_CrossSlot = False,
       rt_Slot = slot \<rparr>"

definition Route :: "Cluster option \<Rightarrow> string \<Rightarrow> bool \<Rightarrow> RouteResult" where
  "Route cluster key asking =
     (case cluster of
        None \<Rightarrow> routeLocal 0
      | Some c \<Rightarrow>
          (let slot = KeySlot key
           in case GetSlotInfo (c_slots c) slot of
                None \<Rightarrow> routeLocal slot
              | Some info \<Rightarrow>
                  if NodeID info = [] then routeLocal slot
                  else if NodeID info = nd_ID (c_self c) then
                    (if si_State info = SlotStateExporting \<and> Exporting info \<noteq> []
                     then routeTo RedirectAsk slot (getPeerAddr c (Exporting info)) else routeLocal slot)
                  else if si_State info = SlotStateImporting \<and> Importing info \<noteq> [] \<and> asking then routeLocal slot
                  else case cl_GetSlotNode c slot of
                         None \<Rightarrow> routeLocal slot
                       | Some node \<Rightarrow> routeTo RedirectMoved slot (nd_Addr node)))"

definition RouteMulti :: "Cluster option \<Rightarrow> string list \<Rightarrow> RouteResult" where
  "RouteMulti cluster keys =
     (case keys of
        [] \<Rightarrow> routeLocal 0
      | key # rest \<Rightarrow>
          if cluster = None then routeLocal 0
          else if \<exists>k \<in> set rest. KeySlot k \<noteq> KeySlot key
          then \<lparr> rt_Local = False, rt_Redirect = None, rt_CrossSlot = True, rt_Slot = KeySlot key \<rparr>
          else Route cluster key False)"

end
