(* ===== verification/CmdTable.thy ===== *)
theory CmdTable
  imports GoFmt "HOL-Library.Word"
begin

text \<open>
  What the command handler stands on: the answers written to a connection and its state (\<^verbatim>\<open>connstate.go\<close>), the case
  conversion and the hash of command names (\<^verbatim>\<open>zerocopy.go\<close>), the hash table of commands (\<^verbatim>\<open>cmdmap.go\<close>), and the keys of
  the commands with several keys (\<^verbatim>\<open>crossslot.go\<close>), all of \<^verbatim>\<open>internal/protocol\<close>.

  An answer is one call of a write method of the connection; an array is its header, followed by the writes of
  its elements. The table of commands is a table of functions. The main result is that it is the map of the
  registered commands: linear probing finds each of them, and nothing else.
\<close>

unbundle bit_operations_syntax

section \<open>Connections\<close>

datatype reply = WString string | WError string | WBulk string | WNull | WInt int | WArray int

record Conn =
  cn_AskingFlag :: bool
  cn_out :: "reply list"
  cn_closed :: bool

definition newConn :: Conn where
  "newConn = \<lparr> cn_AskingFlag = False, cn_out = [], cn_closed = False \<rparr>"

definition writes :: "reply list \<Rightarrow> Conn \<Rightarrow> Conn" where
  "writes rs c = c\<lparr> cn_out := cn_out c @ rs \<rparr>"

definition clearAskingFlag :: "Conn \<Rightarrow> Conn" where
  "clearAskingFlag c = c\<lparr> cn_AskingFlag := False \<rparr>"

lemma Conn_simps [simp]:
  "cn_AskingFlag (writes rs c) = cn_AskingFlag c" "cn_closed (writes rs c) = cn_closed c"
  "cn_out (writes rs c) = cn_out c @ rs" "cn_AskingFlag (clearAskingFlag c) = False"
  "cn_out (clearAskingFlag c) = cn_out c" "writes rs (writes qs c) = writes (qs @ rs) c"
  by (simp_all add: writes_def clearAskingFlag_def)

section \<open>Names\<close>

definition upperTable :: "char \<Rightarrow> char" where
  "upperTable c = (let i = of_char c :: nat in if 97 \<le> i \<and> i \<le> 122 then char_of (i - 32) else c)"

definition ToUpperInPlace :: "string \<Rightarrow> string" where
  "ToUpperInPlace b = map upperTable b"

text \<open>\<^verbatim>\<open>strings.ToUpper\<close>: a string of ASCII characters is converted byte by byte; \<open>uni\<close> is the conversion by the
  tables of Unicode for the other strings.\<close>

definition strings_ToUpper :: "(string \<Rightarrow> string) \<Rightarrow> string \<Rightarrow> string" where
  "strings_ToUpper uni s = (if list_all (\<lambda>c. of_char c < (128 :: nat)) s then map upperTable s else uni s)"

definition HashBytes :: "string \<Rightarrow> 32 word" where
  "HashBytes b = foldl (\<lambda>h c. (h XOR of_char (upperTable c)) * 16777619) 2166136261 b"

definition IsClusterCmd :: "string \<Rightarrow> bool" where
  "IsClusterCmd cmd = (length cmd = 7 \<and> map upperTable cmd = ''CLUSTER'')"

section \<open>The table of commands\<close>

type_synonym 'f cmdMap = "(string \<times> 'f) option list"

text \<open>The bucket of the \<open>i\<close>-th probe.\<close>

definition probe :: "32 word \<Rightarrow> nat \<Rightarrow> nat" where
  "probe idx i = unat ((idx + of_nat i) AND 127)"

fun registerLoop :: "'f cmdMap \<Rightarrow> 32 word \<Rightarrow> string \<Rightarrow> 'f \<Rightarrow> nat list \<Rightarrow> 'f cmdMap go" where
  "registerLoop cm idx name handler [] = None"
| "registerLoop cm idx name handler (i # is) =
     (if cm ! probe idx i = None then Some (cm[probe idx i := Some (name, handler)])
      else registerLoop cm idx name handler is)"

definition register :: "'f cmdMap \<Rightarrow> string \<Rightarrow> 'f \<Rightarrow> 'f cmdMap go" where
  "register cm name handler = registerLoop cm (HashBytes name AND 127) name handler [0..<128]"

fun lookupLoop :: "'f cmdMap \<Rightarrow> 32 word \<Rightarrow> string \<Rightarrow> nat list \<Rightarrow> 'f option" where
  "lookupLoop cm idx name [] = None"
| "lookupLoop cm idx name (i # is) =
     (case cm ! probe idx i of
        None \<Rightarrow> None
      | Some (n, handler) \<Rightarrow> if n = name then Some handler else lookupLoop cm idx name is)"

definition Lookup :: "'f cmdMap \<Rightarrow> string \<Rightarrow> 'f option" where
  "Lookup cm name = lookupLoop cm (HashBytes name AND 127) name [0..<128]"

text \<open>\<^verbatim>\<open>registerAll\<close> on the list of the names and functions it registers, from the empty table.\<close>

fun registerEach :: "'f cmdMap \<Rightarrow> (string \<times> 'f) list \<Rightarrow> 'f cmdMap go" where
  "registerEach cm [] = Some cm"
| "registerEach cm ((name, handler) # rest) = do { cm' \<leftarrow> register cm name handler; registerEach cm' rest }"

definition newCmdMap :: "(string \<times> 'f) list \<Rightarrow> 'f cmdMap go" where
  "newCmdMap cmds = registerEach (replicate 128 None) cmds"

section \<open>Commands with several keys\<close>

definition extractAllKeys :: "string list \<Rightarrow> string list" where
  "extractAllKeys args = args"

fun evenArgs :: "string list \<Rightarrow> string list" where
  "evenArgs [] = []"
| "evenArgs [a] = [a]"
| "evenArgs (a # b # args) = a # evenArgs args"

definition extractMSetKeys :: "string list \<Rightarrow> string list" where
  "extractMSetKeys args = (if length args < 2 then [] else evenArgs args)"

definition multiKeyCommands :: "(string \<times> (string list \<Rightarrow> string list)) list" where
  "multiKeyCommands = [(''MGET'', extractAllKeys), (''MSET'', extractMSetKeys), (''DEL'', extractAllKeys),
     (''EXISTS'', extractAllKeys), (''RENAME'', extractAllKeys)]"

definition isMultiKeyCommand :: "string \<Rightarrow> bool" where
  "isMultiKeyCommand cmd = (map_of multiKeyCommands cmd \<noteq> None)"

definition getKeysForCrossSlotCheck :: "string \<Rightarrow> string list \<Rightarrow> string list" where
  "getKeysForCrossSlotCheck cmd args =
     (case map_of multiKeyCommands cmd of None \<Rightarrow> [] | Some extractor \<Rightarrow> extractor args)"

section \<open>Linear probing\<close>

lemma probe_eq: "probe idx i = (unat idx + i) mod 128"
proof -
  have "(127 :: 32 word) = mask 7" by (simp add: mask_eq_exp_minus_1)
  then have "probe idx i = take_bit 7 (unat (idx + of_nat i))"
    by (simp only: probe_def take_bit_eq_mask [symmetric] unsigned_take_bit_eq)
  also have "\<dots> = (unat idx + i) mod 2 ^ 32 mod 128"
    by (simp add: take_bit_eq_mod unat_word_ariths(1) unat_of_nat mod_add_right_eq)
  also have "\<dots> = (unat idx + i) mod 128" by (rule mod_mod_cancel) simp
  finally show ?thesis .
qed

lemma probe_less [simp]: "probe idx i < 128"
  by (simp add: probe_eq)

lemma probe_onto: "p < 128 \<Longrightarrow> \<exists>i < 128. probe idx i = p"
proof (intro exI conjI)
  assume p: "p < 128"
  define a where "a = unat idx mod 128"
  have a: "a < 128" "(unat idx + i) mod 128 = (a + i) mod 128" for i by (simp_all add: a_def mod_add_left_eq)
  show "(p + (128 - a)) mod 128 < 128" by simp
  have "(a + (p + (128 - a)) mod 128) mod 128 = (p + 128) mod 128"
    using a(1) by (simp add: mod_add_right_eq)
  then show "probe idx ((p + (128 - a)) mod 128) = p" using p by (simp add: probe_eq a(2))
qed

text \<open>The entry of a name is found when no bucket before it is empty.\<close>

definition placed :: "'f cmdMap \<Rightarrow> string \<Rightarrow> 'f \<Rightarrow> bool" where
  "placed cm name f \<longleftrightarrow> (\<exists>pre i post. [0..<128] = pre @ i # post \<and>
     cm ! probe (HashBytes name AND 127) i = Some (name, f) \<and>
     (\<forall>j \<in> set pre. cm ! probe (HashBytes name AND 127) j \<noteq> None))"

definition table_of :: "'f cmdMap \<Rightarrow> (string \<times> 'f) list \<Rightarrow> bool" where
  "table_of cm cmds \<longleftrightarrow> length cm = 128 \<and> length (filter (\<lambda>e. e \<noteq> None) cm) = length cmds \<and>
     (\<forall>(n, f) \<in> set cmds. placed cm n f) \<and> (\<forall>p < 128. \<forall>e. cm ! p = Some e \<longrightarrow> e \<in> set cmds)"

lemma lookupLoop_miss:
  "\<forall>p < 128. \<forall>f. cm ! p \<noteq> Some (name, f) \<Longrightarrow> lookupLoop cm idx name is = None"
proof (induction "is")
  case (Cons i "is")
  have "cm ! probe idx i \<noteq> Some (name, f)" for f using Cons.prems probe_less by blast
  with Cons show ?case by (auto split: option.splits)
qed simp

lemma lookupLoop_hit:
  "\<forall>j \<in> set pre. cm ! probe idx j \<noteq> None \<Longrightarrow> cm ! probe idx i = Some (name, f) \<Longrightarrow>
   \<forall>p < 128. \<forall>g. cm ! p = Some (name, g) \<longrightarrow> g = f \<Longrightarrow> lookupLoop cm idx name (pre @ i # post) = Some f"
proof (induction pre)
  case (Cons a pre)
  have "cm ! probe idx a = Some (name, g) \<Longrightarrow> g = f" for g using Cons.prems(3) probe_less by blast
  with Cons show ?case by (auto split: option.splits)
qed simp

lemma Lookup_table:
  assumes "table_of cm cmds" "distinct (map fst cmds)"
  shows "Lookup cm name = map_of cmds name"
proof (cases "map_of cmds name")
  case None
  then have "\<forall>p < 128. \<forall>f. cm ! p \<noteq> Some (name, f)" using assms(1)
    by (metis (no_types, lifting) map_of_eq_None_iff fst_conv image_eqI table_of_def)
  then show ?thesis by (simp add: Lookup_def lookupLoop_miss None)
next
  case (Some f)
  then have f: "(name, f) \<in> set cmds" by (rule map_of_SomeD)
  then have "placed cm name f" using assms(1) by (auto simp: table_of_def)
  then obtain pre i post where *: "[0..<128] = pre @ i # post"
    "cm ! probe (HashBytes name AND 127) i = Some (name, f)"
    "\<forall>j \<in> set pre. cm ! probe (HashBytes name AND 127) j \<noteq> None" by (auto simp: placed_def)
  have "\<forall>p < 128. \<forall>g. cm ! p = Some (name, g) \<longrightarrow> g = f"
    using assms f by (metis (no_types, lifting) eq_key_imp_eq_value table_of_def)
  then show ?thesis using lookupLoop_hit [OF *(3,2)] by (simp add: Lookup_def *(1) Some)
qed

lemma registerLoop_first:
  "\<exists>i \<in> set is. cm ! probe idx i = None \<Longrightarrow>
   \<exists>pre i post. is = pre @ i # post \<and> cm ! probe idx i = None \<and> (\<forall>j \<in> set pre. cm ! probe idx j \<noteq> None) \<and>
     registerLoop cm idx name f is = Some (cm[probe idx i := Some (name, f)])"
proof (induction "is")
  case (Cons a "is")
  show ?case
  proof (cases "cm ! probe idx a = None")
    case True
    then show ?thesis by - (rule exI [of _ "[]"], auto)
  next
    case False
    with Cons obtain pre i post where "is = pre @ i # post" "cm ! probe idx i = None"
      "\<forall>j \<in> set pre. cm ! probe idx j \<noteq> None" "registerLoop cm idx name f is = Some (cm[probe idx i := Some (name, f)])"
      by auto
    with False show ?thesis by - (rule exI [of _ "a # pre"], auto)
  qed
qed simp

lemma placed_update:
  "placed cm n f \<Longrightarrow> length cm = 128 \<Longrightarrow> cm ! p = None \<Longrightarrow> p < 128 \<Longrightarrow> placed (cm[p := Some e]) n f"
  unfolding placed_def by (elim exE conjE) (intro exI conjI, assumption, auto simp: nth_list_update)

lemma filter_update:
  "p < length xs \<Longrightarrow> \<not> P (xs ! p) \<Longrightarrow> P y \<Longrightarrow> length (filter P (xs[p := y])) = Suc (length (filter P xs))"
  by (induction xs arbitrary: p) (auto split: nat.splits simp: nth_Cons)

lemma register_table:
  assumes t: "table_of cm cmds" and room: "length cmds < 128"
  shows "\<exists>cm'. register cm name f = Some cm' \<and> table_of cm' (cmds @ [(name, f)])"
proof -
  let ?idx = "HashBytes name AND 127"
  from t have len: "length cm = 128" and n: "length (filter (\<lambda>e. e \<noteq> None) cm) = length cmds" by (auto simp: table_of_def)
  have "\<exists>p < 128. cm ! p = None"
  proof (rule ccontr)
    assume "\<not> ?thesis"
    then have "filter (\<lambda>e. e \<noteq> None) cm = cm" by (intro filter_True) (metis in_set_conv_nth len)
    with n len room show False by simp
  qed
  then have "\<exists>i \<in> set [0..<128]. cm ! probe ?idx i = None" using probe_onto [of _ ?idx] by (metis atLeast0LessThan atLeastLessThan_upt lessThan_iff)
  from registerLoop_first [OF this] obtain pre i post where *: "[0..<128] = pre @ i # post" "cm ! probe ?idx i = None"
    "\<forall>j \<in> set pre. cm ! probe ?idx j \<noteq> None" "register cm name f = Some (cm[probe ?idx i := Some (name, f)])"
    unfolding register_def by blast
  let ?cm = "cm[probe ?idx i := Some (name, f)]"
  have "placed ?cm name f" unfolding placed_def
    using * len by - (rule exI [of _ pre], auto simp: nth_list_update)
  moreover have "placed ?cm n g" if "(n, g) \<in> set cmds" for n g
    using that t placed_update [OF _ len *(2)] by (auto simp: table_of_def)
  moreover have "e \<in> insert (name, f) (set cmds)" if "p < 128" "?cm ! p = Some e" for p e
    using that t len by (cases e) (auto simp: table_of_def nth_list_update split: if_splits)
  moreover have "length (filter (\<lambda>e. e \<noteq> None) ?cm) = Suc (length cmds)" using *(2) len n by (subst filter_update) auto
  ultimately show ?thesis using *(4) len by (intro exI [of _ ?cm]) (auto simp: table_of_def)
qed

lemma registerEach_table:
  "table_of cm done \<Longrightarrow> length (done @ cmds) \<le> 128 \<Longrightarrow> \<exists>cm'. registerEach cm cmds = Some cm' \<and> table_of cm' (done @ cmds)"
proof (induction cmds arbitrary: cm "done")
  case (Cons c cmds)
  obtain name f where c: "c = (name, f)" by (cases c)
  from Cons.prems obtain cm1 where 1: "register cm name f = Some cm1" "table_of cm1 (done @ [c])"
    using register_table [of cm "done" name f] c by auto
  from Cons.IH [OF 1(2)] Cons.prems(2) show ?case by (simp add: c 1(1)) 
qed simp

lemma newCmdMap_table:
  assumes "length cmds \<le> 128" "distinct (map fst cmds)"
  shows "\<exists>cm. newCmdMap cmds = Some cm \<and> (\<forall>name. Lookup cm name = map_of cmds name)"
proof -
  have "table_of (replicate 128 None) []" by (auto simp: table_of_def)
  from registerEach_table [OF this, of cmds] assms Lookup_table show ?thesis by (fastforce simp: newCmdMap_def)
qed

end
