(* ===== verification/ClusterCmd.thy ===== *)
theory ClusterCmd
  imports Cluster CmdTable
begin

text \<open>
  The subcommands of \<^verbatim>\<open>CLUSTER\<close>, \<^verbatim>\<open>internal/protocol/commands/cluster.go\<close>, on the cluster of the node and its store.
  A command gives the cluster, the store, the gossip messages sent and the answers written.

  What lies outside the node is a record: the time, the load it reports, the sending of a gossip message, the
  connection and the answer when it meets a node, the upper case of strings that are not ASCII, and the order
  in which a Go map is traversed.
\<close>

record ClusterEnv =
  e_now :: int
  e_load :: "NodeLoadInfo option"
  e_send :: "string \<times> Message \<Rightarrow> unit res"
  e_dial :: "string \<Rightarrow> unit res"
  e_meet :: "string \<Rightarrow> Message \<Rightarrow> Message res"
  e_upper :: "string \<Rightarrow> string"
  e_order :: "string list \<Rightarrow> string list"

type_synonym clusterResult = "(Cluster \<times> Store \<times> (string \<times> Message) list \<times> reply list) go"

definition says :: "Cluster \<Rightarrow> Store \<Rightarrow> reply list \<Rightarrow> clusterResult" where
  "says c st rs = Some (c, st, [], rs)"

definition wrongArgs :: "string \<Rightarrow> reply" where
  "wrongArgs cmd = WError (''ERR wrong number of arguments for '' @ [CHR 0x27] @ cmd @ [CHR 0x27] @ '' command'')"

text \<open>An answer for the error of an operation, or its result.\<close>

definition okOrErr :: "'a res \<Rightarrow> reply" where
  "okOrErr r = (case r of Inl e \<Rightarrow> WError (''ERR '' @ errText e) | Inr _ \<Rightarrow> WString ''OK'')"

text \<open>\<^verbatim>\<open>strconv.ParseUint(s, 10, 16)\<close> and the bound of the slots.\<close>

definition parseSlot :: "string \<Rightarrow> 16 word option" where
  "parseSlot s = (case parse_digits s of None \<Rightarrow> None | Some n \<Rightarrow> if n < 16384 then Some (of_nat n) else None)"

fun parseSlots :: "string list \<Rightarrow> 16 word list option" where
  "parseSlots [] = Some []"
| "parseSlots (a # as) = do { slot \<leftarrow> parseSlot a; rest \<leftarrow> parseSlots as; Some (slot # rest) }"

abbreviation invalidSlot :: reply where "invalidSlot \<equiv> WError ''ERR Invalid slot''"

text \<open>The value of \<^verbatim>\<open>strconv.Atoi\<close> when its error is ignored: 0 for what is not a number, and the nearest bound for a
  number out of range.\<close>

definition AtoiValue :: "string \<Rightarrow> int" where
  "AtoiValue s =
     (let neg = (take 1 s = ''-''); ds = (if take 1 s = ''-'' \<or> take 1 s = ''+'' then tl s else s)
      in case parse_digits ds of
           None \<Rightarrow> 0
         | Some n \<Rightarrow> if neg then max (- (2 ^ 63)) (- int n) else min (2 ^ 63 - 1) (int n))"

section \<open>Replication and failover\<close>

definition clusterReplicate :: "Cluster \<Rightarrow> Store \<Rightarrow> string list \<Rightarrow> clusterResult" where
  "clusterReplicate c st args =
     (case args of
        [masterID] \<Rightarrow>
          if masterID = [] then says c st [WError ''ERR invalid master node ID'']
          else (case ReplicateTo c masterID of (c', r) \<Rightarrow> says c' st [okOrErr r])
      | _ \<Rightarrow> says c st [wrongArgs ''cluster replicate''])"

definition clusterFailover :: "ClusterEnv \<Rightarrow> Cluster \<Rightarrow> Store \<Rightarrow> string list \<Rightarrow> clusterResult" where
  "clusterFailover E c st args =
     (case args of
        [a] \<Rightarrow>
          (case parseSlot a of
             None \<Rightarrow> says c st [invalidSlot]
           | Some slot \<Rightarrow>
               (case PromoteBestReplica \<lparr> fm_slots = Some (c_slots c), fm_broadcast = True, fm_failClosed = False \<rparr> slot of
                  (m, hooks, r) \<Rightarrow>
                    (let c1 = (case fm_slots m of None \<Rightarrow> c | Some sm \<Rightarrow> c\<lparr> c_slots := sm \<rparr>)
                     in case r of
                          Inl e \<Rightarrow> says c1 st [WError (''ERR '' @ errText e)]
                        | Inr promoted \<Rightarrow>
                            do { (c2, out, _) \<leftarrow> BroadcastSlotOwnershipChange (e_load E) (e_send E) c1 slot promoted;
                                 Some (c2, st, out, [WBulk promoted]) })))
      | _ \<Rightarrow> says c st [wrongArgs ''cluster failover''])"

definition clusterPSync :: "Cluster \<Rightarrow> Store \<Rightarrow> string list \<Rightarrow> clusterResult" where
  "clusterPSync c st args =
     (case args of
        [a, b, d] \<Rightarrow>
          (case parseSlot a of
             None \<Rightarrow> says c st [invalidSlot]
           | Some slot \<Rightarrow>
               (case ParseUint b of
                  None \<Rightarrow> says c st [WError ''ERR Invalid epoch'']
                | Some epoch \<Rightarrow>
                    (case ParseUint d of
                       None \<Rightarrow> says c st [WError ''ERR Invalid lsn'']
                     | Some appliedLSN \<Rightarrow>
                         (let m = c_replication c;
                              info = GetSlotInfo (c_slots c) slot;
                              currentEpoch = (case info of None \<Rightarrow> 0 | Some i \<Rightarrow> ConfigEpoch i);
                              full = [WError (''FULLRESYNC '' @ FormatUint currentEpoch @ '' '' @ FormatUint (SnapshotLSN m slot))]
                          in if info = None \<or> currentEpoch \<noteq> epoch then says c st full
                             else case IncrementalOps m slot appliedLSN of
                                    None \<Rightarrow> says c st full
                                  | Some ops \<Rightarrow>
                                      says c st (WArray (int (length ops)) #
                                        concat (map (\<lambda>op. [WArray 7, WInt (uint (op_Slot op)), WInt (sint (op_Epoch op)),
                                           WInt (sint (op_LSN op)), WBulk (OpType op), WBulk (op_Key op),
                                           WInt (ExpireAtNs op), WBulk (Payload op)]) ops))))))
      | _ \<Rightarrow> says c st [wrongArgs ''cluster psync''])"

section \<open>Views\<close>

definition clusterInfo :: "ClusterEnv \<Rightarrow> Cluster \<Rightarrow> Store \<Rightarrow> clusterResult" where
  "clusterInfo E c st =
     (let info = GetClusterInfo c
      in says c st [WBulk (concat (e_order E
           [''cluster_state:'' @ ci_state info @ CRLF,
            ''cluster_slots_assigned:'' @ FormatInt (ci_slots_assigned info) @ CRLF,
            ''cluster_slots_ok:'' @ FormatInt (ci_slots_ok info) @ CRLF,
            ''cluster_known_nodes:'' @ FormatInt (ci_known_nodes info) @ CRLF,
            ''cluster_size:'' @ FormatInt (ci_size info) @ CRLF,
            ''cluster_current_epoch:'' @ FormatUint (ci_current_epoch info) @ CRLF,
            ''cluster_my_epoch:'' @ FormatUint (ci_my_epoch info) @ CRLF]))])"

text \<open>\<^verbatim>\<open>sortSlots\<close>, by exchanges: the first position takes the smallest of the rest, which keeps what it had.\<close>

fun exchange :: "16 word \<Rightarrow> 16 word list \<Rightarrow> 16 word \<times> 16 word list" where
  "exchange x [] = (x, [])"
| "exchange x (y # ys) =
     (if x > y then (case exchange y ys of (m, r) \<Rightarrow> (m, x # r)) else (case exchange x ys of (m, r) \<Rightarrow> (m, y # r)))"

lemma exchange_length [simp]: "exchange x ys = (m, r) \<Longrightarrow> length r = length ys"
  by (induction x ys arbitrary: m r rule: exchange.induct) (auto split: if_splits prod.splits)

function sortSlots :: "16 word list \<Rightarrow> 16 word list" where
  "sortSlots [] = []"
| "sortSlots (x # xs) = (case exchange x xs of (m, r) \<Rightarrow> m # sortSlots r)"
  by pat_completeness auto

termination sortSlots
  by (relation "measure length") (auto dest: exchange_length [OF sym])

definition formatSlotRange :: "16 word \<times> 16 word \<Rightarrow> string" where
  "formatSlotRange r = (case r of (start, end') \<Rightarrow>
     if start = end' then FormatInt (uint start) else FormatInt (uint start) @ ''-'' @ FormatInt (uint end'))"

text \<open>The loop over the sorted slots, from the range that is open.\<close>

fun slotRanges :: "16 word \<Rightarrow> 16 word \<Rightarrow> 16 word list \<Rightarrow> (16 word \<times> 16 word) list" where
  "slotRanges start end' [] = [(start, end')]"
| "slotRanges start end' (s # rest) =
     (if s = end' + 1 then slotRanges start s rest else (start, end') # slotRanges s s rest)"

definition migrationMark :: "SlotManager \<Rightarrow> 16 word \<Rightarrow> string list" where
  "migrationMark sm slot =
     (case GetSlotInfo sm slot of
        None \<Rightarrow> []
      | Some info \<Rightarrow>
          if si_State info = SlotStateExporting \<and> Exporting info \<noteq> [] then
            [''['' @ FormatInt (uint slot) @ ''->-'' @ Exporting info @ '']'']
          else if si_State info = SlotStateImporting \<and> Importing info \<noteq> [] then
            [''['' @ FormatInt (uint slot) @ ''-<-'' @ Importing info @ '']'']
          else [])"

fun joinWith :: "string \<Rightarrow> string list \<Rightarrow> string" where
  "joinWith sep [] = []"
| "joinWith sep [x] = x"
| "joinWith sep (x # y # xs) = x @ sep @ joinWith sep (y # xs)"

definition buildNodeSlotRanges :: "string \<Rightarrow> SlotManager \<Rightarrow> string" where
  "buildNodeSlotRanges nodeID sm =
     (case sortSlots (GetNodeSlots sm nodeID) of
        [] \<Rightarrow> []
      | s # rest \<Rightarrow>
          joinWith '' '' (map formatSlotRange (slotRanges s s rest) @ concat (map (migrationMark sm) (s # rest))))"

definition nodeLine :: "Cluster \<Rightarrow> Node \<Rightarrow> string" where
  "nodeLine c n =
     (let role = (if nd_Role n = NodeRoleMaster then ''master'' else ''replica'');
          flags0 = (if nd_ID n = nd_ID (c_self c) then ''myself,'' @ role else role);
          flags = flags0 @ (case nd_State n of NodeStateFail \<Rightarrow> '',fail'' | NodeStatePFail \<Rightarrow> '',fail?'' | _ \<Rightarrow> []);
          masterID = (if nd_MasterID n \<noteq> [] then nd_MasterID n else ''-'');
          linkState = (if nd_State n \<noteq> NodeStateConnected then ''disconnected'' else ''connected'')
      in nd_ID n @ '' '' @ nd_IP n @ '':'' @ FormatInt (nd_Port n) @ ''@'' @ FormatInt (nd_ClusterPort n) @ '' '' @ flags @
         '' '' @ masterID @ '' '' @ FormatInt (nd_PingSent n) @ '' '' @ FormatInt (nd_PongReceived n) @ '' 0 '' @ linkState @
         '' '' @ buildNodeSlotRanges (nd_ID n) (c_slots c) @ [LF])"

definition clusterNodes :: "Cluster \<Rightarrow> Store \<Rightarrow> clusterResult" where
  "clusterNodes c st = says c st [WBulk (concat (map (nodeLine c) (cl_GetNodes c)))]"

definition slotsEntry :: "Cluster \<Rightarrow> SlotRange \<Rightarrow> reply list" where
  "slotsEntry c r =
     (case cl_GetSlotNode c (sr_Start r) of
        None \<Rightarrow> []
      | Some n \<Rightarrow> [WArray 3, WInt (uint (sr_Start r)), WInt (uint (sr_End r)), WArray 3, WBulk (nd_IP n), WInt (nd_Port n),
                    WBulk (nd_ID n)])"

definition clusterSlots :: "Cluster \<Rightarrow> Store \<Rightarrow> clusterResult" where
  "clusterSlots c st =
     (let ranges = GetClusterSlots (c_slots c)
      in says c st (WArray (int (length ranges)) # concat (map (slotsEntry c) ranges)))"

definition clusterKeySlot :: "Cluster \<Rightarrow> Store \<Rightarrow> string list \<Rightarrow> clusterResult" where
  "clusterKeySlot c st args =
     (case args of [key] \<Rightarrow> says c st [WInt (uint (KeySlot key))] | _ \<Rightarrow> says c st [wrongArgs ''cluster keyslot''])"

definition clusterGetKeysInSlot :: "ClusterEnv \<Rightarrow> Cluster \<Rightarrow> Store \<Rightarrow> string list \<Rightarrow> clusterResult" where
  "clusterGetKeysInSlot E c st args =
     (case args of
        [a, b] \<Rightarrow>
          (case parseSlot a of
             None \<Rightarrow> says c st [invalidSlot]
           | Some slot \<Rightarrow>
               (case ParseInt b of
                  None \<Rightarrow> says c st [WError ''ERR Invalid count'']
                | Some cnt \<Rightarrow>
                    if cnt < 0 then says c st [WError ''ERR Invalid count'']
                    else do { (st', keys) \<leftarrow> st_KeysInSlot (e_now E) st slot cnt;
                              says c st' (WArray (int (length keys)) # map WBulk keys) }))
      | _ \<Rightarrow> says c st [wrongArgs ''cluster getkeysinslot''])"

definition clusterCountKeysInSlot :: "ClusterEnv \<Rightarrow> Cluster \<Rightarrow> Store \<Rightarrow> string list \<Rightarrow> clusterResult" where
  "clusterCountKeysInSlot E c st args =
     (case args of
        [a] \<Rightarrow>
          (case parseSlot a of
             None \<Rightarrow> says c st [invalidSlot]
           | Some slot \<Rightarrow> do { (st', n) \<leftarrow> st_CountKeysInSlot (e_now E) st slot; says c st' [WInt n] })
      | _ \<Rightarrow> says c st [wrongArgs ''cluster countkeysinslot''])"

section \<open>Changes of the cluster\<close>

definition clusterMeet :: "ClusterEnv \<Rightarrow> Cluster \<Rightarrow> Store \<Rightarrow> string list \<Rightarrow> clusterResult" where
  "clusterMeet E c st args =
     (case args of
        ip # b # rest \<Rightarrow>
          (case ParseInt b of
             None \<Rightarrow> says c st [WError ''ERR Invalid port'']
           | Some port \<Rightarrow>
               (let clusterPort = (case rest of [] \<Rightarrow> i64 (port + 10000) | p # _ \<Rightarrow> AtoiValue p);
                    addr = ip @ '':'' @ FormatInt clusterPort
                in do { (g, sm, _, r) \<leftarrow> gossip_Meet (e_now E) (e_load E) (e_dial E) (e_meet E) (c_gossip c) (c_slots c) addr;
                        says (c\<lparr> c_gossip := g, c_slots := sm \<rparr>) st [okOrErr r] }))
      | _ \<Rightarrow> says c st [wrongArgs ''cluster meet''])"

definition clusterAddSlots :: "Cluster \<Rightarrow> Store \<Rightarrow> string list \<Rightarrow> clusterResult" where
  "clusterAddSlots c st args =
     (if args = [] then says c st [wrongArgs ''cluster addslots'']
      else case parseSlots args of
             None \<Rightarrow> says c st [invalidSlot]
           | Some sl \<Rightarrow> (case AssignSlots c sl of (c', r) \<Rightarrow> says c' st [okOrErr r]))"

definition clusterSetSlot :: "ClusterEnv \<Rightarrow> Cluster \<Rightarrow> Store \<Rightarrow> string list \<Rightarrow> clusterResult" where
  "clusterSetSlot E c st args =
     (case args of
        a # b # rest \<Rightarrow>
          (case parseSlot a of
             None \<Rightarrow> says c st [invalidSlot]
           | Some slot \<Rightarrow>
               (let subcmd = strings_ToUpper (e_upper E) b
                in if subcmd = ''MIGRATING'' then
                     (case rest of
                        [] \<Rightarrow> says c st [wrongArgs ''cluster setslot migrating'']
                      | target # _ \<Rightarrow>
                          do { sm \<leftarrow> SetExporting (c_slots c) slot target;
                               says (fst (IncrementEpoch (c\<lparr> c_slots := sm \<rparr>))) st [WString ''OK''] })
                   else if subcmd = ''IMPORTING'' then
                     (case rest of
                        [] \<Rightarrow> says c st [wrongArgs ''cluster setslot importing'']
                      | source # _ \<Rightarrow>
                          do { sm \<leftarrow> SetImporting (c_slots c) slot source;
                               says (fst (IncrementEpoch (c\<lparr> c_slots := sm \<rparr>))) st [WString ''OK''] })
                   else if subcmd = ''NODE'' then
                     (case rest of
                        [] \<Rightarrow> says c st [wrongArgs ''cluster setslot node'']
                      | newOwner # _ \<Rightarrow>
                          do { sm \<leftarrow> FinishMigration (c_slots c) slot newOwner;
                               says (fst (IncrementEpoch (c\<lparr> c_slots := sm \<rparr>))) st [WString ''OK''] })
                   else if subcmd = ''STABLE'' then
                     do { sm \<leftarrow> SetStable (c_slots c) slot; says (c\<lparr> c_slots := sm \<rparr>) st [WString ''OK''] }
                   else says c st [WError ''ERR Invalid CLUSTER SETSLOT action or number of arguments'']))
      | _ \<Rightarrow> says c st [wrongArgs ''cluster setslot''])"

section \<open>Dispatch\<close>

definition HandleCluster :: "ClusterEnv \<Rightarrow> Cluster \<Rightarrow> Store \<Rightarrow> string list \<Rightarrow> clusterResult" where
  "HandleCluster E c st args =
     (case args of
        [] \<Rightarrow> says c st [wrongArgs ''cluster'']
      | a # rest \<Rightarrow>
          (let subcmd = strings_ToUpper (e_upper E) a
           in if subcmd = ''INFO'' then clusterInfo E c st
              else if subcmd = ''NODES'' then clusterNodes c st
              else if subcmd = ''SLOTS'' then clusterSlots c st
              else if subcmd = ''KEYSLOT'' then clusterKeySlot c st rest
              else if subcmd = ''MEET'' then clusterMeet E c st rest
              else if subcmd = ''ADDSLOTS'' then clusterAddSlots c st rest
              else if subcmd = ''DELSLOTS'' then says c st [WString ''OK'']
              else if subcmd = ''SETSLOT'' then clusterSetSlot E c st rest
              else if subcmd = ''MYID'' then says c st [WBulk (nd_ID (c_self c))]
              else if subcmd = ''GETKEYSINSLOT'' then clusterGetKeysInSlot E c st rest
              else if subcmd = ''COUNTKEYSINSLOT'' then clusterCountKeysInSlot E c st rest
              else if subcmd = ''PSYNC'' then clusterPSync c st rest
              else if subcmd = ''REPLICATE'' then clusterReplicate c st rest
              else if subcmd = ''FAILOVER'' then clusterFailover E c st rest
              else says c st [WError (''ERR unknown subcommand '' @ [CHR 0x27] @ subcmd @ [CHR 0x27])]))"

end
