(* ===== verification/Handler.thy ===== *)
theory Handler
  imports ClusterCmd Collections
begin

text \<open>
  The command handler of a node, \<^verbatim>\<open>internal/protocol/handler.go\<close>: one definition per command, the two dispatchers
  with routing and the write guard, the write path of replication, and the operations a replica receives.

  The engine is the in-memory store (\<^verbatim>\<open>MemoryStoreAdapter\<close> of \<^verbatim>\<open>adapter.go\<close> forwards every call to it). A command takes the
  handler and the connection and gives both back; \<open>None\<close> is a panic or a loop that does not end. The time
  is the same at all places of one command. The metrics are left out. \<open>h_hotspot\<close> is the list of calls of the
  hot-spot detector, \<open>h_sent\<close> what is written to the connections of replicas, \<open>h_gossiped\<close> the gossip messages.

  Outside the node, in addition to \<open>ClusterEnv\<close>: the memory in use, the connections on which a write succeeds,
  JSON, \<^verbatim>\<open>strconv.ParseFloat\<close> and \<^verbatim>\<open>FormatFloat\<close>, the connections of \<^verbatim>\<open>MIGRATE\<close>, the replication manager and the time at
  each look of \<^verbatim>\<open>WAIT\<close>, the writing of a snapshot file, and \<^verbatim>\<open>strings.TrimSpace\<close> on strings that are not ASCII.
\<close>

record SnapshotWriter =
  sw_lastSaveUnix :: int
  sw_file :: string

record 'n Handler =
  h_engine :: Store
  h_cluster :: "Cluster option"
  h_applier :: ReplicaApplier
  h_hotspot :: "(16 word \<times> int) list option"
  h_snapshot :: "SnapshotWriter option"
  h_writeBehind :: "(int \<times> int) option"
  h_lastWriteSlot :: "16 word"
  h_lastWriteLSN :: "64 word"
  h_sent :: "(nat \<times> string) list"
  h_gossiped :: "(string \<times> Message) list"
  h_net :: 'n

record 'n Env = ClusterEnv +
  e_mem :: "64 word"
  e_wr :: "nat \<Rightarrow> bool"
  e_json :: Json
  e_ParseFloat :: "string \<Rightarrow> float64 option"
  e_FormatFloat :: "float64 \<Rightarrow> string"
  e_net :: "'n Net"
  e_polls :: "nat \<Rightarrow> ReplManager \<times> int"
  e_disk :: "string \<Rightarrow> unit res"
  e_trim :: "string \<Rightarrow> string"

type_synonym 'n CommandFunc = "'n Env \<Rightarrow> 'n Handler \<Rightarrow> Conn \<Rightarrow> string list \<Rightarrow> ('n Handler \<times> Conn) go"

definition NewHandler :: "Store \<Rightarrow> 'n \<Rightarrow> 'n Handler" where
  "NewHandler engine n =
     \<lparr> h_engine = engine, h_cluster = None, h_applier = [], h_hotspot = None, h_snapshot = None, h_writeBehind = None,
       h_lastWriteSlot = 0, h_lastWriteLSN = 0, h_sent = [], h_gossiped = [], h_net = n \<rparr>"

definition SetCluster :: "'n Handler \<Rightarrow> Cluster \<Rightarrow> 'n Handler" where
  "SetCluster h c = h\<lparr> h_cluster := Some c \<rparr>"

section \<open>Answers\<close>

definition answer :: "'n Handler \<Rightarrow> Conn \<Rightarrow> reply list \<Rightarrow> ('n Handler \<times> Conn) go" where
  "answer h c rs = Some (h, writes rs c)"

definition writeDataError :: "go_error \<Rightarrow> reply" where
  "writeDataError e =
     (if e = ErrWrongType then WError ''WRONGTYPE Operation against a key holding the wrong kind of value''
      else if e = ErrKeyNotFound then WNull
      else WError (''ERR '' @ errText e))"

definition dataReply :: "('a \<Rightarrow> reply list) \<Rightarrow> 'a res \<Rightarrow> reply list" where
  "dataReply f r = (case r of Inl e \<Rightarrow> [writeDataError e] | Inr v \<Rightarrow> f v)"

definition engineCall ::
  "'n Handler \<Rightarrow> Conn \<Rightarrow> (Store \<Rightarrow> (Store \<times> 'a) go) \<Rightarrow> ('a \<Rightarrow> reply list) \<Rightarrow> ('n Handler \<times> Conn) go" where
  "engineCall h c f k = do { (s, r) \<leftarrow> f (h_engine h); answer (h\<lparr> h_engine := s \<rparr>) c (k r) }"

abbreviation notInteger :: reply where "notInteger \<equiv> WError ''ERR value is not an integer or out of range''"
abbreviation replyOK :: reply where "replyOK \<equiv> WString ''OK''"

definition replyInt :: "int \<Rightarrow> reply list" where "replyInt n = [WInt n]"
definition replyBulk :: "string \<Rightarrow> reply list" where "replyBulk s = [WBulk s]"
definition replyBool :: "bool \<Rightarrow> reply list" where "replyBool b = [WInt (if b then 1 else 0)]"
definition replyArray :: "string list \<Rightarrow> reply list" where "replyArray xs = WArray (int (length xs)) # map WBulk xs"

definition withInt :: "'n Handler \<Rightarrow> Conn \<Rightarrow> string \<Rightarrow> (int \<Rightarrow> ('n Handler \<times> Conn) go) \<Rightarrow> ('n Handler \<times> Conn) go" where
  "withInt h c a f = (case ParseInt a of None \<Rightarrow> answer h c [notInteger] | Some i \<Rightarrow> f i)"

text \<open>\<^verbatim>\<open>time.Duration(n) * time.Second\<close> and \<^verbatim>\<open>time.Millisecond\<close>, and the quotients of a duration.\<close>

definition seconds :: "int \<Rightarrow> int" where "seconds n = i64 (n * 1000000000)"
definition millis :: "int \<Rightarrow> int" where "millis n = i64 (n * 1000000)"
definition quotient :: "int \<Rightarrow> int \<Rightarrow> int" where "quotient x y = sgn x * (\<bar>x\<bar> div y)"

section \<open>Replication of writes\<close>

definition errReplicationNoop :: go_error where "errReplicationNoop = ErrMsg ''replication noop''"

text \<open>\<open>apply\<close> is the closure; its result is what it leaves in the variables of the command.\<close>

definition applyReplicationWrite ::
  "'n Env \<Rightarrow> 'n Handler \<Rightarrow> string \<Rightarrow> string \<Rightarrow> string \<Rightarrow> int \<Rightarrow> (Store \<Rightarrow> (Store \<times> 'a res) go) \<Rightarrow> ('n Handler \<times> 'a res) go" where
  "applyReplicationWrite E h key opType payload expireAtNs apply =
     do { (s, r) \<leftarrow> apply (h_engine h);
          Some (case h_cluster h of
            None \<Rightarrow> (h\<lparr> h_engine := s \<rparr>, r)
          | Some cl \<Rightarrow>
              (let slot = KeySlot key;
                   req = \<lparr> wr_Slot = slot, wr_OpType = opType, wr_Key = key, wr_Payload = payload, wr_ExpireAtNs = expireAtNs \<rparr>
               in case ApplyWrite (e_wr E) (Some (replicationTargetsForSlot cl)) (\<lambda>_. (s, map_sum id (\<lambda>_. ()) r))
                         (Some AllocateLSN) (h_engine h) (c_slots cl) (c_replication cl) req of
                    (s', sm, m, sent, w) \<Rightarrow>
                      (let h' = h\<lparr> h_engine := s', h_cluster := Some (cl\<lparr> c_slots := sm, c_replication := m \<rparr>),
                                   h_sent := h_sent h @ sent \<rparr>
                       in case w of
                            Inl e \<Rightarrow> (h', Inl e)
                          | Inr op \<Rightarrow> (h'\<lparr> h_lastWriteSlot := slot, h_lastWriteLSN := op_LSN op \<rparr>, r)))) }"

definition encodeReplicationPayload :: "string list \<Rightarrow> string" where
  "encodeReplicationPayload args = joinWith [CHR 0x00] args"

text \<open>\<^verbatim>\<open>bytes.Split\<close> at the zero bytes.\<close>

fun splitNul :: "string \<Rightarrow> string list" where
  "splitNul [] = [[]]"
| "splitNul (c # cs) =
     (if c = CHR 0x00 then [] # splitNul cs else case splitNul cs of [] \<Rightarrow> [[c]] | p # ps \<Rightarrow> (c # p) # ps)"

definition decodeReplicationPayload :: "string \<Rightarrow> string list" where
  "decodeReplicationPayload payload = (if payload = [] then [] else splitNul payload)"

text \<open>The switch of \<^verbatim>\<open>applyIncomingReplicationOp\<close> on the store.\<close>

definition executeOp :: "int \<Rightarrow> 64 word \<Rightarrow> Op \<Rightarrow> Store \<Rightarrow> (Store \<times> unit res) go" where
  "executeOp now mem op s =
     (let payload = decodeReplicationPayload (Payload op); n = length payload;
          invalid = (\<lambda>m. Some (s, Inl (ErrMsg m)))
      in if OpType op = ''SET'' then
           (if n = 0 then invalid ''invalid SET payload''
            else st_Set now mem s (op_Key op) (if n > 1 then payload ! 1 else payload ! 0)
                   (if ExpireAtNs op > 0 then max 0 (ExpireAtNs op - now) else 0))
         else if OpType op = ''MSET'' then
           (if n = 0 \<or> n mod 2 \<noteq> 0 then invalid ''invalid MSET payload'' else st_MSet now mem s (map IStr payload))
         else if OpType op = ''HSET'' then
           (if n < 3 \<or> n mod 2 = 0 then invalid ''invalid HSET payload''
            else do { (s', r) \<leftarrow> st_HSet now s (op_Key op) (map IStr (tl payload)); Some (s', map_sum id (\<lambda>_. ()) r) })
         else if OpType op = ''DEL'' then
           (if n = 0 then invalid ''invalid DEL payload'' else do { (s', _) \<leftarrow> st_Del s payload; Some (s', Inr ()) })
         else if OpType op = ''RENAME'' then
           (if n \<noteq> 2 then invalid ''invalid RENAME payload'' else st_Rename now s (payload ! 0) (payload ! 1))
         else if OpType op = ''EXPIRE'' \<or> OpType op = ''PEXPIRE'' \<or> OpType op = ''EXPIREAT'' then
           (if ExpireAtNs op \<le> 0 then invalid ''invalid expire timestamp''
            else do { (s', _) \<leftarrow> st_ExpireAt now s (op_Key op) (ExpireAtNs op); Some (s', Inr ()) })
         else if OpType op = ''PERSIST'' then do { (s', _) \<leftarrow> st_Persist now s (op_Key op); Some (s', Inr ()) }
         else invalid (''unsupported replication op type: '' @ OpType op))"

definition applyIncomingReplicationOp :: "'n Env \<Rightarrow> 'n Handler \<Rightarrow> Op \<Rightarrow> ('n Handler \<times> unit res) go" where
  "applyIncomingReplicationOp E h op =
     (case applier_Begin (h_applier h) op of
        Inl e \<Rightarrow> Some (h, Inl e)
      | Inr skip \<Rightarrow>
          if skip then Some (h, Inr ())
          else do { (s, r) \<leftarrow> executeOp (e_now E) (e_mem E) op (h_engine h);
                    Some (case r of
                      Inl e \<Rightarrow> (h\<lparr> h_engine := s \<rparr>, Inl e)
                    | Inr _ \<Rightarrow> (h\<lparr> h_engine := s, h_applier := applier_Commit (h_applier h) op \<rparr>, Inr ())) })"

section \<open>Connection and server commands\<close>

definition cmdPing :: "'n CommandFunc" where
  "cmdPing E h c args = (case args of [] \<Rightarrow> answer h c [WString ''PONG''] | a # _ \<Rightarrow> answer h c [WBulk a])"

definition cmdEcho :: "'n CommandFunc" where
  "cmdEcho E h c args = (case args of [a] \<Rightarrow> answer h c [WBulk a] | _ \<Rightarrow> answer h c [wrongArgs ''echo''])"

definition cmdQuit :: "'n CommandFunc" where
  "cmdQuit E h c args = answer h (c\<lparr> cn_closed := True \<rparr>) [replyOK]"

text \<open>Both branches of \<^verbatim>\<open>cmdCommand\<close> write an empty array.\<close>

definition cmdCommand :: "'n CommandFunc" where
  "cmdCommand E h c args = answer h c [WArray 0]"

definition cmdInfo :: "'n CommandFunc" where
  "cmdInfo E h c args =
     (let st = st_stats (h_engine h);
          totalOps = ss_GetOps st + ss_SetOps st + ss_DelOps st;
          persistence =
            (if h_snapshot h \<noteq> None \<or> h_writeBehind h \<noteq> None then
               CRLF @ ''# Persistence'' @ CRLF @ ''loading:0'' @ CRLF @
               (case h_snapshot h of None \<Rightarrow> [] | Some sw \<Rightarrow> ''rdb_last_save_time:'' @ FormatInt (sw_lastSaveUnix sw) @ CRLF) @
               (case h_writeBehind h of None \<Rightarrow> [] | Some (flushed, dropped) \<Rightarrow>
                  ''writebehind_flushed:'' @ FormatInt flushed @ CRLF @ ''writebehind_dropped:'' @ FormatInt dropped @ CRLF)
             else [])
      in answer h c [WBulk (''# Server'' @ CRLF @ ''autocache_version:0.1.0'' @ CRLF @ CRLF @ ''# Stats'' @ CRLF @
           ''total_connections_received:0'' @ CRLF @ ''total_commands_processed:'' @ FormatInt totalOps @ CRLF @ CRLF @
           ''# Keyspace'' @ CRLF @ ''db0:keys='' @ FormatInt (st_DBSize (h_engine h)) @ '',expires=0'' @ CRLF @ persistence @
           (if h_cluster h \<noteq> None then CRLF @ ''# Cluster'' @ CRLF @ ''cluster_enabled:1'' @ CRLF else []))])"

definition cmdDebug :: "'n CommandFunc" where
  "cmdDebug E h c args = answer h c [replyOK]"

definition cmdConfig :: "'n CommandFunc" where
  "cmdConfig E h c args =
     (case args of
        [] \<Rightarrow> answer h c [wrongArgs ''config'']
      | a # _ \<Rightarrow>
          (let subcmd = strings_ToUpper (e_upper E) a
           in if subcmd = ''GET'' then answer h c [WArray 0]
              else if subcmd = ''SET'' then answer h c [replyOK]
              else answer h c [WError ''ERR unknown subcommand'']))"

definition cmdClient :: "'n CommandFunc" where
  "cmdClient E h c args =
     (case args of
        [] \<Rightarrow> answer h c [wrongArgs ''client'']
      | a # _ \<Rightarrow>
          (let subcmd = strings_ToUpper (e_upper E) a
           in if subcmd = ''SETNAME'' then answer h c [replyOK]
              else if subcmd = ''GETNAME'' then answer h c [WNull]
              else if subcmd = ''LIST'' then answer h c [WBulk []]
              else answer h c [replyOK]))"

definition cmdAsking :: "'n CommandFunc" where
  "cmdAsking E h c args = answer h (c\<lparr> cn_AskingFlag := True \<rparr>) [replyOK]"

section \<open>Strings\<close>

definition cmdGet :: "'n CommandFunc" where
  "cmdGet E h c args =
     (case args of
        [key] \<Rightarrow> engineCall h c (\<lambda>s. st_GetBytes (e_now E) s key) (dataReply replyBulk)
      | _ \<Rightarrow> answer h c [wrongArgs ''get''])"

text \<open>The options of \<^verbatim>\<open>SET\<close>: the error, or the time to live and the flags. Words that are no option are skipped.\<close>

fun setOptions :: "(string \<Rightarrow> string) \<Rightarrow> string list \<Rightarrow> int \<times> bool \<times> bool \<Rightarrow> reply + (int \<times> bool \<times> bool)" where
  "setOptions up [] opts = Inr opts"
| "setOptions up [a] (ttl, nx, xx) =
     (if up a = ''EX'' \<or> up a = ''PX'' then Inl (WError ''ERR syntax error'')
      else if up a = ''NX'' then Inr (ttl, True, xx)
      else if up a = ''XX'' then Inr (ttl, nx, True)
      else Inr (ttl, nx, xx))"
| "setOptions up (a # b # rest) (ttl, nx, xx) =
     (if up a = ''EX'' then
        (case ParseInt b of None \<Rightarrow> Inl notInteger | Some secs \<Rightarrow> setOptions up rest (seconds secs, nx, xx))
      else if up a = ''PX'' then
        (case ParseInt b of None \<Rightarrow> Inl notInteger | Some ms \<Rightarrow> setOptions up rest (millis ms, nx, xx))
      else if up a = ''NX'' then setOptions up (b # rest) (ttl, True, xx)
      else if up a = ''XX'' then setOptions up (b # rest) (ttl, nx, True)
      else setOptions up (b # rest) (ttl, nx, xx))"

text \<open>The closure of \<^verbatim>\<open>cmdSet\<close>.\<close>

definition setApply :: "'n Env \<Rightarrow> string \<Rightarrow> string \<Rightarrow> int \<Rightarrow> bool \<Rightarrow> bool \<Rightarrow> Store \<Rightarrow> (Store \<times> unit res) go" where
  "setApply E key val ttl nx xx s =
     (let done = (\<lambda>r. case r of Inl e \<Rightarrow> Inl e | Inr ok \<Rightarrow> if ok then Inr () else Inl errReplicationNoop)
      in if nx then do { (s', r) \<leftarrow> st_SetNX (e_now E) s key val ttl; Some (s', done r) }
         else if xx then do { (s', r) \<leftarrow> st_SetXX (e_now E) (e_mem E) s key val ttl; Some (s', done r) }
         else st_Set (e_now E) (e_mem E) s key val ttl)"

definition cmdSet :: "'n CommandFunc" where
  "cmdSet E h c args =
     (case args of
        key # val # rest \<Rightarrow>
          (case setOptions (strings_ToUpper (e_upper E)) rest (0, False, False) of
             Inl e \<Rightarrow> answer h c [e]
           | Inr (ttl, nx, xx) \<Rightarrow>
               if nx \<and> xx then answer h c [WError ''ERR XX and NX options at the same time are not compatible'']
               else let expireAtNs = (if ttl > 0 then i64 (e_now E + ttl) else 0)
                    in do { (h', r) \<leftarrow> applyReplicationWrite E h key ''SET'' (encodeReplicationPayload args) expireAtNs
                                      (setApply E key val ttl nx xx);
                            answer h' c (if r = Inl errReplicationNoop then [WNull] else dataReply (\<lambda>_. [replyOK]) r) })
      | _ \<Rightarrow> answer h c [wrongArgs ''set''])"

definition cmdSetNX :: "'n CommandFunc" where
  "cmdSetNX E h c args =
     (case args of
        [key, val] \<Rightarrow> engineCall h c (\<lambda>s. st_SetNX (e_now E) s key val 0) (\<lambda>r. replyBool (r = Inr True))
      | _ \<Rightarrow> answer h c [wrongArgs ''setnx''])"

text \<open>\<^verbatim>\<open>cmdSetEX\<close> and \<^verbatim>\<open>cmdPSetEX\<close>, with their name and their unit.\<close>

definition cmdSetEX :: "string \<Rightarrow> (int \<Rightarrow> int) \<Rightarrow> 'n CommandFunc" where
  "cmdSetEX name unit E h c args =
     (case args of
        [key, n, val] \<Rightarrow>
          withInt h c n (\<lambda>i. engineCall h c (\<lambda>s. st_Set (e_now E) (e_mem E) s key val (unit i)) (\<lambda>_. [replyOK]))
      | _ \<Rightarrow> answer h c [wrongArgs name])"

definition cmdMGet :: "'n CommandFunc" where
  "cmdMGet E h c args =
     (if args = [] then answer h c [wrongArgs ''mget'']
      else engineCall h c (\<lambda>s. st_MGetBytes (e_now E) s args)
             (\<lambda>rs. WArray (int (length rs)) # map (\<lambda>r. case r of None \<Rightarrow> WNull | Some v \<Rightarrow> WBulk v) rs))"

definition cmdMSet :: "'n CommandFunc" where
  "cmdMSet E h c args =
     (if length args < 2 \<or> length args mod 2 \<noteq> 0 then answer h c [wrongArgs ''mset'']
      else do { (h', r) \<leftarrow> applyReplicationWrite E h (hd args) ''MSET'' (encodeReplicationPayload args) 0
                             (\<lambda>s. st_MSet (e_now E) (e_mem E) s (map IStr args));
                answer h' c (dataReply (\<lambda>_. [replyOK]) r) })"

text \<open>\<^verbatim>\<open>INCR\<close> and \<^verbatim>\<open>DECR\<close>, \<^verbatim>\<open>INCRBY\<close> and \<^verbatim>\<open>DECRBY\<close>: the same code with another operation of the engine.\<close>

definition cmdIncr :: "string \<Rightarrow> (int \<Rightarrow> Store \<Rightarrow> string \<Rightarrow> (Store \<times> int res) go) \<Rightarrow> 'n CommandFunc" where
  "cmdIncr name op E h c args =
     (case args of
        [key] \<Rightarrow> engineCall h c (\<lambda>s. op (e_now E) s key) (dataReply replyInt)
      | _ \<Rightarrow> answer h c [wrongArgs name])"

definition cmdIncrBy :: "string \<Rightarrow> (int \<Rightarrow> Store \<Rightarrow> string \<Rightarrow> int \<Rightarrow> (Store \<times> int res) go) \<Rightarrow> 'n CommandFunc" where
  "cmdIncrBy name op E h c args =
     (case args of
        [key, n] \<Rightarrow> withInt h c n (\<lambda>delta. engineCall h c (\<lambda>s. op (e_now E) s key delta) (dataReply replyInt))
      | _ \<Rightarrow> answer h c [wrongArgs name])"

definition cmdAppend :: "'n CommandFunc" where
  "cmdAppend E h c args =
     (case args of
        [key, val] \<Rightarrow> engineCall h c (\<lambda>s. st_Append (e_now E) (e_mem E) s key val) (dataReply replyInt)
      | _ \<Rightarrow> answer h c [wrongArgs ''append''])"

definition cmdStrlen :: "'n CommandFunc" where
  "cmdStrlen E h c args =
     (case args of
        [key] \<Rightarrow> engineCall h c (\<lambda>s. st_Strlen (e_now E) s key) (dataReply replyInt)
      | _ \<Rightarrow> answer h c [wrongArgs ''strlen''])"

definition cmdGetSet :: "'n CommandFunc" where
  "cmdGetSet E h c args =
     (case args of
        [key, val] \<Rightarrow>
          engineCall h c (\<lambda>s. st_GetSet (e_now E) (e_mem E) s key val)
            (dataReply (\<lambda>old. if old = [] then [WNull] else [WBulk old]))
      | _ \<Rightarrow> answer h c [wrongArgs ''getset''])"

section \<open>Hashes, lists, sets and sorted sets\<close>

definition cmdHGet :: "'n CommandFunc" where
  "cmdHGet E h c args =
     (case args of
        [key, field] \<Rightarrow> engineCall h c (\<lambda>s. st_HGet (e_now E) s key field) (dataReply replyBulk)
      | _ \<Rightarrow> answer h c [wrongArgs ''hget''])"

definition cmdHSet :: "'n CommandFunc" where
  "cmdHSet E h c args =
     (if length args < 3 \<or> length args mod 2 = 0 then answer h c [wrongArgs ''hset'']
      else do { (h', r) \<leftarrow> applyReplicationWrite E h (hd args) ''HSET'' (encodeReplicationPayload args) 0
                             (\<lambda>s. st_HSet (e_now E) s (hd args) (map IStr (tl args)));
                answer h' c (dataReply replyInt r) })"

definition cmdHDel :: "'n CommandFunc" where
  "cmdHDel E h c args =
     (case args of
        key # f # fs \<Rightarrow> engineCall h c (\<lambda>s. st_HDel (e_now E) s key (f # fs)) (dataReply replyInt)
      | _ \<Rightarrow> answer h c [wrongArgs ''hdel''])"

definition cmdHExists :: "'n CommandFunc" where
  "cmdHExists E h c args =
     (case args of
        [key, field] \<Rightarrow> engineCall h c (\<lambda>s. st_HExists (e_now E) s key field) (dataReply replyBool)
      | _ \<Rightarrow> answer h c [wrongArgs ''hexists''])"

definition cmdHGetAll :: "'n CommandFunc" where
  "cmdHGetAll E h c args =
     (case args of
        [key] \<Rightarrow>
          engineCall h c (\<lambda>s. st_HGetAll (e_now E) s key)
            (dataReply (\<lambda>m. WArray (int (length m) * 2) #
               concat (map (\<lambda>f. [WBulk f, WBulk (mget0 [] m f)]) (sort (mkeys m)))))
      | _ \<Rightarrow> answer h c [wrongArgs ''hgetall''])"

text \<open>\<^verbatim>\<open>HKEYS\<close> and \<^verbatim>\<open>HVALS\<close>, which differ in the operation of the engine.\<close>

definition cmdHList :: "string \<Rightarrow> (int \<Rightarrow> Store \<Rightarrow> string \<Rightarrow> (Store \<times> string list res) go) \<Rightarrow> 'n CommandFunc" where
  "cmdHList name op E h c args =
     (case args of
        [key] \<Rightarrow> engineCall h c (\<lambda>s. op (e_now E) s key) (dataReply replyArray)
      | _ \<Rightarrow> answer h c [wrongArgs name])"

definition cmdHLen :: "'n CommandFunc" where
  "cmdHLen E h c args =
     (case args of
        [key] \<Rightarrow> engineCall h c (\<lambda>s. st_HLen (e_now E) s key) (dataReply replyInt)
      | _ \<Rightarrow> answer h c [wrongArgs ''hlen''])"

definition cmdPushList :: "bool \<Rightarrow> 'n CommandFunc" where
  "cmdPushList left E h c args =
     (case args of
        key # v # vals \<Rightarrow>
          engineCall h c (\<lambda>s. if left then st_LPush (e_now E) s key (map IStr (v # vals))
                              else st_RPush (e_now E) s key (map IStr (v # vals))) (dataReply replyInt)
      | _ \<Rightarrow> answer h c [WError ''ERR wrong number of arguments for list push command''])"

definition cmdPopList :: "bool \<Rightarrow> 'n CommandFunc" where
  "cmdPopList left E h c args =
     (case args of
        [key] \<Rightarrow>
          engineCall h c (\<lambda>s. if left then st_LPop (e_now E) s key else st_RPop (e_now E) s key) (dataReply replyBulk)
      | _ \<Rightarrow> answer h c [WError ''ERR wrong number of arguments for list pop command''])"

definition cmdLRange :: "'n CommandFunc" where
  "cmdLRange E h c args =
     (case args of
        [key, a, b] \<Rightarrow>
          withInt h c a (\<lambda>start. withInt h c b (\<lambda>stop.
            engineCall h c (\<lambda>s. st_LRange (e_now E) s key start stop) (dataReply replyArray)))
      | _ \<Rightarrow> answer h c [wrongArgs ''lrange''])"

definition cmdLLen :: "'n CommandFunc" where
  "cmdLLen E h c args =
     (case args of
        [key] \<Rightarrow> engineCall h c (\<lambda>s. st_LLen (e_now E) s key) (dataReply replyInt)
      | _ \<Rightarrow> answer h c [wrongArgs ''llen''])"

definition cmdLIndex :: "'n CommandFunc" where
  "cmdLIndex E h c args =
     (case args of
        [key, a] \<Rightarrow>
          withInt h c a (\<lambda>index. engineCall h c (\<lambda>s. st_LIndex (e_now E) s key index) (dataReply replyBulk))
      | _ \<Rightarrow> answer h c [wrongArgs ''lindex''])"

definition cmdLSet :: "'n CommandFunc" where
  "cmdLSet E h c args =
     (case args of
        [key, a, val] \<Rightarrow>
          withInt h c a (\<lambda>index. engineCall h c (\<lambda>s. st_LSet (e_now E) s key index val) (dataReply (\<lambda>_. [replyOK])))
      | _ \<Rightarrow> answer h c [wrongArgs ''lset''])"

definition cmdLTrim :: "'n CommandFunc" where
  "cmdLTrim E h c args =
     (case args of
        [key, a, b] \<Rightarrow>
          withInt h c a (\<lambda>start. withInt h c b (\<lambda>stop.
            engineCall h c (\<lambda>s. st_LTrim (e_now E) s key start stop) (dataReply (\<lambda>_. [replyOK]))))
      | _ \<Rightarrow> answer h c [wrongArgs ''ltrim''])"

text \<open>\<^verbatim>\<open>SADD\<close> and \<^verbatim>\<open>SREM\<close>, which differ in the operation of the engine.\<close>

definition cmdSAdd :: "string \<Rightarrow> (int \<Rightarrow> Store \<Rightarrow> string \<Rightarrow> iface list \<Rightarrow> (Store \<times> int res) go) \<Rightarrow> 'n CommandFunc" where
  "cmdSAdd name op E h c args =
     (case args of
        key # m # ms \<Rightarrow> engineCall h c (\<lambda>s. op (e_now E) s key (map IStr (m # ms))) (dataReply replyInt)
      | _ \<Rightarrow> answer h c [wrongArgs name])"

definition cmdSMembers :: "'n CommandFunc" where
  "cmdSMembers E h c args =
     (case args of
        [key] \<Rightarrow> engineCall h c (\<lambda>s. st_SMembers (e_now E) s key) (dataReply replyArray)
      | _ \<Rightarrow> answer h c [wrongArgs ''smembers''])"

definition cmdSIsMember :: "'n CommandFunc" where
  "cmdSIsMember E h c args =
     (case args of
        [key, member] \<Rightarrow> engineCall h c (\<lambda>s. st_SIsMember (e_now E) s key member) (dataReply replyBool)
      | _ \<Rightarrow> answer h c [wrongArgs ''sismember''])"

definition cmdSCard :: "'n CommandFunc" where
  "cmdSCard E h c args =
     (case args of
        [key] \<Rightarrow> engineCall h c (\<lambda>s. st_SCard (e_now E) s key) (dataReply replyInt)
      | _ \<Rightarrow> answer h c [wrongArgs ''scard''])"

fun zaddArgs :: "(string \<Rightarrow> float64 option) \<Rightarrow> string list \<Rightarrow> ZMember list option" where
  "zaddArgs pf (a # m # rest) = do { score \<leftarrow> pf a; ms \<leftarrow> zaddArgs pf rest; Some (ZMember score m # ms) }"
| "zaddArgs pf _ = Some []"

definition cmdZAdd :: "'n CommandFunc" where
  "cmdZAdd E h c args =
     (if length args < 3 \<or> length args mod 2 = 0 then answer h c [wrongArgs ''zadd'']
      else case zaddArgs (e_ParseFloat E) (tl args) of
             None \<Rightarrow> answer h c [WError ''ERR value is not a valid float'']
           | Some ms \<Rightarrow> engineCall h c (\<lambda>s. st_ZAdd (e_now E) s (hd args) ms) (dataReply replyInt))"

definition cmdZRem :: "'n CommandFunc" where
  "cmdZRem E h c args =
     (case args of
        key # m # ms \<Rightarrow> engineCall h c (\<lambda>s. st_ZRem (e_now E) s key (m # ms)) (dataReply replyInt)
      | _ \<Rightarrow> answer h c [wrongArgs ''zrem''])"

definition cmdZRange :: "'n CommandFunc" where
  "cmdZRange E h c args =
     (case args of
        [key, a, b] \<Rightarrow>
          withInt h c a (\<lambda>start. withInt h c b (\<lambda>stop.
            engineCall h c (\<lambda>s. st_ZRange (e_now E) s key start stop) (dataReply replyArray)))
      | _ \<Rightarrow> answer h c [wrongArgs ''zrange''])"

definition cmdZScore :: "'n CommandFunc" where
  "cmdZScore E h c args =
     (case args of
        [key, member] \<Rightarrow>
          engineCall h c (\<lambda>s. st_ZScore (e_now E) s key member) (dataReply (\<lambda>x. replyBulk (e_FormatFloat E x)))
      | _ \<Rightarrow> answer h c [wrongArgs ''zscore''])"

definition cmdZRank :: "'n CommandFunc" where
  "cmdZRank E h c args =
     (case args of
        [key, member] \<Rightarrow> engineCall h c (\<lambda>s. st_ZRank (e_now E) s key member) (dataReply replyInt)
      | _ \<Rightarrow> answer h c [wrongArgs ''zrank''])"

definition cmdZCard :: "'n CommandFunc" where
  "cmdZCard E h c args =
     (case args of
        [key] \<Rightarrow> engineCall h c (\<lambda>s. st_ZCard (e_now E) s key) (dataReply replyInt)
      | _ \<Rightarrow> answer h c [wrongArgs ''zcard''])"

section \<open>Keys and expiry\<close>

definition cmdDel :: "'n CommandFunc" where
  "cmdDel E h c args =
     (if args = [] then answer h c [wrongArgs ''del'']
      else do { (h', r) \<leftarrow> applyReplicationWrite E h (hd args) ''DEL'' (encodeReplicationPayload args) 0
                             (\<lambda>s. do { (s', n) \<leftarrow> st_Del s args; Some (s', Inr n) });
                answer h' c (dataReply replyInt r) })"

definition cmdExists :: "'n CommandFunc" where
  "cmdExists E h c args =
     (if args = [] then answer h c [wrongArgs ''exists'']
      else engineCall h c (\<lambda>s. st_Exists (e_now E) s args) replyInt)"

definition cmdKeys :: "'n CommandFunc" where
  "cmdKeys E h c args =
     (case args of
        [pattern] \<Rightarrow> engineCall h c (\<lambda>s. do { keys \<leftarrow> st_Keys (e_now E) s pattern; Some (s, keys) }) replyArray
      | _ \<Rightarrow> answer h c [wrongArgs ''keys''])"

definition cmdType :: "'n CommandFunc" where
  "cmdType E h c args =
     (case args of
        [key] \<Rightarrow> engineCall h c (\<lambda>s. st_Type (e_now E) s key) (\<lambda>t. [WString t])
      | _ \<Rightarrow> answer h c [wrongArgs ''type''])"

definition cmdRename :: "'n CommandFunc" where
  "cmdRename E h c args =
     (case args of
        [key, newkey] \<Rightarrow>
          do { (h', r) \<leftarrow> applyReplicationWrite E h key ''RENAME'' (encodeReplicationPayload args) 0
                            (\<lambda>s. st_Rename (e_now E) s key newkey);
               answer h' c [okOrErr r] }
      | _ \<Rightarrow> answer h c [wrongArgs ''rename''])"

definition cmdDBSize :: "'n CommandFunc" where
  "cmdDBSize E h c args = answer h c (replyInt (st_DBSize (h_engine h)))"

definition cmdFlushDB :: "'n CommandFunc" where
  "cmdFlushDB E h c args = answer (h\<lparr> h_engine := st_FlushDB (h_engine h) \<rparr>) c [replyOK]"

text \<open>The common part of the commands that set an expiry time: \<open>op\<close> is the operation of the engine.\<close>

definition expireWrite ::
  "'n Env \<Rightarrow> 'n Handler \<Rightarrow> Conn \<Rightarrow> string list \<Rightarrow> string \<Rightarrow> int \<Rightarrow> (Store \<Rightarrow> (Store \<times> bool) go) \<Rightarrow> ('n Handler \<times> Conn) go" where
  "expireWrite E h c args opType expireAtNs op =
     do { (h', r) \<leftarrow> applyReplicationWrite E h (hd args) opType (encodeReplicationPayload args) expireAtNs
                       (\<lambda>s. do { (s', ok) \<leftarrow> op s; Some (s', Inr ok) });
          answer h' c (dataReply replyBool r) }"

definition cmdExpire :: "'n CommandFunc" where
  "cmdExpire E h c args =
     (case args of
        [key, a] \<Rightarrow>
          withInt h c a (\<lambda>secs. expireWrite E h c args ''EXPIRE'' (i64 (e_now E + seconds secs))
            (\<lambda>s. st_Expire (e_now E) s key (seconds secs)))
      | _ \<Rightarrow> answer h c [wrongArgs ''expire''])"

definition cmdExpireAt :: "'n CommandFunc" where
  "cmdExpireAt E h c args =
     (case args of
        [key, a] \<Rightarrow>
          withInt h c a (\<lambda>ts. expireWrite E h c args ''EXPIREAT'' (seconds ts)
            (\<lambda>s. st_ExpireAt (e_now E) s key (ts * 1000000000)))
      | _ \<Rightarrow> answer h c [wrongArgs ''expireat''])"

definition cmdPExpire :: "'n CommandFunc" where
  "cmdPExpire E h c args =
     (case args of
        [key, a] \<Rightarrow>
          withInt h c a (\<lambda>ms. expireWrite E h c args ''PEXPIRE'' (i64 (e_now E + millis ms))
            (\<lambda>s. st_Expire (e_now E) s key (millis ms)))
      | _ \<Rightarrow> answer h c [wrongArgs ''pexpire''])"

text \<open>\<^verbatim>\<open>cmdTTL\<close> and \<^verbatim>\<open>cmdPTTL\<close>, with their name and their unit in nanoseconds.\<close>

definition cmdTTL :: "string \<Rightarrow> int \<Rightarrow> 'n CommandFunc" where
  "cmdTTL name unit E h c args =
     (case args of
        [key] \<Rightarrow> engineCall h c (\<lambda>s. st_TTL (e_now E) s key) (\<lambda>ttl. replyInt (quotient ttl unit))
      | _ \<Rightarrow> answer h c [wrongArgs name])"

definition cmdPersist :: "'n CommandFunc" where
  "cmdPersist E h c args =
     (case args of
        [key] \<Rightarrow> expireWrite E h c args ''PERSIST'' 0 (\<lambda>s. st_Persist (e_now E) s key)
      | _ \<Rightarrow> answer h c [wrongArgs ''persist''])"

section \<open>Snapshots\<close>

text \<open>The closure of \<^verbatim>\<open>cmdSave\<close> and \<^verbatim>\<open>cmdBGSAVE\<close>: the keys and their serialised values; keys that are gone or cannot be
  serialised are left out.\<close>

fun snapshotData :: "Json \<Rightarrow> int \<Rightarrow> Store \<Rightarrow> string list \<Rightarrow> (Store \<times> (string \<times> string) list) go" where
  "snapshotData J now s [] = Some (s, [])"
| "snapshotData J now s (key # keys) =
     do { (s1, r) \<leftarrow> st_GetEntry now s key;
          (s2, rest) \<leftarrow> snapshotData J now s1 keys;
          Some (s2, case r of
                      Inl _ \<Rightarrow> rest
                    | Inr entry \<Rightarrow> (case SerializeEntryValue J (Some entry) of Inl _ \<Rightarrow> rest | Inr v \<Rightarrow> (key, v) # rest)) }"

definition snapshotLine :: "string \<times> string \<Rightarrow> string" where
  "snapshotLine e = (case e of (key, val) \<Rightarrow>
     FormatInt (int (length key)) @ '' '' @ key @ '' '' @ FormatInt (int (length val)) @ '' '' @ val @ [LF])"

text \<open>\<^verbatim>\<open>SnapshotWriter.Save\<close> (\<^verbatim>\<open>internal/persistence/snapshot.go\<close>): the lines are written in the order of the map.\<close>

definition sw_Save :: "'n Env \<Rightarrow> SnapshotWriter \<Rightarrow> Store \<Rightarrow> (SnapshotWriter \<times> Store \<times> unit res) go" where
  "sw_Save E sw s =
     do { keys \<leftarrow> st_Keys (e_now E) s ''*'';
          (s', data) \<leftarrow> snapshotData (e_json E) (e_now E) s keys;
          let file = concat (e_order E (map snapshotLine data));
          Some (case e_disk E file of
                  Inl e \<Rightarrow> (sw, s', Inl e)
                | Inr _ \<Rightarrow> (\<lparr> sw_lastSaveUnix = e_now E div 1000000000, sw_file = file \<rparr>, s', Inr ())) }"

definition cmdSave :: "'n CommandFunc" where
  "cmdSave E h c args =
     (if args \<noteq> [] then answer h c [wrongArgs ''save'']
      else case h_snapshot h of
             None \<Rightarrow> answer h c [WError ''ERR persistence not configured'']
           | Some sw \<Rightarrow>
               do { (sw', s, r) \<leftarrow> sw_Save E sw (h_engine h);
                    answer (h\<lparr> h_snapshot := Some sw', h_engine := s \<rparr>) c [okOrErr r] })"

text \<open>\<^verbatim>\<open>cmdBGSAVE\<close> only starts the goroutine; \<open>backgroundSave\<close> is what the goroutine does, at a later time.\<close>

definition cmdBGSAVE :: "'n CommandFunc" where
  "cmdBGSAVE E h c args =
     (if args \<noteq> [] then answer h c [wrongArgs ''bgsave'']
      else if h_snapshot h = None then answer h c [WError ''ERR persistence not configured'']
      else answer h c [WString ''Background saving started''])"

definition backgroundSave :: "'n Env \<Rightarrow> 'n Handler \<Rightarrow> 'n Handler go" where
  "backgroundSave E h =
     (case h_snapshot h of
        None \<Rightarrow> Some h
      | Some sw \<Rightarrow>
          do { (sw', s, _) \<leftarrow> sw_Save E sw (h_engine h); Some (h\<lparr> h_snapshot := Some sw', h_engine := s \<rparr>) })"

definition cmdLastSave :: "'n CommandFunc" where
  "cmdLastSave E h c args =
     (if args \<noteq> [] then answer h c [wrongArgs ''lastsave'']
      else case h_snapshot h of None \<Rightarrow> answer h c [WInt 0] | Some sw \<Rightarrow> answer h c [WInt (sw_lastSaveUnix sw)])"

section \<open>Migration and replication commands\<close>

definition cmdRestore :: "'n CommandFunc" where
  "cmdRestore E h c args =
     (case args of
        key # t # serialized # opts \<Rightarrow>
          (case ParseInt t of
             None \<Rightarrow> answer h c [WError ''ERR invalid TTL value'']
           | Some ttlMs \<Rightarrow>
               do { (s1, n) \<leftarrow> (if \<exists>a \<in> set opts. strings_ToUpper (e_upper E) a = ''REPLACE'' then Some (h_engine h, 0)
                               else st_Exists (e_now E) (h_engine h) [key]);
                    let h1 = h\<lparr> h_engine := s1 \<rparr>;
                    if n > 0 then answer h1 c [WError ''BUSYKEY Target key name already exists.'']
                    else case serialized of
                           [] \<Rightarrow> answer h1 c [WError ''ERR invalid serialized value'']
                         | b # payload \<Rightarrow>
                             engineCall h1 c
                               (\<lambda>s. st_RestoreEntry (e_json E) (e_now E) (e_mem E) s key (int (of_char b)) payload
                                      (if ttlMs > 0 then millis ttlMs else 0))
                               (\<lambda>r. [okOrErr r]) })
      | _ \<Rightarrow> answer h c [wrongArgs ''restore''])"

text \<open>The options of \<^verbatim>\<open>MIGRATE\<close>: \<^verbatim>\<open>COPY\<close>, \<^verbatim>\<open>REPLACE\<close>, and after \<^verbatim>\<open>KEYS\<close> the keys.\<close>

fun migrateOptions :: "(string \<Rightarrow> string) \<Rightarrow> string list \<Rightarrow> bool \<Rightarrow> bool \<Rightarrow> bool \<times> bool \<times> string list option" where
  "migrateOptions up [] cp rp = (cp, rp, None)"
| "migrateOptions up (a # rest) cp rp =
     (if up a = ''COPY'' then migrateOptions up rest True rp
      else if up a = ''REPLACE'' then migrateOptions up rest cp True
      else if up a = ''KEYS'' then (cp, rp, Some rest)
      else migrateOptions up rest cp rp)"

record migrateItem =
  mi_key :: string
  mi_ttlMs :: int
  mi_serialized :: string

text \<open>The loop that reads the keys to move; an answer ends the command.\<close>

fun migrateCollect :: "Json \<Rightarrow> int \<Rightarrow> bool \<Rightarrow> Store \<Rightarrow> string list \<Rightarrow> (Store \<times> (reply + migrateItem list)) go" where
  "migrateCollect J now keysMode s [] = Some (s, Inr [])"
| "migrateCollect J now keysMode s (key # keys) =
     do { (s1, r) \<leftarrow> st_GetEntry now s key;
          case r of
            Inl _ \<Rightarrow> if keysMode then migrateCollect J now keysMode s1 keys else Some (s1, Inl (WError ''ERR no such key''))
          | Inr entry \<Rightarrow>
              (let ttlMs = remainingMs now (ee_ExpireAt entry)
               in if ttlMs < 0 then
                    (if keysMode then migrateCollect J now keysMode s1 keys else Some (s1, Inl (WString ''NOKEY'')))
                  else case SerializeEntryValue J (Some entry) of
                         Inl _ \<Rightarrow> Some (s1, Inl (WError ''ERR unsupported value type for migration''))
                       | Inr serialized \<Rightarrow>
                           do { (s2, rest) \<leftarrow> migrateCollect J now keysMode s1 keys;
                                Some (s2, map_sum id (\<lambda>items. \<lparr> mi_key = key, mi_ttlMs = ttlMs, mi_serialized = serialized \<rparr> # items)
                                            rest) }) }"

definition JoinHostPort :: "string \<Rightarrow> string \<Rightarrow> string" where
  "JoinHostPort host port = (if CHR '':'' \<in> set host then ''['' @ host @ '']:'' @ port else host @ '':'' @ port)"

text \<open>\<^verbatim>\<open>strings.TrimSpace\<close>; \<open>uni\<close> is what it does for strings that are not ASCII.\<close>

definition strings_TrimSpace :: "(string \<Rightarrow> string) \<Rightarrow> string \<Rightarrow> string" where
  "strings_TrimSpace uni s =
     (let sp = (\<lambda>c. isSpace (of_char c))
      in if list_all (\<lambda>c. of_char c < (128 :: nat)) s then rev (dropWhile sp (rev (dropWhile sp s))) else uni s)"

text \<open>One attempt to move a key: nothing, or the error and whether to try again. The deadline is part of
  opening the connection.\<close>

definition migrateOnce ::
  "'n Env \<Rightarrow> 'n \<Rightarrow> string \<Rightarrow> bool \<Rightarrow> migrateItem \<Rightarrow> 'n \<times> (string \<times> bool) option" where
  "migrateOnce E n addr replace item =
     (case net_dial (e_net E) n addr of
        (n1, Inl e) \<Rightarrow> (n1, Some (''IOERR error or timeout connecting to the target instance: '' @ errText e, True))
      | (n1, Inr _) \<Rightarrow>
          (case net_ask (e_net E) n1 addr (resp_array [''ASKING'']) of
             (n2, Inl (w, e)) \<Rightarrow>
               (n2, Some ((if w then ''IOERR error writing to target: '' else ''IOERR error reading from target: '') @ errText e, True))
           | (n2, Inr resp) \<Rightarrow>
               if resp \<noteq> ''+OK'' @ CRLF then (n2, Some (''ERR target node returned error on ASKING: '' @ resp, False))
               else (case net_ask (e_net E) n2 addr
                            (resp_array ([''RESTORE'', mi_key item, FormatInt (mi_ttlMs item), mi_serialized item] @
                                         (if replace then [''REPLACE''] else []))) of
                       (n3, Inl (w, e)) \<Rightarrow>
                         (n3, Some ((if w then ''IOERR error writing RESTORE to target: ''
                                     else ''IOERR error reading RESTORE response: '') @ errText e, True))
                     | (n3, Inr resp) \<Rightarrow>
                         if resp \<noteq> ''+OK'' @ CRLF
                         then (n3, Some (''ERR target node returned error: '' @ strings_TrimSpace (e_trim E) resp, False))
                         else (n3, None))))"

text \<open>\<^verbatim>\<open>migrateWithRetry\<close>, with the number of attempts that are left after this one.\<close>

fun migrateWithRetry :: "'n Env \<Rightarrow> 'n \<Rightarrow> string \<Rightarrow> bool \<Rightarrow> migrateItem \<Rightarrow> nat \<Rightarrow> 'n \<times> string option" where
  "migrateWithRetry E n addr replace item 0 = map_prod id (map_option fst) (migrateOnce E n addr replace item)"
| "migrateWithRetry E n addr replace item (Suc k) =
     (case migrateOnce E n addr replace item of
        (n', None) \<Rightarrow> (n', None)
      | (n', Some (msg, retry)) \<Rightarrow> if retry then migrateWithRetry E n' addr replace item k else (n', Some msg))"

fun migrateItems ::
  "'n Env \<Rightarrow> string \<Rightarrow> bool \<Rightarrow> bool \<Rightarrow> Store \<Rightarrow> 'n \<Rightarrow> migrateItem list \<Rightarrow> (Store \<times> 'n \<times> reply) go" where
  "migrateItems E addr cp rp s n [] = Some (s, n, replyOK)"
| "migrateItems E addr cp rp s n (item # items) =
     (case migrateWithRetry E n addr rp item 3 of
        (n', Some msg) \<Rightarrow> Some (s, n', WError msg)
      | (n', None) \<Rightarrow>
          if cp then migrateItems E addr cp rp s n' items
          else do { (s', _) \<leftarrow> st_Del s [mi_key item]; migrateItems E addr cp rp s' n' items })"

definition cmdMigrate :: "'n CommandFunc" where
  "cmdMigrate E h c args =
     (case args of
        host # port # key # d # t # opts \<Rightarrow>
          (case ParseInt d of
             None \<Rightarrow> answer h c [WError ''ERR invalid DB index'']
           | Some db \<Rightarrow>
               if h_cluster h \<noteq> None \<and> db \<noteq> 0 then answer h c [WError ''ERR Target DB is not 0 in cluster mode'']
               else if ParseInt t = None then answer h c [WError ''ERR invalid timeout'']
               else case migrateOptions (strings_ToUpper (e_upper E)) opts False False of
                 (cp, rp, keys) \<Rightarrow>
                   if keys \<noteq> None \<and> key \<noteq> [] then answer h c [WError ''ERR key argument must be empty when using KEYS'']
                   else if keys = Some [] then answer h c [wrongArgs ''migrate'']
                   else do {
                     (s1, r) \<leftarrow> migrateCollect (e_json E) (e_now E) (keys \<noteq> None) (h_engine h)
                                 (case keys of None \<Rightarrow> [key] | Some ks \<Rightarrow> ks);
                     let h1 = h\<lparr> h_engine := s1 \<rparr>;
                     case r of
                       Inl rep \<Rightarrow> answer h1 c [rep]
                     | Inr items \<Rightarrow>
                         if keys \<noteq> None \<and> items = [] then answer h1 c [WString ''NOKEY'']
                         else do { (s2, n, rep) \<leftarrow> migrateItems E (JoinHostPort host port) cp rp s1 (h_net h) items;
                                   answer (h1\<lparr> h_engine := s2, h_net := n \<rparr>) c [rep] } })
      | _ \<Rightarrow> answer h c [wrongArgs ''migrate''])"

definition cmdRegReplica :: "'n CommandFunc" where
  "cmdRegReplica E h c args =
     (case args of [_] \<Rightarrow> answer h c [replyOK] | _ \<Rightarrow> answer h c [wrongArgs ''regreplica''])"

definition parseUint16 :: "string \<Rightarrow> 16 word option" where
  "parseUint16 s = (case parse_digits s of None \<Rightarrow> None | Some n \<Rightarrow> if n < 2 ^ 16 then Some (of_nat n) else None)"

definition cmdReplApply :: "'n CommandFunc" where
  "cmdReplApply E h c args =
     (case args of
        [a0, a1, a2, opType, key, a5, payload] \<Rightarrow>
          (case h_cluster h of
             None \<Rightarrow> answer h c [WError ''ERR cluster is required for replapply'']
           | Some _ \<Rightarrow>
               (case parseUint16 a0 of None \<Rightarrow> answer h c [WError ''ERR invalid slot''] | Some slot \<Rightarrow>
               (case ParseUint a1 of None \<Rightarrow> answer h c [WError ''ERR invalid epoch''] | Some epoch \<Rightarrow>
               (case ParseUint a2 of None \<Rightarrow> answer h c [WError ''ERR invalid lsn''] | Some lsn \<Rightarrow>
               (case ParseInt a5 of None \<Rightarrow> answer h c [WError ''ERR invalid expireAtNs''] | Some expireAtNs \<Rightarrow>
                  (let op = \<lparr> op_Slot = slot, op_Epoch = epoch, op_LSN = lsn, OpType = opType, op_Key = key,
                              Payload = payload, ExpireAtNs = expireAtNs \<rparr>
                   in do { (h', r) \<leftarrow> applyIncomingReplicationOp E h op;
                           case r of
                             Inl e \<Rightarrow> answer h' c [WError (''ERR '' @ errText e)]
                           | Inr _ \<Rightarrow>
                               answer (h'\<lparr> h_cluster := map_option (\<lambda>cl. cl\<lparr> c_replication :=
                                          ReceiveTransportOp (c_replication cl) op \<rparr>) (h_cluster h') \<rparr>) c [replyOK] }))))))
      | _ \<Rightarrow> answer h c [wrongArgs ''replapply''])"

text \<open>The loop of \<^verbatim>\<open>WAIT\<close>, from the \<open>k\<close>-th look on.\<close>

partial_function (option) waitLoop ::
  "(nat \<Rightarrow> ReplManager \<times> int) \<Rightarrow> 16 word \<Rightarrow> 64 word \<Rightarrow> int \<Rightarrow> int \<Rightarrow> nat \<Rightarrow> int option" where
  "waitLoop polls slot needLSN required deadline k =
     (case polls k of (m, t) \<Rightarrow>
        (let ackCount = int (length (filter (\<lambda>ack. AppliedLSN ack \<ge> needLSN) (ReplicaProgressSnapshot m slot)))
         in if ackCount \<ge> required \<or> t > deadline then Some ackCount
            else waitLoop polls slot needLSN required deadline (Suc k)))"

definition cmdWait :: "'n CommandFunc" where
  "cmdWait E h c args =
     (case args of
        [a, b] \<Rightarrow>
          (case ParseInt a of
             None \<Rightarrow> answer h c [WError ''ERR invalid replica count'']
           | Some required \<Rightarrow>
               if required < 0 then answer h c [WError ''ERR invalid replica count'']
               else case ParseInt b of
                      None \<Rightarrow> answer h c [WError ''ERR invalid timeout'']
                    | Some timeoutMs \<Rightarrow>
                        if timeoutMs < 0 then answer h c [WError ''ERR invalid timeout'']
                        else if required = 0 \<or> h_cluster h = None \<or> h_lastWriteLSN h = 0 then answer h c [WInt 0]
                        else do { n \<leftarrow> waitLoop (e_polls E) (h_lastWriteSlot h) (h_lastWriteLSN h) required
                                         (e_now E + millis timeoutMs) 0;
                                  answer h c [WInt n] })
      | _ \<Rightarrow> answer h c [wrongArgs ''wait''])"

section \<open>The tables\<close>

text \<open>\<^verbatim>\<open>registerAll\<close> of \<^verbatim>\<open>cmdmap.go\<close> and \<^verbatim>\<open>registerCommands\<close>, which register the same names and functions in the same order.\<close>

definition registerAll :: "(string \<times> 'n CommandFunc) list" where
  "registerAll =
     [(''PING'', cmdPing), (''ECHO'', cmdEcho), (''QUIT'', cmdQuit), (''COMMAND'', cmdCommand), (''INFO'', cmdInfo),
      (''GET'', cmdGet), (''SET'', cmdSet), (''SETNX'', cmdSetNX), (''SETEX'', cmdSetEX ''setex'' seconds),
      (''PSETEX'', cmdSetEX ''psetex'' millis), (''MGET'', cmdMGet), (''MSET'', cmdMSet), (''HGET'', cmdHGet),
      (''HSET'', cmdHSet), (''HDEL'', cmdHDel), (''HEXISTS'', cmdHExists), (''HGETALL'', cmdHGetAll),
      (''HKEYS'', cmdHList ''hkeys'' st_HKeys), (''HVALS'', cmdHList ''hvals'' st_HVals), (''HLEN'', cmdHLen),
      (''LPUSH'', cmdPushList True), (''RPUSH'', cmdPushList False), (''LPOP'', cmdPopList True),
      (''RPOP'', cmdPopList False), (''LRANGE'', cmdLRange), (''LLEN'', cmdLLen), (''LINDEX'', cmdLIndex),
      (''LSET'', cmdLSet), (''LTRIM'', cmdLTrim), (''SADD'', cmdSAdd ''sadd'' st_SAdd),
      (''SREM'', cmdSAdd ''srem'' st_SRem), (''SMEMBERS'', cmdSMembers), (''SISMEMBER'', cmdSIsMember),
      (''SCARD'', cmdSCard), (''ZADD'', cmdZAdd), (''ZREM'', cmdZRem), (''ZRANGE'', cmdZRange),
      (''ZSCORE'', cmdZScore), (''ZRANK'', cmdZRank), (''ZCARD'', cmdZCard), (''INCR'', cmdIncr ''incr'' st_Incr),
      (''INCRBY'', cmdIncrBy ''incrby'' st_IncrBy), (''DECR'', cmdIncr ''decr'' st_Decr),
      (''DECRBY'', cmdIncrBy ''decrby'' st_DecrBy), (''APPEND'', cmdAppend), (''STRLEN'', cmdStrlen),
      (''GETSET'', cmdGetSet), (''DEL'', cmdDel), (''EXISTS'', cmdExists), (''KEYS'', cmdKeys), (''TYPE'', cmdType),
      (''RENAME'', cmdRename), (''DBSIZE'', cmdDBSize), (''FLUSHDB'', cmdFlushDB), (''FLUSHALL'', cmdFlushDB),
      (''EXPIRE'', cmdExpire), (''EXPIREAT'', cmdExpireAt), (''PEXPIRE'', cmdPExpire),
      (''TTL'', cmdTTL ''ttl'' 1000000000), (''PTTL'', cmdTTL ''pttl'' 1000000), (''PERSIST'', cmdPersist),
      (''DEBUG'', cmdDebug), (''CONFIG'', cmdConfig), (''CLIENT'', cmdClient), (''ASKING'', cmdAsking),
      (''RESTORE'', cmdRestore), (''MIGRATE'', cmdMigrate), (''REPLAPPLY'', cmdReplApply),
      (''REGREPLICA'', cmdRegReplica), (''WAIT'', cmdWait), (''BGSAVE'', cmdBGSAVE), (''SAVE'', cmdSave),
      (''LASTSAVE'', cmdLastSave)]"

definition keyCommands :: "string set" where
  "keyCommands =
     {''GET'', ''SET'', ''SETNX'', ''SETEX'', ''PSETEX'', ''GETSET'', ''HGET'', ''HSET'', ''HDEL'', ''HEXISTS'',
      ''HGETALL'', ''HKEYS'', ''HVALS'', ''HLEN'', ''LPUSH'', ''RPUSH'', ''LPOP'', ''RPOP'', ''LRANGE'', ''LLEN'',
      ''LINDEX'', ''LSET'', ''LTRIM'', ''SADD'', ''SREM'', ''SMEMBERS'', ''SISMEMBER'', ''SCARD'', ''ZADD'',
      ''ZREM'', ''ZRANGE'', ''ZSCORE'', ''ZRANK'', ''ZCARD'', ''INCR'', ''INCRBY'', ''DECR'', ''DECRBY'', ''APPEND'',
      ''STRLEN'', ''DEL'', ''EXISTS'', ''TYPE'', ''RENAME'', ''EXPIRE'', ''EXPIREAT'', ''PEXPIRE'', ''TTL'',
      ''PTTL'', ''PERSIST''}"

definition writeCommands :: "string set" where
  "writeCommands =
     {''SET'', ''SETNX'', ''SETEX'', ''PSETEX'', ''GETSET'', ''MSET'', ''HSET'', ''HDEL'', ''LPUSH'', ''RPUSH'',
      ''LPOP'', ''RPOP'', ''LSET'', ''LTRIM'', ''SADD'', ''SREM'', ''ZADD'', ''ZREM'', ''INCR'', ''INCRBY'',
      ''DECR'', ''DECRBY'', ''APPEND'', ''DEL'', ''RENAME'', ''EXPIRE'', ''EXPIREAT'', ''PEXPIRE'', ''PERSIST'',
      ''RESTORE'', ''MIGRATE''}"

section \<open>Dispatch\<close>

definition handleRouteResult :: "RouteResult \<Rightarrow> reply list \<times> bool" where
  "handleRouteResult result =
     (if rt_CrossSlot result then ([WError ''CROSSSLOT Keys in request don't hash to the same slot''], False)
      else case rt_Redirect result of
             Some r \<Rightarrow>
               ([WError ((case rd_Type r of RedirectMoved \<Rightarrow> ''MOVED '' | RedirectAsk \<Rightarrow> ''ASK '') @
                   FormatInt (uint (rd_Slot r)) @ '' '' @ rd_Addr r)], False)
           | None \<Rightarrow> ([], rt_Local result))"

text \<open>The routing of a command, \<open>None\<close> when it is not routed.\<close>

definition routeCommand :: "'n Handler \<Rightarrow> Conn \<Rightarrow> string \<Rightarrow> string list \<Rightarrow> RouteResult option" where
  "routeCommand h c cmd args =
     (if h_cluster h = None \<or> args = [] then None
      else if isMultiKeyCommand cmd then
        (case getKeysForCrossSlotCheck cmd args of
           [] \<Rightarrow> None
         | [key] \<Rightarrow> Some (Route (h_cluster h) key (cn_AskingFlag c))
         | keys \<Rightarrow> Some (RouteMulti (h_cluster h) keys))
      else if cmd \<in> keyCommands then Some (Route (h_cluster h) (hd args) (cn_AskingFlag c))
      else None)"

definition canAcceptWrite :: "'n Handler \<Rightarrow> string \<Rightarrow> string list \<Rightarrow> bool" where
  "canAcceptWrite h cmd args =
     (case h_cluster h of
        None \<Rightarrow> True
      | Some cl \<Rightarrow>
          (let keys0 = getKeysForCrossSlotCheck cmd args;
               keys = (if keys0 = [] \<and> args \<noteq> [] \<and> cmd \<in> keyCommands then [hd args] else keys0)
           in case keys of [] \<Rightarrow> True | key # _ \<Rightarrow> CanAcceptWrite cl key))"

definition recordHotspot :: "'n Handler \<Rightarrow> string list \<Rightarrow> 'n Handler" where
  "recordHotspot h args =
     (case args of
        [] \<Rightarrow> h
      | key # _ \<Rightarrow> h\<lparr> h_hotspot := map_option (\<lambda>calls. calls @ [(KeySlot key, int (sum_list (map length args)))]) (h_hotspot h) \<rparr>)"

text \<open>The part that the two dispatchers share: routing, the write guard, the command, and the end of \<^verbatim>\<open>ASKING\<close>.\<close>

definition runCommand :: "'n Env \<Rightarrow> 'n Handler \<Rightarrow> Conn \<Rightarrow> string \<Rightarrow> 'n CommandFunc \<Rightarrow> string list \<Rightarrow> ('n Handler \<times> Conn) go" where
  "runCommand E h c cmd fn args =
     (case (case routeCommand h c cmd args of None \<Rightarrow> ([], True) | Some result \<Rightarrow> handleRouteResult result) of
        (rs, False) \<Rightarrow> Some (h, clearAskingFlag (writes rs c))
      | (rs, True) \<Rightarrow>
          if h_cluster h \<noteq> None \<and> args \<noteq> [] \<and> cmd \<in> writeCommands \<and> \<not> canAcceptWrite h cmd args
          then Some (h, clearAskingFlag (writes [WError ''READONLY slot is not writable on this node''] c))
          else do { (h', c') \<leftarrow> fn E h c args; Some (recordHotspot h' args, clearAskingFlag c') })"

definition clusterCommand :: "'n Env \<Rightarrow> 'n Handler \<Rightarrow> Conn \<Rightarrow> string list \<Rightarrow> ('n Handler \<times> Conn) go" where
  "clusterCommand E h c args =
     (case h_cluster h of
        None \<Rightarrow> answer h c [WError ''ERR This instance has cluster support disabled'']
      | Some cl \<Rightarrow>
          do { (cl', s, out, rs) \<leftarrow> HandleCluster (ClusterEnv.truncate E) cl (h_engine h) args;
               answer (h\<lparr> h_cluster := Some cl', h_engine := s, h_gossiped := h_gossiped h @ out \<rparr>) c rs })"

definition unknownCommand :: "string \<Rightarrow> reply" where
  "unknownCommand cmd = WError (''ERR unknown command '' @ [CHR 0x27] @ cmd @ [CHR 0x27])"

definition fastSet :: "'n CommandFunc" where
  "fastSet E h c args =
     engineCall h c (\<lambda>s. st_Set (e_now E) (e_mem E) s (args ! 0) (args ! 1) 0) (\<lambda>r. [okOrErr r])"

definition fastGet :: "'n CommandFunc" where
  "fastGet E h c args =
     engineCall h c (\<lambda>s. st_GetBytes (e_now E) s (args ! 0)) (\<lambda>r. case r of Inl _ \<Rightarrow> [WNull] | Inr v \<Rightarrow> [WBulk v])"

definition fastIncr :: "'n CommandFunc" where
  "fastIncr E h c args =
     engineCall h c (\<lambda>s. st_Incr (e_now E) s (args ! 0))
       (\<lambda>r. case r of Inl e \<Rightarrow> [WError (''ERR '' @ errText e)] | Inr n \<Rightarrow> [WInt n])"

text \<open>The fast path of \<^verbatim>\<open>ExecuteBytes\<close> for a node without cluster, \<open>None\<close> for the other commands.\<close>

definition fastPath :: "'n Env \<Rightarrow> 'n Handler \<Rightarrow> Conn \<Rightarrow> string \<Rightarrow> string list \<Rightarrow> ('n Handler \<times> Conn) go option" where
  "fastPath E h c cmdBytes args =
     (let cmd = map upperTable cmdBytes
      in if cmd = ''PING'' then Some (answer h c (case args of [] \<Rightarrow> [WString ''PONG''] | a # _ \<Rightarrow> [WBulk a]))
         else if cmd = ''SET'' then Some (if length args \<ge> 2 then fastSet E h c args else answer h c [wrongArgs ''set''])
         else if cmd = ''GET'' then Some (if length args = 1 then fastGet E h c args else answer h c [wrongArgs ''get''])
         else if cmd = ''INCR'' then Some (if length args = 1 then fastIncr E h c args else answer h c [wrongArgs ''incr''])
         else None)"

definition ExecuteBytes :: "'n CommandFunc cmdMap \<Rightarrow> 'n Env \<Rightarrow> 'n Handler \<Rightarrow> Conn \<Rightarrow> string \<Rightarrow> string list \<Rightarrow> ('n Handler \<times> Conn) go" where
  "ExecuteBytes cm E h c cmdBytes args =
     (case (if h_cluster h = None then fastPath E h c cmdBytes args else None) of
        Some r \<Rightarrow> r
      | None \<Rightarrow>
          (let cmd = ToUpperInPlace cmdBytes
           in if IsClusterCmd cmd then clusterCommand E h c args
              else case Lookup cm cmd of
                     None \<Rightarrow> answer h c [unknownCommand cmd]
                   | Some fn \<Rightarrow> runCommand E h c cmd fn args))"

definition Execute :: "'n Env \<Rightarrow> 'n Handler \<Rightarrow> Conn \<Rightarrow> string \<Rightarrow> string list \<Rightarrow> ('n Handler \<times> Conn) go" where
  "Execute E h c cmd0 args =
     (let cmd = strings_ToUpper (e_upper E) cmd0
      in if cmd = ''CLUSTER'' then clusterCommand E h c args
         else case map_of registerAll cmd of
                None \<Rightarrow> answer h c [unknownCommand cmd]
              | Some fn \<Rightarrow> runCommand E h c cmd fn args)"

text \<open>\<^verbatim>\<open>handleCommand\<close> of \<^verbatim>\<open>server.go\<close>: a command of a connection and the pipeline behind it.\<close>

fun pipeline :: "'n CommandFunc cmdMap \<Rightarrow> 'n Env \<Rightarrow> 'n Handler \<Rightarrow> Conn \<Rightarrow> string list list \<Rightarrow> ('n Handler \<times> Conn) go" where
  "pipeline cm E h c [] = Some (h, c)"
| "pipeline cm E h c ([] # rest) = pipeline cm E h c rest"
| "pipeline cm E h c ((cmd # args) # rest) =
     do { (h', c') \<leftarrow> ExecuteBytes cm E h c cmd args; pipeline cm E h' c' rest }"

definition handleCommand :: "'n CommandFunc cmdMap \<Rightarrow> 'n Env \<Rightarrow> 'n Handler \<Rightarrow> Conn \<Rightarrow> string list \<Rightarrow> string list list \<Rightarrow> ('n Handler \<times> Conn) go" where
  "handleCommand cm E h c cmd rest =
     (if cmd = [] then answer h c [WError ''ERR empty command''] else pipeline cm E h c (cmd # rest))"

end
