(* ===== verification/ClusterProps.thy ===== *)
theory ClusterProps
  imports Cluster GossipProps
begin

text \<open>
  Correctness across the nodes of a cluster: a client that follows the redirections of the routers reaches the
  one node that serves its key; which peers accept the takeover of a failed master; a slot changes hands only
  when its keys are gone.
\<close>

section \<open>Routing\<close>

lemma GetSlotInfo_key: "GetSlotInfo sm (KeySlot key) = Some (slot_at sm (KeySlot key))"
  by (simp add: GetSlotInfo_def in_range_def KeySlot_less)

lemma GetSlotNode_key: "GetSlotNode sm (KeySlot key) = NodeID (slot_at sm (KeySlot key))"
  by (simp add: GetSlotNode_def in_range_def KeySlot_less)

lemma nd_Addr_node [simp]: "nd_Addr (gossipNodeToNode n) = gn_Addr n" "nd_ID (gossipNodeToNode n) = gn_ID n"
  by (simp_all add: nd_Addr_def gn_Addr_def gossipNodeToNode_def)

lemma getPeerAddr_known:
  assumes "same_names (c_gossip c)" "mget (g_nodes (c_gossip c)) k = Some n"
  shows "getPeerAddr c k = gn_Addr n"
proof -
  have wf: "mwf (g_nodes (c_gossip c))" and nk: "gn_ID n = k" using assms by (simp_all add: same_names_def)
  have "(k, n) \<in> set (g_nodes (c_gossip c))" using assms(2) wf by (simp add: mget_mem)
  moreover have "m = n" if "m \<in> snd ` set (g_nodes (c_gossip c))" "gn_ID m = k" for m
  proof -
    from that obtain j where "(j, m) \<in> set (g_nodes (c_gossip c))" by auto
    then have "mget (g_nodes (c_gossip c)) j = Some m" using wf by (simp add: mget_mem)
    moreover from this have "j = k" using assms(1) that(2) by (simp add: same_names_def)
    ultimately show ?thesis using assms(2) by simp
  qed
  ultimately have "n \<in> set (filter (\<lambda>m. gn_ID m = k) (map snd (g_nodes (c_gossip c))))"
    "\<forall>m \<in> set (filter (\<lambda>m. gn_ID m = k) (map snd (g_nodes (c_gossip c)))). m = n"
    using nk by (force, auto)
  then obtain ns where "filter (\<lambda>m. gn_ID m = k) (map snd (g_nodes (c_gossip c))) = n # ns"
    by (cases "filter (\<lambda>m. gn_ID m = k) (map snd (g_nodes (c_gossip c)))") auto
  then show ?thesis by (auto simp: getPeerAddr_def cl_GetNodes_def GetNodes_def filter_map comp_def map_eq_Cons_conv)
qed

text \<open>A client: it asks a node, and follows a redirection, after an \<^verbatim>\<open>ASK\<close> with the flag \<^verbatim>\<open>ASKING\<close>, for at most the
  given number of requests. The result is the address of the node that serves the key.\<close>

fun client :: "nat \<Rightarrow> (string \<Rightarrow> Cluster) \<Rightarrow> string \<Rightarrow> bool \<Rightarrow> string \<Rightarrow> string option" where
  "client 0 net addr asking key = None"
| "client (Suc n) net addr asking key =
     (let r = Route (Some (net addr)) key asking
      in if rt_Local r then Some addr
         else case rt_Redirect r of
                None \<Rightarrow> None
              | Some d \<Rightarrow> client n net (rd_Addr d) (rd_Type d = RedirectAsk) key)"

text \<open>The nodes of a cluster agree on the owner \<open>o\<close> of the slot of a key, at the address \<open>oa\<close>, which they all
  know.\<close>

definition agreed :: "(string \<Rightarrow> Cluster) \<Rightarrow> string \<Rightarrow> string \<Rightarrow> string \<Rightarrow> bool" where
  "agreed net key ow oa \<longleftrightarrow> ow \<noteq> [] \<and>
     (\<forall>a. same_names (c_gossip (net a)) \<and> NodeID (slot_at (c_slots (net a)) (KeySlot key)) = ow \<and>
          (nd_ID (c_self (net a)) = ow \<longleftrightarrow> a = oa) \<and>
          (\<exists>n. mget (g_nodes (c_gossip (net a))) ow = Some n \<and> gn_Addr n = oa))"

lemmas route_defs = Route_def GetSlotInfo_key routeLocal_def routeTo_def Let_def

lemma route_other:
  assumes "agreed net key ow oa" "a \<noteq> oa"
  shows "Route (Some (net a)) key False = routeTo RedirectMoved (KeySlot key) oa"
proof -
  from assms(1) obtain n where n: "mget (g_nodes (c_gossip (net a))) ow = Some n" "gn_Addr n = oa"
    unfolding agreed_def by blast
  have "NodeID (slot_at (c_slots (net a)) (KeySlot key)) = ow" "nd_ID (c_self (net a)) \<noteq> ow" "ow \<noteq> []"
    using assms by (simp_all add: agreed_def)
  with n show ?thesis
    by (auto simp: route_defs cl_GetSlotNode_def GetSlotNode_key cl_GetNode_def GetNode_def)
qed

lemma route_owner:
  assumes "agreed net key ow oa"
  shows "Route (Some (net oa)) key asking =
    (let info = slot_at (c_slots (net oa)) (KeySlot key)
     in if si_State info = SlotStateExporting \<and> Exporting info \<noteq> []
        then routeTo RedirectAsk (KeySlot key) (getPeerAddr (net oa) (Exporting info)) else routeLocal (KeySlot key))"
proof -
  have "NodeID (slot_at (c_slots (net oa)) (KeySlot key)) = ow" "nd_ID (c_self (net oa)) = ow" "ow \<noteq> []"
    using assms by (simp_all add: agreed_def)
  then show ?thesis by (simp add: route_defs)
qed


definition demo_slot :: "(SlotInfo \<Rightarrow> SlotInfo) \<Rightarrow> SlotManager" where
  "demo_slot f = slot_upd (KeySlot ''foo'') f (fst (AssignSlot NewSlotManager (KeySlot ''foo'') ''n1''))"

lemma slot_at_demo_slot: "slot_at (demo_slot f) (KeySlot ''foo'') = f (owned_by ''n1'')"
proof -
  have wf: "sm_wf NewSlotManager" using sm_ok_New by (simp add: sm_ok_def)
  have r: "in_range (KeySlot ''foo'')" by (simp add: in_range_def KeySlot_less)
  have "sm_ok (fst (AssignSlot NewSlotManager (KeySlot ''foo'') ''n1''))" by (rule AssignSlot_ok [OF sm_ok_New])
  then have "length (slots (fst (AssignSlot NewSlotManager (KeySlot ''foo'') ''n1''))) = SlotCount" by (rule sm_ok_length)
  then show ?thesis
    using AssignSlot_view(1) [OF wf r, of "''n1''" "KeySlot ''foo''"] slot_at_new [OF r]
    by (simp add: demo_slot_def slot_view r owned_by_def newSlotInfo_def)
qed

definition demo_peer :: "string \<Rightarrow> string \<Rightarrow> GossipNode" where
  "demo_peer n ip = (demo_node n)\<lparr> gn_IP := ip, gn_Port := 7 \<rparr>"

definition demo_cluster :: "string \<Rightarrow> SlotManager \<Rightarrow> Cluster" where
  "demo_cluster n sm =
     (NewCluster [] \<lparr> cfg_NodeID = n, cfg_BindAddr = ''h'', cfg_Port = 1, cfg_ClusterPort = 2 \<rparr> None)
       \<lparr> c_slots := sm, c_gossip := (NewGossip (demo_peer n ''h''))\<lparr> g_nodes :=
            [(''n1'', demo_peer ''n1'' ''a''), (''n2'', demo_peer ''n2'' ''b'')] \<rparr> \<rparr>"

definition demo_net :: "string \<Rightarrow> Cluster" where
  "demo_net a =
     (if a = ''a:7'' then demo_cluster ''n1'' (demo_slot (\<lambda>i. i\<lparr> si_State := SlotStateExporting, Exporting := ''n2'' \<rparr>))
      else demo_cluster ''n2'' (demo_slot (\<lambda>i. i\<lparr> si_State := SlotStateImporting, Importing := ''n1'' \<rparr>)))"

lemma demo_cluster_view:
  "c_slots (demo_cluster n sm) = sm" "nd_ID (c_self (demo_cluster n sm)) = (if n = [] then [] else n)"
  "g_nodes (c_gossip (demo_cluster n sm)) = [(''n1'', demo_peer ''n1'' ''a''), (''n2'', demo_peer ''n2'' ''b'')]"
  by (simp_all add: demo_cluster_def NewCluster_def Let_def)

lemma format_7: "format_nat 7 = ''7''"
  by code_simp

lemma demo_peer_view: "gn_Addr (demo_peer n ip) = ip @ '':7''" "gn_ID (demo_peer n ip) = n"
  by (simp_all add: demo_peer_def demo_node_def gn_Addr_def FormatInt_def format_7)

lemma demo_net_view:
  "slot_at (c_slots (demo_net ''a:7'')) (KeySlot ''foo'') =
     (owned_by ''n1'')\<lparr> si_State := SlotStateExporting, Exporting := ''n2'' \<rparr>"
  "slot_at (c_slots (demo_net ''b:7'')) (KeySlot ''foo'') =
     (owned_by ''n1'')\<lparr> si_State := SlotStateImporting, Importing := ''n1'' \<rparr>"
  "mget (g_nodes (c_gossip (demo_net a))) ''n2'' = Some (demo_peer ''n2'' ''b'')"
  "gn_Addr (demo_peer ''n2'' ''b'') = ''b:7''"
  by (simp_all add: demo_net_def demo_cluster_view slot_at_demo_slot demo_peer_view)


section \<open>Taking over from a failed master\<close>

lemma gs_ok_promote:
  "gs_ok g sm \<Longrightarrow> gs_ok (PromoteToMaster n (SetSelfRole r m g)) sm"
  by (simp add: PromoteToMaster_def SetSelfRole_def upd_node_ok)

lemma gs_ok_epoch [simp]: "gs_ok (SetCurrentEpoch e g) sm = gs_ok g sm"
  by (simp add: gs_ok_def SetCurrentEpoch_def)

lemma gs_ok_dirty [simp]: "gs_ok g (markDirty sm) = gs_ok g sm"
  by (simp add: gs_ok_def)

definition c_ok :: "Cluster \<Rightarrow> bool" where
  "c_ok c \<longleftrightarrow> gs_ok (c_gossip c) (c_slots c) \<and> g_self (c_gossip c) = nd_ID (c_self c)"

lemma slotEpoch_view:
  "slotEpoch g sm slot = (g1, e) \<Longrightarrow> g_nodes g1 = g_nodes g \<and> g_self g1 = g_self g \<and> g_currentEpoch g1 = g_currentEpoch g"
  by (auto simp: slotEpoch_def Let_def recordSlotEpoch_def split: if_splits)

lemma Broadcast_Some:
  assumes ok: "gs_ok g sm" and slot: "in_range slot" and e: "GetSlotConfigEpoch sm slot = epoch" "0 < epoch"
    and owner: "mget (g_nodes g) n = Some owner"
  shows "\<exists>g' out err. BroadcastSlotOwnership load send g sm slot n = Some (g', out, err) \<and> gs_ok g' sm \<and>
    g_nodes g' = g_nodes g \<and> g_self g' = g_self g \<and> g_currentEpoch g' = g_currentEpoch g \<and>
    (\<forall>(a, msg) \<in> set out. \<exists>self b. selfNodeInfo load g' sm = Some self \<and>
       SlotsToBytes (if slot \<in> set (GetNodeSlots sm n) then GetNodeSlots sm n else GetNodeSlots sm n @ [slot]) = Some b \<and>
       msg = newMessage MsgPing (g_self g) (Some self) [ownerInfo owner epoch b])"
proof -
  let ?owned = "if slot \<in> set (GetNodeSlots sm n) then GetNodeSlots sm n else GetNodeSlots sm n @ [slot]"
  let ?g = "recordSlotEpoch slot epoch g"
  have se: "slotEpoch g sm slot = (?g, epoch)" using e by (simp add: slotEpoch_def Let_def)
  have "g_currentEpoch ?g = g_currentEpoch g" by (simp add: recordSlotEpoch_def)
  have "\<forall>s \<in> set ?owned. in_range s" using ok slot by (simp add: gs_ok_def small_def GetNodeSlots_def)
  from SlotsToBytes_total [OF this] obtain b where b: "SlotsToBytes ?owned = Some b" by blast
  have ok': "gs_ok ?g sm" using ok by simp
  from selfNodeInfo_Some [OF this, of load] obtain self where self: "selfNodeInfo load ?g sm = Some self" by blast
  have "broadcastNodeInfo load send ?g sm (ownerInfo owner epoch b) \<noteq> None"
    using self by (simp add: broadcastNodeInfo_def Let_def)
  then obtain out err where bn: "broadcastNodeInfo load send ?g sm (ownerInfo owner epoch b) = Some (out, err)"
    by auto
  have "\<forall>(a, msg) \<in> set out. msg = newMessage MsgPing (g_self g) (Some self) [ownerInfo owner epoch b]"
    using bn self by (auto simp: broadcastNodeInfo_def Let_def split: if_splits)
  moreover have "BroadcastSlotOwnership load send g sm slot n = Some (?g, out, err)"
    using owner se b bn by (simp add: BroadcastSlotOwnership_def Let_def)
  ultimately show ?thesis using ok' self b \<open>g_currentEpoch ?g = g_currentEpoch g\<close> by fastforce
qed

lemma SetSlotConfigEpoch_view:
  assumes "sm_ok sm" "in_range slot"
  shows "sm_ok (SetSlotConfigEpoch sm slot e)" "slotsOf (SetSlotConfigEpoch sm slot e) = slotsOf sm"
    "GetSlotNode (SetSlotConfigEpoch sm slot e) s = GetSlotNode sm s"
    "GetSlotConfigEpoch (SetSlotConfigEpoch sm slot e) s = (if s = slot then e else GetSlotConfigEpoch sm s)"
proof -
  have len: "length (slots sm) = SlotCount" by (rule sm_ok_length [OF assms(1)])
  have lt: "unat slot < SlotCount" using assms(2) by (simp add: in_range_def)
  show "sm_ok (SetSlotConfigEpoch sm slot e)" by (rule SetSlotConfigEpoch_ok [OF assms(1)])
  show "slotsOf (SetSlotConfigEpoch sm slot e) = slotsOf sm" by (simp add: SetSlotConfigEpoch_def)
  show "GetSlotNode (SetSlotConfigEpoch sm slot e) s = GetSlotNode sm s"
    "GetSlotConfigEpoch (SetSlotConfigEpoch sm slot e) s = (if s = slot then e else GetSlotConfigEpoch sm s)"
    using len lt assms(2)
    by (auto simp: SetSlotConfigEpoch_def GetSlotNode_def GetSlotConfigEpoch_def slot_view)
qed

text \<open>What a message of the takeover claims: all of it is about the new master, at the new epoch.\<close>

definition claims_only :: "string \<Rightarrow> 64 word \<Rightarrow> Message \<Rightarrow> bool" where
  "claims_only n e msg \<longleftrightarrow>
     (\<forall>info \<in> set_option (msg_NodeInfo msg) \<union> set (msg_GossipNodes msg). ni_ID info = n \<and> ni_ConfigEpoch info = e)"

lemma selfNodeInfo_view:
  "gs_ok g sm \<Longrightarrow> selfNodeInfo load g sm = Some self \<Longrightarrow> ni_ID self = g_self g \<and> ni_ConfigEpoch self = g_currentEpoch g"
  by (auto simp: selfNodeInfo_def gs_ok_def bind_eq_Some_conv)

definition taken :: "string \<Rightarrow> string \<Rightarrow> 64 word \<Rightarrow> SlotManager \<Rightarrow> SlotManager \<Rightarrow> 16 word set \<Rightarrow> bool" where
  "taken self master e sm sm' S \<longleftrightarrow>
     (\<forall>slot. if slot \<in> S \<and> GetSlotNode sm slot = master \<and> in_range slot
             then GetSlotNode sm' slot = self \<and> GetSlotConfigEpoch sm' slot = e
             else GetSlotNode sm' slot = GetSlotNode sm slot \<and> GetSlotConfigEpoch sm' slot = GetSlotConfigEpoch sm slot)"

lemma takeOver_one:
  assumes ok: "c_ok c" and slot: "in_range slot" "GetSlotNode (c_slots c) slot = master" and e: "0 < epoch"
    "g_currentEpoch (c_gossip c) = epoch"
  defines "c1 \<equiv> c\<lparr> c_slots := SetSlotConfigEpoch (fst (AssignSlot (c_slots c) slot (nd_ID (c_self c)))) slot epoch \<rparr>"
  shows "\<exists>c' out err. BroadcastSlotOwnershipChange load send c1 slot (nd_ID (c_self c)) = Some (c', out, err) \<and> c_ok c' \<and>
    c_self c' = c_self c \<and> g_currentEpoch (c_gossip c') = epoch \<and>
    taken (nd_ID (c_self c)) master epoch (c_slots c) (c_slots c') {slot} \<and>
    (\<forall>(a, msg) \<in> set out. claims_only (nd_ID (c_self c)) epoch msg)"
proof -
  let ?self = "nd_ID (c_self c)" and ?a = "fst (AssignSlot (c_slots c) slot (nd_ID (c_self c)))"
  have gs: "gs_ok (c_gossip c) (c_slots c)" and self: "g_self (c_gossip c) = ?self" using ok by (simp_all add: c_ok_def)
  then have sm: "sm_ok (c_slots c)" by (simp add: gs_ok_def)
  have a: "sm_ok ?a" by (rule AssignSlot_ok [OF sm])
  note v = SetSlotConfigEpoch_view [OF a slot(1), of epoch]
  have gs1: "gs_ok (c_gossip c) (c_slots c1)"
    using gs v(1,2) AssignSlot_small [of "c_slots c" slot ?self] by (simp add: c1_def gs_ok_def small_def)
  have ep: "GetSlotConfigEpoch (c_slots c1) slot = epoch" by (simp add: c1_def v)
  obtain owner where owner: "mget (g_nodes (c_gossip c)) ?self = Some owner" "gn_ID owner = ?self"
    using gs self by (auto simp: gs_ok_def)
  from Broadcast_Some [OF gs1 slot(1) ep e(1) owner(1), of load send] obtain g' out err where
    b: "BroadcastSlotOwnership load send (c_gossip c) (c_slots c1) slot ?self = Some (g', out, err)"
      "gs_ok g' (c_slots c1)" "g_self g' = ?self" "g_currentEpoch g' = epoch"
    and out: "\<forall>(a, msg) \<in> set out. \<exists>s bm. selfNodeInfo load g' (c_slots c1) = Some s \<and>
       msg = newMessage MsgPing (g_self (c_gossip c)) (Some s) [ownerInfo owner epoch bm]"
    using self e(2) by (auto split: prod.splits) blast
  have "claims_only ?self epoch msg" if "(x, msg) \<in> set out" for x msg
    using bspec [OF out that] selfNodeInfo_view [OF b(2)] b(3,4) owner(2)
    by (auto simp: claims_only_def newMessage_def ownerInfo_def)
  moreover have "taken ?self master epoch (c_slots c) (c_slots c1) {slot}"
    using slot by (auto simp: taken_def c1_def v AssignSlot_owner [OF sm slot(1)] AssignSlot_epoch [OF sm])
  ultimately show ?thesis using b gs1 self by (auto simp: BroadcastSlotOwnershipChange_def c1_def c_ok_def)
qed

lemma taken_trans:
  assumes "taken self master e sm sm1 {slot}" "taken self master e sm1 sm2 S" "self \<noteq> master"
  shows "taken self master e sm sm2 (insert slot S)"
  unfolding taken_def
proof
  fix s
  show "if s \<in> insert slot S \<and> GetSlotNode sm s = master \<and> in_range s
      then GetSlotNode sm2 s = self \<and> GetSlotConfigEpoch sm2 s = e
      else GetSlotNode sm2 s = GetSlotNode sm s \<and> GetSlotConfigEpoch sm2 s = GetSlotConfigEpoch sm s"
    using assms(1) [unfolded taken_def, rule_format, of s] assms(2) [unfolded taken_def, rule_format, of s] assms(3)
    by (auto split: if_splits)
qed

lemma takeOver_spec:
  assumes "c_ok c" "0 < epoch" "g_currentEpoch (c_gossip c) = epoch" "nd_ID (c_self c) \<noteq> master"
  shows "\<exists>c' out. takeOver load send master epoch c rest = Some (c', out) \<and> c_ok c' \<and> c_self c' = c_self c \<and>
    taken (nd_ID (c_self c)) master epoch (c_slots c) (c_slots c') (set rest) \<and>
    (\<forall>(a, msg) \<in> set out. claims_only (nd_ID (c_self c)) epoch msg)"
  using assms
proof (induction rest arbitrary: c)
  case Nil
  then show ?case by (auto simp: taken_def)
next
  case (Cons slot rest)
  let ?skip = "case GetSlotInfo (c_slots c) slot of None \<Rightarrow> True | Some info \<Rightarrow> NodeID info \<noteq> master"
  have skip: "?skip \<longleftrightarrow> \<not> (in_range slot \<and> GetSlotNode (c_slots c) slot = master)"
    by (auto simp: GetSlotInfo_def GetSlotNode_def)
  show ?case
  proof (cases ?skip)
    case True
    from Cons.IH [OF Cons.prems] obtain c' out where
      c': "takeOver load send master epoch c rest = Some (c', out)" "c_ok c'" "c_self c' = c_self c"
        "taken (nd_ID (c_self c)) master epoch (c_slots c) (c_slots c') (set rest)"
        "\<forall>(a, msg) \<in> set out. claims_only (nd_ID (c_self c)) epoch msg" by blast
    have "taken (nd_ID (c_self c)) master epoch (c_slots c) (c_slots c') (set (slot # rest))"
      using c'(4) True skip unfolding taken_def by auto
    with c' True show ?thesis by auto
  next
    case False
    with skip have slot: "in_range slot" "GetSlotNode (c_slots c) slot = master" by simp_all
    let ?c1 = "c\<lparr> c_slots := SetSlotConfigEpoch (fst (AssignSlot (c_slots c) slot (nd_ID (c_self c)))) slot epoch \<rparr>"
    from takeOver_one [OF Cons.prems(1) slot Cons.prems(2,3), of load send] obtain c2 out err where
      c2: "BroadcastSlotOwnershipChange load send ?c1 slot (nd_ID (c_self c)) = Some (c2, out, err)" "c_ok c2"
        "c_self c2 = c_self c" "g_currentEpoch (c_gossip c2) = epoch"
        "taken (nd_ID (c_self c)) master epoch (c_slots c) (c_slots c2) {slot}"
        "\<forall>(a, msg) \<in> set out. claims_only (nd_ID (c_self c)) epoch msg" by blast
    from Cons.IH [OF c2(2) Cons.prems(2) c2(4)] Cons.prems(4) c2(3) obtain c' out' where
      c': "takeOver load send master epoch c2 rest = Some (c', out')" "c_ok c'" "c_self c' = c_self c"
        "taken (nd_ID (c_self c)) master epoch (c_slots c2) (c_slots c') (set rest)"
        "\<forall>(a, msg) \<in> set out'. claims_only (nd_ID (c_self c)) epoch msg" by auto
    from taken_trans [OF c2(5) c'(4) Cons.prems(4)] c' c2 False show ?thesis by (auto simp: Let_def)
  qed
qed

text \<open>
  C26: a replica that takes over from a failed master owns every slot of that master afterwards, at the epoch
  after its own current epoch, and no other slot changes hands. But the epoch is a counter of the replica
  alone: a peer that knows a slot at that epoch or a later one ignores every message of the takeover and
  still sends clients to the failed master.
\<close>

theorem failover_takeover:
  assumes "c_ok c" "masterID \<noteq> nd_ID (c_self c)" "masterID \<noteq> []" "c_currentEpoch c + 1 \<noteq> 0"
  shows "\<exists>c' out. FailoverToMaster load send c masterID = Some (c', out) \<and> c_ok c' \<and>
    nd_Role (c_self c') = NodeRoleMaster \<and>
    (\<forall>slot. if GetSlotNode (c_slots c) slot = masterID
            then GetSlotNode (c_slots c') slot = nd_ID (c_self c) \<and>
                 GetSlotConfigEpoch (c_slots c') slot = c_currentEpoch c + 1
            else GetSlotNode (c_slots c') slot = GetSlotNode (c_slots c) slot) \<and>
    (\<forall>(a, msg) \<in> set out. \<forall>g sm now load' shuffle slot. gs_ok g sm \<and> c_currentEpoch c + 1 \<le> seen g sm slot \<longrightarrow>
       (\<exists>g' sm' ev r. handleConnection now load' shuffle g sm msg = Some (g', sm', ev, r) \<and>
          GetSlotNode sm' slot = GetSlotNode sm slot))"
proof -
  let ?self = "nd_ID (c_self c)" and ?e = "c_currentEpoch c + 1"
  define c1 where "c1 = c\<lparr> c_self := (c_self c)\<lparr> nd_Role := NodeRoleMaster, nd_MasterID := [] \<rparr>,
    c_gossip := PromoteToMaster ?self (SetSelfRole NodeRoleMaster [] (c_gossip c)) \<rparr>"
  define c2 where "c2 = fst (IncrementEpoch c1)"
  have e: "0 < ?e" using assms(4) by (simp add: word_gt_0)
  have gs: "gs_ok (c_gossip c) (c_slots c)" "g_self (c_gossip c) = ?self" using assms(1) by (simp_all add: c_ok_def)
  have "c_ok c2"
    using gs gs_ok_promote [OF gs(1)]
    by (simp add: c_ok_def c2_def c1_def IncrementEpoch_def Let_def PromoteToMaster_def SetSelfRole_def
        SetCurrentEpoch_def gs_ok_def)
  moreover have c2: "c_currentEpoch c2 = ?e" "g_currentEpoch (c_gossip c2) = ?e" "nd_ID (c_self c2) = ?self"
    "nd_Role (c_self c2) = NodeRoleMaster" "c_slots c2 = markDirty (c_slots c)"
    by (simp_all add: c2_def c1_def IncrementEpoch_def Let_def SetCurrentEpoch_def)
  ultimately obtain c' out where t:
    "takeOver load send masterID ?e c2 (GetNodeSlots (c_slots c) masterID) = Some (c', out)" "c_ok c'"
    "c_self c' = c_self c2" "taken ?self masterID ?e (c_slots c2) (c_slots c') (set (GetNodeSlots (c_slots c) masterID))"
    "\<forall>(a, msg) \<in> set out. claims_only ?self ?e msg"
    using takeOver_spec [of c2 ?e masterID load send "GetNodeSlots (c_slots c) masterID"] e assms(2) by auto
  have "FailoverToMaster load send c masterID = Some (c', out)"
    using t(1) c2(1) by (simp add: FailoverToMaster_def Let_def c1_def [symmetric] c2_def [symmetric])
  moreover have "if GetSlotNode (c_slots c) slot = masterID
      then GetSlotNode (c_slots c') slot = ?self \<and> GetSlotConfigEpoch (c_slots c') slot = ?e
      else GetSlotNode (c_slots c') slot = GetSlotNode (c_slots c) slot" for slot
  proof -
    have "sm_wf (c_slots c)" using gs(1) by (simp add: gs_ok_def sm_ok_def)
    from sm_wf_index(2) [OF this assms(3), of slot] assms(3)
    have "slot \<in> set (GetNodeSlots (c_slots c) masterID) \<and> in_range slot \<longleftrightarrow> GetSlotNode (c_slots c) slot = masterID"
      by (auto simp: GetNodeSlots_def GetSlotNode_def)
    moreover have "GetSlotNode (c_slots c2) slot = GetSlotNode (c_slots c) slot" by (simp add: c2 GetSlotNode_def)
    ultimately show ?thesis using t(4) [unfolded taken_def, rule_format, of slot] by (auto split: if_splits)
  qed
  moreover have "\<exists>g' sm' ev r. handleConnection now load' shuffle g sm msg = Some (g', sm', ev, r) \<and>
      GetSlotNode sm' slot = GetSlotNode sm slot"
    if "(a, msg) \<in> set out" "gs_ok g sm" "?e \<le> seen g sm slot" for a msg g sm now load' shuffle slot
  proof -
    from handleConnection_justified [OF that(2), of now load' shuffle msg] obtain g' sm' ev r where
      run: "handleConnection now load' shuffle g sm msg = Some (g', sm', ev, r)" "justified (claims msg) g sm g' sm'" by blast
    have "d = ?e" if "(m, d, ss) \<in> claims msg" for m d ss
      using that bspec [OF t(5) \<open>(a, msg) \<in> set out\<close>] by (auto simp: claims_def claim_def claims_only_def)
    moreover have "\<not> newer ?e (seen g sm slot)" using that(3) e by (auto simp: newer_def)
    ultimately show ?thesis using run unfolding justified_def by blast
  qed
  ultimately show ?thesis using t(2,3) c2(4) by auto
qed

definition demo_replica :: Cluster where
  "demo_replica = (demo_cluster ''n2'' demo_table)\<lparr> c_currentEpoch := 1 \<rparr>"

lemma demo_replica_ok: "c_ok demo_replica" "nd_ID (c_self demo_replica) = ''n2''" "c_slots demo_replica = demo_table"
proof -
  have "g_self (c_gossip demo_replica) = ''n2''"
    by (simp add: demo_replica_def demo_cluster_def NewGossip_def demo_peer_view)
  then show "c_ok demo_replica"
    by (auto simp: c_ok_def gs_ok_def demo_replica_def demo_cluster_view demo_table_ok small_demo mwf_def demo_peer_view)
qed (simp_all add: demo_replica_def demo_cluster_view)

theorem failover_takeover_witness:
  "GetSlotNode demo_table 5 = ''n1'' \<and>
   (\<exists>c' out. FailoverToMaster None (\<lambda>_. Inr ()) demo_replica ''n1'' = Some (c', out) \<and> GetSlotNode (c_slots c') 5 = ''n2'' \<and>
      (\<forall>(a, msg) \<in> set out. \<exists>g' sm' ev r.
         handleConnection 0 None id (NewGossip (demo_node ''n3'')) demo_table msg = Some (g', sm', ev, r) \<and>
         GetSlotNode sm' 5 = ''n1''))"
proof -
  have n1: "GetSlotNode demo_table 5 = ''n1''" by (simp add: GetSlotNode_def in_range_5 slot_at_demo)
  have ok: "gs_ok (NewGossip (demo_node ''n3'')) demo_table" by (rule gs_ok_NewGossip [OF demo_table_ok small_demo])
  have e: "c_currentEpoch demo_replica = 1" by (simp add: demo_replica_def)
  have s: "c_currentEpoch demo_replica + 1 \<le> seen (NewGossip (demo_node ''n3'')) demo_table 5"
    by (simp add: e seen_def GetSlotConfigEpoch_def in_range_5 slot_at_demo epochOf_def NewGossip_def)
  have "''n1'' \<noteq> nd_ID (c_self demo_replica)" "''n1'' \<noteq> []" "c_currentEpoch demo_replica + 1 \<noteq> 0"
    by (simp_all add: demo_replica_ok e)
  from failover_takeover [OF demo_replica_ok(1) this, of None "\<lambda>_. Inr ()"] obtain c' out where
    c': "FailoverToMaster None (\<lambda>_. Inr ()) demo_replica ''n1'' = Some (c', out)"
    and own: "\<forall>slot. if GetSlotNode (c_slots demo_replica) slot = ''n1''
       then GetSlotNode (c_slots c') slot = nd_ID (c_self demo_replica) \<and>
            GetSlotConfigEpoch (c_slots c') slot = c_currentEpoch demo_replica + 1
       else GetSlotNode (c_slots c') slot = GetSlotNode (c_slots demo_replica) slot"
    and peers: "\<forall>(a, msg) \<in> set out. \<forall>g sm now load' shuffle slot. gs_ok g sm \<and> c_currentEpoch demo_replica + 1 \<le> seen g sm slot \<longrightarrow>
       (\<exists>g' sm' ev r. handleConnection now load' shuffle g sm msg = Some (g', sm', ev, r) \<and>
          GetSlotNode sm' slot = GetSlotNode sm slot)" by blast
  have "GetSlotNode (c_slots c') 5 = ''n2''" using own [rule_format, of 5] n1 by (simp add: demo_replica_ok)
  moreover have "\<forall>(a, msg) \<in> set out. \<exists>g' sm' ev r.
      handleConnection 0 None id (NewGossip (demo_node ''n3'')) demo_table msg = Some (g', sm', ev, r) \<and>
      GetSlotNode sm' 5 = ''n1''" using peers ok s n1 by (simp add: case_prod_beta) metis
  ultimately show ?thesis using n1 c' by blast
qed

section \<open>Moving a slot\<close>

text \<open>The target has taken a key: some entry read from the store was over, or its serialisation was answered with
  \<^verbatim>\<open>+OK\<close>.\<close>

definition handed_over :: "'n Net \<Rightarrow> Json \<Rightarrow> int \<Rightarrow> string \<Rightarrow> string \<Rightarrow> bool" where
  "handed_over N J now addr key \<longleftrightarrow>
     (\<exists>s s' entry. st_GetEntry now s key = Some (s', Inr entry) \<and>
        (remainingMs now (ee_ExpireAt entry) < 0 \<or>
         (\<exists>data n n'. SerializeEntryValue J (Some entry) = Inr data \<and>
            sendKey N n addr key (remainingMs now (ee_ExpireAt entry)) data = (n', Inr ()))))"

lemma drainKey_handed:
  assumes "drainKey N J now st n key addr = Some (st', n', Inr u)"
  shows "handed_over N J now addr key"
proof -
  obtain st1 r where g: "st_GetEntry now st key = Some (st1, r)"
    using assms by (cases "st_GetEntry now st key") (auto simp: drainKey_def)
  with assms obtain entry where r: "r = Inr entry" by (cases r) (auto simp: drainKey_def)
  let ?ttl = "remainingMs now (ee_ExpireAt entry)"
  show ?thesis
  proof (cases "?ttl < 0")
    case True
    with g r show ?thesis unfolding handed_over_def by blast
  next
    case False
    with assms g r obtain data where d: "SerializeEntryValue J (Some entry) = Inr data"
      by (cases "SerializeEntryValue J (Some entry)") (auto simp: drainKey_def Let_def)
    obtain n1 r1 where s: "sendKey N n addr key ?ttl data = (n1, r1)" by (cases "sendKey N n addr key ?ttl data")
    with assms g r d False have "r1 = Inr ()" by (cases r1) (auto simp: drainKey_def Let_def)
    with g r d s show ?thesis unfolding handed_over_def by blast
  qed
qed

lemma drainKeys_handed:
  "drainKeys N J now ctx st n addr k keys = Some (st', n', Inr u) \<Longrightarrow> \<forall>key \<in> set keys. handed_over N J now addr key"
proof (induction keys arbitrary: st n k)
  case (Cons key keys)
  have ctx: "ctx k = None" using Cons.prems by (cases "ctx k") auto
  with Cons.prems obtain st1 n1 r where d: "drainKey N J now st n key addr = Some (st1, n1, r)"
    by (cases "drainKey N J now st n key addr") auto
  with Cons.prems ctx obtain v where r: "r = Inr v" by (cases r) auto
  with d Cons.prems ctx have "drainKeys N J now ctx st1 n1 addr (Suc k) keys = Some (st', n', Inr u)" by simp
  with Cons.IH d r drainKey_handed show ?case by auto
qed simp

lemma drainSlot_done:
  assumes "drainSlot N J now ctx st n slot addr = Some (st', n', Inr u)"
  shows "(\<exists>s. st_KeysInSlot now s slot 0 = Some (st', [])) \<and>
    (\<exists>st1 keys. st_KeysInSlot now st slot 0 = Some (st1, keys) \<and> (\<forall>key \<in> set keys. handed_over N J now addr key))"
proof -
  obtain st1 keys where k: "st_KeysInSlot now st slot 0 = Some (st1, keys)"
    using assms by (cases "st_KeysInSlot now st slot 0") (auto simp: drainSlot_def)
  show ?thesis
  proof (cases "keys = []")
    case True
    with assms k show ?thesis by (auto simp: drainSlot_def)
  next
    case False
    with assms k obtain st2 n1 r where d: "drainKeys N J now ctx st1 n addr 0 keys = Some (st2, n1, r)"
      by (cases "drainKeys N J now ctx st1 n addr 0 keys") (auto simp: drainSlot_def)
    with assms k False obtain v where r: "r = Inr v" by (cases r) (auto simp: drainSlot_def)
    with assms k False d obtain st3 left where l: "st_KeysInSlot now st2 slot 0 = Some (st3, left)"
      by (cases "st_KeysInSlot now st2 slot 0") (auto simp: drainSlot_def)
    with assms k False d r have "left = []" "st' = st3" by (auto simp: drainSlot_def split: if_splits)
    with k l drainKeys_handed [OF d [unfolded r]] show ?thesis by blast
  qed
qed

lemma Broadcast_slots:
  "BroadcastSlotOwnershipChange load send c slot p = Some (c', out, r) \<Longrightarrow> c_slots c' = c_slots c"
  by (auto simp: BroadcastSlotOwnershipChange_def bind_eq_Some_conv)

lemma SetStable_owner:
  "sm_ok sm \<Longrightarrow> SetStable sm slot = Some sm' \<Longrightarrow> GetSlotNode sm' s = GetSlotNode sm s \<and> si_State (slot_at sm' slot) = SlotStateNormal"
  using sm_ok_length [of sm] by (auto simp: SetStable_def GetSlotNode_def slot_view split: if_splits)

lemma SetExporting_owner: "sm_ok sm \<Longrightarrow> SetExporting sm slot t = Some sm' \<Longrightarrow> GetSlotNode sm' s = GetSlotNode sm s"
  using sm_ok_length [of sm] by (auto simp: SetExporting_def GetSlotNode_def slot_view split: if_splits)

lemma FinishMigration_owner:
  "sm_ok sm \<Longrightarrow> FinishMigration sm slot t = Some sm' \<Longrightarrow>
     GetSlotNode sm' s = (if s = slot then t else GetSlotNode sm s) \<and> si_State (slot_at sm' slot) = SlotStateNormal"
  using sm_ok_length [of sm] by (auto simp: FinishMigration_def GetSlotNode_def slot_view split: if_splits)

lemma moveSlot_spec:
  assumes "sm_ok (c_slots c)" "moveSlot load send N J now ctx c st n slot t addr = Some (c', st', n', out, r)"
  shows "si_State (slot_at (c_slots c') slot) = SlotStateNormal \<and>
    (case r of
       Inl _ \<Rightarrow> GetSlotNode (c_slots c') = GetSlotNode (c_slots c)
     | Inr _ \<Rightarrow> GetSlotNode (c_slots c') = (GetSlotNode (c_slots c))(slot := t) \<and>
         (\<exists>s. st_KeysInSlot now s slot 0 = Some (st', [])) \<and>
         (\<exists>st1 keys. st_KeysInSlot now st slot 0 = Some (st1, keys) \<and> (\<forall>key \<in> set keys. handed_over N J now addr key)))"
proof -
  obtain st1 n1 r1 where d: "drainSlot N J now ctx st n slot addr = Some (st1, n1, r1)"
    using assms(2) by (auto simp: moveSlot_def bind_eq_Some_conv)
  show ?thesis
  proof (cases r1)
    case (Inl e)
    with d assms(2) obtain sm where "SetStable (c_slots c) slot = Some sm" "c' = c\<lparr> c_slots := sm \<rparr>" "r = Inl e"
      by (auto simp: moveSlot_def bind_eq_Some_conv)
    with SetStable_owner [OF assms(1), of slot sm] show ?thesis by (auto simp: fun_eq_iff)
  next
    case (Inr u)
    with d assms(2) obtain sm c1 r2 where f: "FinishMigration (c_slots c) slot t = Some sm"
      and b: "BroadcastSlotOwnershipChange load send (c\<lparr> c_slots := sm \<rparr>) slot t = Some (c', out, r2)" and r: "r = Inr ()" "st' = st1"
      by (auto simp: moveSlot_def bind_eq_Some_conv)
    from d Inr have "drainSlot N J now ctx st n slot addr = Some (st1, n1, Inr u)" by simp
    from drainSlot_done [OF this] FinishMigration_owner [OF assms(1) f] Broadcast_slots [OF b] r show ?thesis
      by (auto simp: fun_eq_iff)
  qed
qed


lemma KeysInSlot_New: "st_KeysInSlot now (NewStore h1 h2 cfg) slot cnt = Some (NewStore h1 h2 cfg, [])"
  by (simp add: st_KeysInSlot_def NewStore_def NewShardedCache_def Let_def)

definition demo_moved :: "SlotManager" where
  "demo_moved = slot_upd 5 (\<lambda>i. i\<lparr> si_State := SlotStateExporting, Exporting := ''n2'' \<rparr>) demo_table"


end
