(* ===== verification/HandlerProps.thy ===== *)
theory HandlerProps
  imports Handler StoreProps ClusterProps
begin

text \<open>
  Properties of the command handler: the table of commands is the map of the registered commands and the two
  dispatchers agree; every command answers with exactly one value of the protocol; writes are refused on a node
  that is not the primary; the flag of \<^verbatim>\<open>ASKING\<close> never reaches a command; what a replica makes of a replicated
  \<^verbatim>\<open>SET\<close>; \<^verbatim>\<open>WAIT\<close> ends.
\<close>

section \<open>The table of commands\<close>

lemma registerAll_names: "length (registerAll :: (string \<times> 'n CommandFunc) list) = 73"
  "distinct (map fst (registerAll :: (string \<times> 'n CommandFunc) list))"
  by (simp_all add: registerAll_def)

lemma table_exists: "\<exists>cm :: 'n CommandFunc cmdMap. newCmdMap registerAll = Some cm \<and> (\<forall>name. Lookup cm name = map_of registerAll name)"
  by (rule newCmdMap_table) (simp_all add: registerAll_names)

lemma Lookup_commands: "newCmdMap registerAll = Some cm \<Longrightarrow> Lookup cm name = map_of registerAll name"
  using table_exists by (metis option.inject)

lemma upperTable_idem [simp]: "upperTable (upperTable ch) = upperTable ch"
proof (cases "97 \<le> (of_char ch :: nat) \<and> of_char ch \<le> (122 :: nat)")
  case True
  then have "(of_char ch - 32) mod 256 = of_char ch - (32 :: nat)" by (intro mod_less) linarith
  with True show ?thesis by (auto simp: upperTable_def Let_def of_char_of)
next
  case False
  then have "upperTable ch = ch" by (auto simp: upperTable_def Let_def)
  then show ?thesis by simp
qed

text \<open>
  C23: registering the commands never overflows the table, and its lookup by linear probing is the map of the
  registered commands: it finds the function of every command and nothing for any other name.
\<close>

theorem command_table:
  "\<exists>cm :: 'n CommandFunc cmdMap. newCmdMap registerAll = Some cm \<and> (\<forall>name. Lookup cm name = map_of registerAll name)"
  by (rule table_exists)

section \<open>The dispatchers\<close>

lemma IsClusterCmd_upper: "IsClusterCmd (map upperTable cmd) \<longleftrightarrow> map upperTable cmd = ''CLUSTER''"
proof -
  have "map upperTable cmd = ''CLUSTER'' \<Longrightarrow> length cmd = 7" by (drule arg_cong [of _ _ length]) simp
  then show ?thesis by (simp add: IsClusterCmd_def comp_def) metis
qed

lemma ExecuteBytes_slow:
  "newCmdMap registerAll = Some cm \<Longrightarrow> list_all (\<lambda>ch. of_char ch < (128 :: nat)) cmd \<Longrightarrow>
   h_cluster h \<noteq> None \<or> fastPath E h c cmd args = None \<Longrightarrow> ExecuteBytes cm E h c cmd args = Execute E h c cmd args"
  by (cases "h_cluster h")
     (simp_all add: ExecuteBytes_def Execute_def ToUpperInPlace_def strings_ToUpper_def IsClusterCmd_upper Lookup_commands Let_def)

lemma map_of_PING: "map_of registerAll ''PING'' = Some cmdPing"
  by (simp add: registerAll_def)

lemma recordHotspot_off: "h_hotspot h = None \<Longrightarrow> recordHotspot h args = h"
  by (cases h) (simp add: recordHotspot_def split: list.splits)


text \<open>A concrete environment and a node without cluster, for the witnesses.\<close>

definition idle_net :: "unit Net" where
  "idle_net = \<lparr> net_dial = (\<lambda>n addr. (n, Inl (ErrMsg ''refused''))), net_ask = (\<lambda>n addr req. (n, Inl (True, ErrMsg ''closed''))) \<rparr>"

definition idle_env :: "unit Env" where
  "idle_env = \<lparr> e_now = 5, e_load = None, e_send = (\<lambda>_. Inr ()), e_dial = (\<lambda>_. Inr ()), e_meet = (\<lambda>_ _. Inl (ErrMsg ''closed'')),
     e_upper = id, e_order = id, e_mem = 0, e_wr = (\<lambda>_. True), e_json = json_unary, e_ParseFloat = (\<lambda>_. None),
     e_FormatFloat = (\<lambda>_. []), e_net = idle_net, e_polls = (\<lambda>k. (NewReplManager None, int k)), e_disk = (\<lambda>_. Inr ()), e_trim = id \<rparr>"

definition idle_handler :: "unit Handler" where
  "idle_handler = NewHandler (NewStore (\<lambda>_. 0) (\<lambda>_. 0) None) ()"


section \<open>One answer per command\<close>

text \<open>The writes that make up \<open>k\<close> vals of the protocol.\<close>

fun vals :: "nat \<Rightarrow> reply list \<Rightarrow> bool" where
  "vals k [] \<longleftrightarrow> k = 0"
| "vals k (r # rs) \<longleftrightarrow> k > 0 \<and> vals (case r of WArray n \<Rightarrow> k - 1 + nat n | _ \<Rightarrow> k - 1) rs"

declare vals.simps(2) [simp del]

definition in_step :: "Conn \<Rightarrow> Conn \<Rightarrow> bool" where
  "in_step c c' \<longleftrightarrow> (\<exists>rs. cn_out c' = cn_out c @ rs \<and> vals 1 rs)"

lemma vals_bulks: "vals k (map WBulk xs) \<longleftrightarrow> k = length xs"
proof (induction xs arbitrary: k)
  case (Cons x xs)
  show ?case using Cons.IH [of "k - 1"] by (cases k) (simp_all add: vals.simps(2))
qed simp

lemma vals_append: "vals k rs \<Longrightarrow> vals m qs \<Longrightarrow> vals (k + m) (rs @ qs)"
proof (induction rs arbitrary: k)
  case (Cons r rs)
  define j where "j = (case r of WArray n \<Rightarrow> k - 1 + nat n | _ \<Rightarrow> k - 1)"
  from Cons.prems(1) have k: "k > 0" "vals j rs" by (simp_all add: vals.simps j_def)
  have "(case r of WArray n \<Rightarrow> k + m - 1 + nat n | _ \<Rightarrow> k + m - 1) = j + m" using k(1) by (cases r) (simp_all add: j_def)
  with Cons.IH [OF k(2) Cons.prems(2)] k(1) show ?case by (simp add: vals.simps)
qed simp

lemma vals_single [simp]:
  "vals (Suc 0) [WString x]" "vals (Suc 0) [WError x]" "vals (Suc 0) [WBulk x]" "vals (Suc 0) [WNull]" "vals (Suc 0) [WInt i]"
  "vals (Suc 0) [WArray 0]"
  by (simp_all add: vals.simps)

lemma not_array [simp]:
  "vals (Suc 0) [writeDataError e]" "vals (Suc 0) [okOrErr r]" "vals (Suc 0) [wrongArgs name]"
  "vals (Suc 0) [unknownCommand name]" "vals (Suc 0) (replyInt i)" "vals (Suc 0) (replyBulk x)" "vals (Suc 0) (replyBool b)"
  by (simp_all add: writeDataError_def okOrErr_def wrongArgs_def unknownCommand_def replyInt_def replyBulk_def
      replyBool_def split: sum.splits)

lemma vals_replyArray [simp]: "vals (Suc 0) (replyArray xs)"
  by (simp add: replyArray_def vals.simps vals_bulks)

lemma vals_dataReply: "(\<And>v. vals (Suc 0) (f v)) \<Longrightarrow> vals (Suc 0) (dataReply f r)"
  by (cases r) (simp_all add: dataReply_def)

named_theorems reply_step

lemma answer_step [reply_step]: "answer h c rs = Some (h', c') \<Longrightarrow> vals (Suc 0) rs \<Longrightarrow> in_step c c'"
  by (auto simp: answer_def in_step_def)

lemma answer_step' [reply_step]:
  "answer h (c\<lparr> cn_AskingFlag := b \<rparr>) rs = Some (h', c') \<Longrightarrow> vals (Suc 0) rs \<Longrightarrow> in_step c c'"
  "answer h (c\<lparr> cn_closed := b \<rparr>) rs = Some (h', c') \<Longrightarrow> vals (Suc 0) rs \<Longrightarrow> in_step c c'"
  by (auto simp: answer_def in_step_def)

lemma engineCall_step [reply_step]:
  "engineCall h c f k = Some (h', c') \<Longrightarrow> (\<And>r. vals (Suc 0) (k r)) \<Longrightarrow> in_step c c'"
  by (auto simp: engineCall_def bind_eq_Some_conv elim: answer_step)

lemma withInt_step [reply_step]:
  "withInt h c a f = Some (h', c') \<Longrightarrow> (\<And>i. f i = Some (h', c') \<Longrightarrow> in_step c c') \<Longrightarrow> in_step c c'"
  by (auto simp: withInt_def elim: answer_step split: option.splits)

lemma replicated_write_step [reply_step]:
  "do { (h1, r) \<leftarrow> w; answer h1 c (f r) } = Some (h', c') \<Longrightarrow> (\<And>r. vals (Suc 0) (f r)) \<Longrightarrow> in_step c c'"
  by (auto simp: bind_eq_Some_conv elim: answer_step)

lemma expireWrite_step [reply_step]: "expireWrite E h c args t e op = Some (h', c') \<Longrightarrow> in_step c c'"
  by (auto simp: expireWrite_def vals_dataReply elim!: reply_step)

lemma vals_map: "(\<And>x n. f x \<noteq> WArray n) \<Longrightarrow> vals k (map f xs) \<longleftrightarrow> k = length xs"
proof (induction xs arbitrary: k)
  case (Cons x xs)
  have *: "(case f x of WArray n \<Rightarrow> j + nat n | _ \<Rightarrow> j) = j" for j using Cons.prems [of x] by (cases "f x") auto
  show ?case using Cons.IH [OF Cons.prems, of "k - 1"] by (cases k) (simp_all add: vals.simps(2) *)
qed simp

lemma vals_pairs: "vals (2 * length xs) (concat (map (\<lambda>x. [WBulk (f x), WBulk (g x)]) xs))"
  by (induction xs) (simp_all add: vals.simps(2))

lemma server_steps [reply_step]:
  "cmdPing E h c args = Some (h', c') \<Longrightarrow> in_step c c'" "cmdEcho E h c args = Some (h', c') \<Longrightarrow> in_step c c'"
  "cmdQuit E h c args = Some (h', c') \<Longrightarrow> in_step c c'" "cmdCommand E h c args = Some (h', c') \<Longrightarrow> in_step c c'"
  "cmdInfo E h c args = Some (h', c') \<Longrightarrow> in_step c c'" "cmdDebug E h c args = Some (h', c') \<Longrightarrow> in_step c c'"
  "cmdConfig E h c args = Some (h', c') \<Longrightarrow> in_step c c'" "cmdClient E h c args = Some (h', c') \<Longrightarrow> in_step c c'"
  "cmdAsking E h c args = Some (h', c') \<Longrightarrow> in_step c c'" "cmdRegReplica E h c args = Some (h', c') \<Longrightarrow> in_step c c'"
  "cmdDBSize E h c args = Some (h', c') \<Longrightarrow> in_step c c'" "cmdFlushDB E h c args = Some (h', c') \<Longrightarrow> in_step c c'"
  "cmdBGSAVE E h c args = Some (h', c') \<Longrightarrow> in_step c c'" "cmdLastSave E h c args = Some (h', c') \<Longrightarrow> in_step c c'"
  by (auto simp: cmdPing_def cmdEcho_def cmdQuit_def cmdCommand_def cmdInfo_def cmdDebug_def cmdConfig_def cmdClient_def cmdAsking_def
      cmdRegReplica_def cmdDBSize_def cmdFlushDB_def cmdBGSAVE_def cmdLastSave_def Let_def
      split: list.splits if_splits option.splits elim!: reply_step)

lemma string_steps [reply_step]:
  "cmdGet E h c args = Some (h', c') \<Longrightarrow> in_step c c'" "cmdSetNX E h c args = Some (h', c') \<Longrightarrow> in_step c c'"
  "cmdSetEX name unit E h c args = Some (h', c') \<Longrightarrow> in_step c c'" "cmdMSet E h c args = Some (h', c') \<Longrightarrow> in_step c c'"
  "cmdIncr name op E h c args = Some (h', c') \<Longrightarrow> in_step c c'" "cmdIncrBy name op' E h c args = Some (h', c') \<Longrightarrow> in_step c c'"
  "cmdAppend E h c args = Some (h', c') \<Longrightarrow> in_step c c'" "cmdStrlen E h c args = Some (h', c') \<Longrightarrow> in_step c c'"
  "cmdGetSet E h c args = Some (h', c') \<Longrightarrow> in_step c c'"
  by (auto simp: cmdGet_def cmdSetNX_def cmdSetEX_def cmdMSet_def cmdIncr_def cmdIncrBy_def cmdAppend_def cmdStrlen_def cmdGetSet_def
      vals_dataReply split: list.splits if_splits elim!: reply_step)

lemma collection_steps [reply_step]:
  "cmdHGet E h c args = Some (h', c') \<Longrightarrow> in_step c c'" "cmdHSet E h c args = Some (h', c') \<Longrightarrow> in_step c c'"
  "cmdHDel E h c args = Some (h', c') \<Longrightarrow> in_step c c'" "cmdHExists E h c args = Some (h', c') \<Longrightarrow> in_step c c'"
  "cmdHList name op E h c args = Some (h', c') \<Longrightarrow> in_step c c'" "cmdHLen E h c args = Some (h', c') \<Longrightarrow> in_step c c'"
  "cmdPushList left E h c args = Some (h', c') \<Longrightarrow> in_step c c'" "cmdPopList left E h c args = Some (h', c') \<Longrightarrow> in_step c c'"
  "cmdLRange E h c args = Some (h', c') \<Longrightarrow> in_step c c'" "cmdLLen E h c args = Some (h', c') \<Longrightarrow> in_step c c'"
  "cmdLIndex E h c args = Some (h', c') \<Longrightarrow> in_step c c'" "cmdLSet E h c args = Some (h', c') \<Longrightarrow> in_step c c'"
  "cmdLTrim E h c args = Some (h', c') \<Longrightarrow> in_step c c'" "cmdSAdd name op' E h c args = Some (h', c') \<Longrightarrow> in_step c c'"
  "cmdSMembers E h c args = Some (h', c') \<Longrightarrow> in_step c c'" "cmdSIsMember E h c args = Some (h', c') \<Longrightarrow> in_step c c'"
  "cmdSCard E h c args = Some (h', c') \<Longrightarrow> in_step c c'"
  by (auto simp: cmdHGet_def cmdHSet_def cmdHDel_def cmdHExists_def cmdHList_def cmdHLen_def cmdPushList_def cmdPopList_def
      cmdLRange_def cmdLLen_def cmdLIndex_def cmdLSet_def cmdLTrim_def cmdSAdd_def cmdSMembers_def cmdSIsMember_def cmdSCard_def
      vals_dataReply split: list.splits if_splits elim!: reply_step)

lemma zset_key_steps [reply_step]:
  "cmdZAdd E h c args = Some (h', c') \<Longrightarrow> in_step c c'" "cmdZRem E h c args = Some (h', c') \<Longrightarrow> in_step c c'"
  "cmdZRange E h c args = Some (h', c') \<Longrightarrow> in_step c c'" "cmdZScore E h c args = Some (h', c') \<Longrightarrow> in_step c c'"
  "cmdZRank E h c args = Some (h', c') \<Longrightarrow> in_step c c'" "cmdZCard E h c args = Some (h', c') \<Longrightarrow> in_step c c'"
  "cmdDel E h c args = Some (h', c') \<Longrightarrow> in_step c c'" "cmdExists E h c args = Some (h', c') \<Longrightarrow> in_step c c'"
  "cmdKeys E h c args = Some (h', c') \<Longrightarrow> in_step c c'" "cmdType E h c args = Some (h', c') \<Longrightarrow> in_step c c'"
  "cmdRename E h c args = Some (h', c') \<Longrightarrow> in_step c c'" "cmdExpire E h c args = Some (h', c') \<Longrightarrow> in_step c c'"
  "cmdExpireAt E h c args = Some (h', c') \<Longrightarrow> in_step c c'" "cmdPExpire E h c args = Some (h', c') \<Longrightarrow> in_step c c'"
  "cmdTTL name unit E h c args = Some (h', c') \<Longrightarrow> in_step c c'" "cmdPersist E h c args = Some (h', c') \<Longrightarrow> in_step c c'"
  by (auto simp: cmdZAdd_def cmdZRem_def cmdZRange_def cmdZScore_def cmdZRank_def cmdZCard_def cmdDel_def cmdExists_def cmdKeys_def
      cmdType_def cmdRename_def cmdExpire_def cmdExpireAt_def cmdPExpire_def cmdTTL_def cmdPersist_def
      vals_dataReply split: list.splits if_splits option.splits elim!: reply_step)

lemma vals_values: "vals (Suc 0) (WArray (int (length rs)) # map (\<lambda>r. case r of None \<Rightarrow> WNull | Some v \<Rightarrow> WBulk v) rs)"
  by (simp add: vals.simps(2)) (subst vals_map, auto split: option.splits)

lemma vals_fields: "vals (Suc 0) (WArray (int (length m) * 2) # concat (map (\<lambda>f. [WBulk f, WBulk (g f)]) (sort (mkeys m))))"
proof -
  have "vals (2 * length m) (concat (map (\<lambda>f. [WBulk f, WBulk (g f)]) (sort (mkeys m))))"
    using vals_pairs [of "sort (mkeys m)" "\<lambda>f. f" g] by (simp add: mkeys_def)
  moreover have "nat (int (length m) * 2) = 2 * length m" by simp
  ultimately show ?thesis by (simp add: vals.simps(2))
qed

lemma case_step [reply_step]:
  "do { (h1, r) \<leftarrow> w; case r of Inl e \<Rightarrow> answer h1 c (f e) | Inr _ \<Rightarrow> answer (g h1) c rs } = Some (h', c') \<Longrightarrow>
   (\<And>e. vals (Suc 0) (f e)) \<Longrightarrow> vals (Suc 0) rs \<Longrightarrow> in_step c c'"
proof -
  assume a: "do { (h1, r) \<leftarrow> w; case r of Inl e \<Rightarrow> answer h1 c (f e) | Inr _ \<Rightarrow> answer (g h1) c rs } = Some (h', c')"
    "\<And>e. vals (Suc 0) (f e)" "vals (Suc 0) rs"
  then obtain h1 r where "w = Some (h1, r)" by (cases w) auto
  with a show ?thesis by (cases r) (auto elim!: reply_step)
qed

lemma setOptions_WError: "setOptions up opts o' = Inl e \<Longrightarrow> \<exists>x. e = WError x"
  by (induction up opts o' rule: setOptions.induct) (auto split: if_splits option.splits)

lemma setOptions_error: "setOptions up opts o' = Inl e \<Longrightarrow> vals (Suc 0) [e]"
  using setOptions_WError by fastforce

lemma migrateCollect_error: "migrateCollect J now km s keys = Some (s', Inl rep) \<Longrightarrow> vals (Suc 0) [rep]"
proof (induction keys arbitrary: s)
  case (Cons key keys)
  from Cons.prems obtain s1 r where g: "st_GetEntry now s key = Some (s1, r)" by (auto simp: bind_eq_Some_conv)
  show ?case
  proof (cases r)
    case (Inl e)
    with Cons g show ?thesis by (auto split: if_splits)
  next
    case (Inr entry)
    show ?thesis
    proof (cases "remainingMs now (ee_ExpireAt entry) < 0")
      case True
      with Cons g Inr show ?thesis by (auto split: if_splits)
    next
      case False
      show ?thesis
      proof (cases "SerializeEntryValue J (Some entry)")
        case (Inl e)
        with Cons.prems g Inr False show ?thesis by auto
      next
        case (Inr ser)
        with Cons.prems g \<open>r = Inr entry\<close> False obtain rest where
          "migrateCollect J now km s1 keys = Some (s', rest)" "map_sum id ((#) \<lparr> mi_key = key,
             mi_ttlMs = remainingMs now (ee_ExpireAt entry), mi_serialized = ser \<rparr>) rest = Inl rep"
          by (auto simp: bind_eq_Some_conv)
        with Cons.IH [of s1] show ?thesis by (cases rest) auto
      qed
    qed
  qed
qed simp

lemma migrateItems_reply: "migrateItems E addr cp rp s n items = Some (s', n', rep) \<Longrightarrow> vals (Suc 0) [rep]"
  by (induction E addr cp rp s n items rule: migrateItems.induct) (auto simp: bind_eq_Some_conv split: prod.splits option.splits if_splits)

lemma other_steps [reply_step]:
  "cmdMGet E h c args = Some (h', c') \<Longrightarrow> in_step c c'"
  "cmdHGetAll E h c args = Some (h', c') \<Longrightarrow> in_step c c'"
  "cmdSave E h c args = Some (h', c') \<Longrightarrow> in_step c c'"
  "cmdWait E h c args = Some (h', c') \<Longrightarrow> in_step c c'"
  subgoal by (auto simp: cmdMGet_def vals_values split: if_splits elim!: reply_step)
  subgoal by (auto simp: cmdHGetAll_def vals_fields intro!: vals_dataReply split: list.splits elim!: reply_step)
  subgoal by (auto simp: cmdSave_def bind_eq_Some_conv split: option.splits if_splits elim!: reply_step)
  subgoal by (auto simp: cmdWait_def bind_eq_Some_conv split: list.splits option.splits if_splits elim!: reply_step)
  done

lemma cmdSet_step [reply_step]: "cmdSet E h c args = Some (h', c') \<Longrightarrow> in_step c c'"
  by (auto simp: cmdSet_def Let_def bind_eq_Some_conv vals_dataReply setOptions_error split: list.splits sum.splits prod.splits if_splits
      elim!: reply_step)

lemma cmdReplApply_step [reply_step]: "cmdReplApply E h c args = Some (h', c') \<Longrightarrow> in_step c c'"
  by (auto simp: cmdReplApply_def Let_def split: list.splits option.splits elim!: reply_step)

lemma bind_stepE: "Option.bind w f = Some y \<Longrightarrow> (\<And>x. w = Some x \<Longrightarrow> f x = Some y \<Longrightarrow> P) \<Longrightarrow> P"
  by (cases w) auto

lemma cmdRestore_step [reply_step]: "cmdRestore E h c args = Some (h', c') \<Longrightarrow> in_step c c'"
proof (cases "\<exists>key t ser opts. args = key # t # ser # opts")
  case True
  assume a: "cmdRestore E h c args = Some (h', c')"
  from True obtain key t ser opts where args: "args = key # t # ser # opts" by blast
  show ?thesis
  proof (cases "ParseInt t")
    case None
    with a show ?thesis by (auto simp: cmdRestore_def args elim!: reply_step)
  next
    case (Some ttlMs)
    with a show ?thesis
      by (cases ser) (auto simp: cmdRestore_def args Let_def split: if_splits elim!: bind_stepE reply_step)
  qed
qed (auto simp: cmdRestore_def split: list.splits elim!: reply_step)

lemma cmdMigrate_step [reply_step]: "cmdMigrate E h c args = Some (h', c') \<Longrightarrow> in_step c c'"
proof (cases "\<exists>host port key d t opts. args = host # port # key # d # t # opts")
  case True
  assume a: "cmdMigrate E h c args = Some (h', c')"
  from True obtain host port key d t opts where args: "args = host # port # key # d # t # opts" by blast
  obtain cp rp keys where o: "migrateOptions (strings_ToUpper (e_upper E)) opts False False = (cp, rp, keys)"
    by (metis prod.exhaust)
  show ?thesis
  proof (cases "ParseInt d = None \<or> h_cluster h \<noteq> None \<and> ParseInt d \<noteq> Some 0 \<or> ParseInt t = None \<or> keys \<noteq> None \<and> key \<noteq> [] \<or> keys = Some []")
    case True
    with a show ?thesis by (auto simp: cmdMigrate_def args o split: option.splits if_splits elim!: reply_step)
  next
    case False
    then obtain db where db: "ParseInt d = Some db" "h_cluster h \<noteq> None \<longrightarrow> db = 0" by auto
    from a False db obtain s1 r where r: "migrateCollect (e_json E) (e_now E) (keys \<noteq> None) (h_engine h)
        (case keys of None \<Rightarrow> [key] | Some ks \<Rightarrow> ks) = Some (s1, r)"
      by (auto simp: cmdMigrate_def args o simp del: migrateCollect.simps elim!: bind_stepE split: option.splits if_splits)
    then have "r = Inl a \<Longrightarrow> vals (Suc 0) [a]" for a by (auto intro: migrateCollect_error)
    with a False db r show ?thesis
      by (cases r) (auto simp: cmdMigrate_def args o Let_def migrateItems_reply simp del: migrateCollect.simps
          split: if_splits elim!: bind_stepE reply_step)
  qed
qed (auto simp: cmdMigrate_def split: list.splits elim!: reply_step)

lemma commands_in_step:
  "map_of registerAll name = Some fn \<Longrightarrow> fn E h c args = Some (h', c') \<Longrightarrow> in_step c c'"
  by (drule map_of_SomeD) (auto simp: registerAll_def elim!: reply_step)

lemma vals_concat: "(\<And>x. x \<in> set xs \<Longrightarrow> vals (Suc 0) (f x)) \<Longrightarrow> vals (length xs) (concat (map f xs))"
proof (induction xs)
  case (Cons x xs)
  have "vals (Suc 0 + length xs) (f x @ concat (map f xs))" by (rule vals_append) (use Cons in auto)
  then show ?case by simp
qed simp

lemma vals_unique: "vals k rs \<Longrightarrow> vals m rs \<Longrightarrow> k = m"
proof (induction rs arbitrary: k m)
  case (Cons r rs)
  let ?n = "\<lambda>k. case r of WArray n \<Rightarrow> k - 1 + nat n | _ \<Rightarrow> k - 1"
  from Cons.prems have *: "k > 0" "m > 0" "vals (?n k) rs" "vals (?n m) rs" by (simp_all add: vals.simps)
  from Cons.IH [OF *(3,4)] *(1,2) show ?case by (cases r) auto
qed simp

lemma vals_op:
  "vals (Suc 0) [WArray 7, WInt a, WInt b, WInt d, WBulk e, WBulk f, WInt g, WBulk i]"
  "vals (Suc 0) [WArray 3, WInt a, WInt b, WArray 3, WBulk e, WInt g, WBulk i]"
  by (simp_all add: vals.simps(2))

lemma vals_slots:
  "vals (Suc 0) (WArray (int (length rs)) # concat (map (slotsEntry c) rs)) \<longleftrightarrow>
   (\<forall>r \<in> set rs. cl_GetSlotNode c (sr_Start r) \<noteq> None)"
proof -
  let ?known = "filter (\<lambda>r. cl_GetSlotNode c (sr_Start r) \<noteq> None) rs"
  have "concat (map (slotsEntry c) rs) = concat (map (slotsEntry c) ?known)"
    by (induction rs) (auto simp: slotsEntry_def)
  moreover have "vals (length ?known) (concat (map (slotsEntry c) ?known))"
    by (rule vals_concat) (auto simp: slotsEntry_def vals_op)
  ultimately have *: "vals (length ?known) (concat (map (slotsEntry c) rs))" by simp
  have "vals (Suc 0) (WArray (int (length rs)) # concat (map (slotsEntry c) rs)) \<longleftrightarrow> length ?known = length rs"
  proof -
    have "vals (length rs) (concat (map (slotsEntry c) rs)) \<longleftrightarrow> length ?known = length rs"
      using * vals_unique [OF *, of "length rs"] by metis
    then show ?thesis by (simp add: vals.simps(2))
  qed
  also have "\<dots> \<longleftrightarrow> (\<forall>r \<in> set rs. cl_GetSlotNode c (sr_Start r) \<noteq> None)"
    by (metis (mono_tags, lifting) filter_id_conv length_filter_less less_irrefl)
  finally show ?thesis .
qed

lemma vals_psync:
  "vals (Suc 0) (WArray (int (length ops)) # concat (map (\<lambda>op. [WArray 7, WInt (uint (op_Slot op)), WInt (sint (op_Epoch op)),
     WInt (sint (op_LSN op)), WBulk (OpType op), WBulk (op_Key op), WInt (ExpireAtNs op), WBulk (Payload op)]) ops))"
  using vals_concat [of ops, OF vals_op(1)] by (simp add: vals.simps(2))

lemma says_vals: "says cl st rs = Some (cl', st', out, rs') \<Longrightarrow> vals (Suc 0) rs \<Longrightarrow> vals (Suc 0) rs'"
  by (simp add: says_def)

lemma cluster_vals:
  "clusterReplicate cl st args = Some (cl', st', out, rs) \<Longrightarrow> vals (Suc 0) rs"
  "clusterFailover E cl st args = Some (cl', st', out, rs) \<Longrightarrow> vals (Suc 0) rs"
  "clusterPSync cl st args = Some (cl', st', out, rs) \<Longrightarrow> vals (Suc 0) rs"
  "clusterInfo E cl st = Some (cl', st', out, rs) \<Longrightarrow> vals (Suc 0) rs"
  "clusterNodes cl st = Some (cl', st', out, rs) \<Longrightarrow> vals (Suc 0) rs"
  "clusterKeySlot cl st args = Some (cl', st', out, rs) \<Longrightarrow> vals (Suc 0) rs"
  "clusterMeet E cl st args = Some (cl', st', out, rs) \<Longrightarrow> vals (Suc 0) rs"
  "clusterAddSlots cl st args = Some (cl', st', out, rs) \<Longrightarrow> vals (Suc 0) rs"
  "clusterCountKeysInSlot E cl st args = Some (cl', st', out, rs) \<Longrightarrow> vals (Suc 0) rs"
  "clusterSetSlot E cl st args = Some (cl', st', out, rs) \<Longrightarrow> vals (Suc 0) rs"
  subgoal by (auto simp: clusterReplicate_def split: list.splits if_splits prod.splits elim!: says_vals)
  subgoal by (auto simp: clusterFailover_def Let_def split: list.splits option.splits prod.splits sum.splits elim!: says_vals bind_stepE)
  subgoal by (auto simp: clusterPSync_def Let_def vals_psync split: list.splits option.splits if_splits elim!: says_vals)
  subgoal by (auto simp: clusterInfo_def Let_def elim!: says_vals)
  subgoal by (auto simp: clusterNodes_def elim!: says_vals)
  subgoal by (auto simp: clusterKeySlot_def split: list.splits elim!: says_vals)
  subgoal by (auto simp: clusterMeet_def Let_def split: list.splits option.splits elim!: says_vals bind_stepE)
  subgoal by (auto simp: clusterAddSlots_def split: if_splits option.splits prod.splits elim!: says_vals)
  subgoal by (auto simp: clusterCountKeysInSlot_def split: list.splits option.splits elim!: says_vals bind_stepE)
  subgoal by (auto simp: clusterSetSlot_def Let_def split: list.splits option.splits if_splits elim!: says_vals bind_stepE)
  done

lemma getkeys_vals: "clusterGetKeysInSlot E cl st args = Some (cl', st', out, rs) \<Longrightarrow> vals (Suc 0) rs"
  by (auto simp: clusterGetKeysInSlot_def vals_replyArray [unfolded replyArray_def] split: list.splits option.splits if_splits elim!: bind_stepE says_vals)

lemma HandleCluster_vals:
  "HandleCluster E cl st args = Some (cl', st', out, rs) \<Longrightarrow> \<forall>a rest. args = a # rest \<longrightarrow> strings_ToUpper (e_upper E) a \<noteq> ''SLOTS'' \<Longrightarrow>
   vals (Suc 0) rs"
  by (auto simp: HandleCluster_def Let_def split: list.splits if_splits elim!: says_vals cluster_vals getkeys_vals)

lemma HandleCluster_slots:
  "strings_ToUpper (e_upper E) a = ''SLOTS'' \<Longrightarrow> HandleCluster E cl st (a # rest) = Some (cl', st', out, rs) \<Longrightarrow>
   vals (Suc 0) rs \<longleftrightarrow> (\<forall>r \<in> set (GetClusterSlots (c_slots cl)). cl_GetSlotNode cl (sr_Start r) \<noteq> None)"
  by (auto simp: HandleCluster_def clusterSlots_def says_def Let_def vals_slots)

text \<open>The owner of some slots is not known to the node, which answers the list of the slots.\<close>

definition slots_of_unknown :: "'n Env \<Rightarrow> 'n Handler \<Rightarrow> string \<Rightarrow> string list \<Rightarrow> bool" where
  "slots_of_unknown E h cmd args \<longleftrightarrow> map upperTable cmd = ''CLUSTER'' \<and>
     (\<exists>cl a rest. h_cluster h = Some cl \<and> args = a # rest \<and> strings_ToUpper (e_upper E) a = ''SLOTS'' \<and>
        (\<exists>r \<in> set (GetClusterSlots (c_slots cl)). cl_GetSlotNode cl (sr_Start r) = None))"

lemma in_step_writes: "in_step c (writes rs c) \<longleftrightarrow> vals (Suc 0) rs"
  by (auto simp: in_step_def)

lemma e_upper_truncate [simp]: "e_upper (ClusterEnv.truncate E) = e_upper E"
  by (simp add: ClusterEnv.truncate_def)

lemma clusterCommand_step:
  assumes "clusterCommand E h c args = Some (h', c')" "map upperTable cmd = ''CLUSTER''"
  shows "in_step c c' \<longleftrightarrow> \<not> slots_of_unknown E h cmd args"
proof (cases "h_cluster h")
  case None
  with assms show ?thesis by (auto simp: clusterCommand_def answer_def slots_of_unknown_def in_step_writes)
next
  case (Some cl)
  with assms(1) obtain cl' s out rs where r: "HandleCluster (ClusterEnv.truncate E) cl (h_engine h) args = Some (cl', s, out, rs)"
    "c' = writes rs c" by (auto simp: clusterCommand_def answer_def elim!: bind_stepE)
  have "vals (Suc 0) rs \<longleftrightarrow> \<not> slots_of_unknown E h cmd args"
  proof (cases "\<exists>a rest. args = a # rest \<and> strings_ToUpper (e_upper E) a = ''SLOTS''")
    case True
    then obtain a rest where "args = a # rest" "strings_ToUpper (e_upper E) a = ''SLOTS''" by blast
    with r(1) Some assms(2) HandleCluster_slots [of "ClusterEnv.truncate E" a cl "h_engine h" rest] show ?thesis
      by (auto simp: slots_of_unknown_def)
  next
    case False
    with HandleCluster_vals [OF r(1)] show ?thesis by (auto simp: slots_of_unknown_def)
  qed
  then show ?thesis by (simp add: r(2) in_step_writes)
qed

lemma route_replies:
  "routeCommand h c cmd args = Some result \<Longrightarrow> handleRouteResult result = (rs, False) \<Longrightarrow> \<exists>x. rs = [WError x]"
  by (auto simp: routeCommand_def handleRouteResult_def Route_def RouteMulti_def routeLocal_def routeTo_def Let_def
      split: if_splits option.splits list.splits)

lemma runCommand_step:
  assumes "runCommand E h c cmd fn args = Some (h', c')" "map_of registerAll cmd = Some fn"
  shows "in_step c c'"
proof -
  obtain rs b where r: "(case routeCommand h c cmd args of None \<Rightarrow> ([], True) | Some result \<Rightarrow> handleRouteResult result) = (rs, b)"
    by (metis prod.exhaust)
  have clear: "in_step c (clearAskingFlag d) \<longleftrightarrow> in_step c d" for d by (simp add: in_step_def)
  show ?thesis
  proof (cases b)
    case True
    with assms r show ?thesis
      by (auto simp: runCommand_def clear in_step_writes split: if_splits elim!: bind_stepE dest: commands_in_step [OF assms(2)])
  next
    case False
    with r route_replies [of h c cmd args _ rs] obtain x where "rs = [WError x]" by (auto split: option.splits)
    with assms r False show ?thesis by (auto simp: runCommand_def clear in_step_writes)
  qed
qed

lemma fastPath_step: "fastPath E h c cmd args = Some r \<Longrightarrow> r = Some (h', c') \<Longrightarrow> in_step c c'"
  by (auto simp: fastPath_def fastSet_def fastGet_def fastIncr_def Let_def split: if_splits list.splits sum.splits elim!: reply_step)

text \<open>
  C20: every command answers with exactly one value of the protocol, so that the answers of a pipeline stay in
  step with its commands: unknown commands, wrong numbers of arguments, redirections and errors included. The
  only exception is \<^verbatim>\<open>CLUSTER SLOTS\<close> when the owner of an assigned slot is not known to the node: the header of the
  array counts a range that is left out, and the client waits for it.
\<close>

theorem one_answer:
  assumes cm: "newCmdMap registerAll = Some cm" and run: "ExecuteBytes cm E h c cmd args = Some (h', c')"
  shows "(\<exists>rs. cn_out c' = cn_out c @ rs \<and> vals 1 rs) \<longleftrightarrow> \<not> slots_of_unknown E h cmd args"
proof -
  have "in_step c c' \<longleftrightarrow> \<not> slots_of_unknown E h cmd args"
  proof (cases "h_cluster h = None \<and> fastPath E h c cmd args \<noteq> None")
    case True
    with run have "in_step c c'" by (auto simp: ExecuteBytes_def dest: fastPath_step)
    with True show ?thesis by (auto simp: slots_of_unknown_def)
  next
    case False
    then have slow: "(if h_cluster h = None then fastPath E h c cmd args else None) = None" by auto
    show ?thesis
    proof (cases "map upperTable cmd = ''CLUSTER''")
      case True
      then have "IsClusterCmd ''CLUSTER''" using IsClusterCmd_upper [of cmd] by simp
      with run True have "clusterCommand E h c args = Some (h', c')"
        by (simp add: ExecuteBytes_def slow ToUpperInPlace_def Let_def)
      then show ?thesis by (rule clusterCommand_step [OF _ True])
    next
      case other: False
      with run show ?thesis
        by (auto simp: ExecuteBytes_def slow ToUpperInPlace_def IsClusterCmd_upper Lookup_commands [OF cm] slots_of_unknown_def Let_def
            split: if_splits option.splits elim!: reply_step dest: runCommand_step)
    qed
  qed
  then show ?thesis by (simp add: in_step_def)
qed

theorem one_answer_witness:
  "\<exists>cm. newCmdMap registerAll = Some cm \<and>
     (\<exists>h' c'. ExecuteBytes cm idle_env idle_handler newConn ''PING'' [] = Some (h', c') \<and> (\<exists>rs. cn_out c' = cn_out newConn @ rs \<and> vals 1 rs))"
proof -
  obtain cm :: "unit CommandFunc cmdMap" where cm: "newCmdMap registerAll = Some cm" using table_exists by blast
  have up: "map upperTable ''PING'' = ''PING''" by (simp add: upperTable_def Let_def)
  have "ExecuteBytes cm idle_env idle_handler newConn ''PING'' [] = Some (idle_handler, writes [WString ''PONG''] newConn)"
    using up by (simp add: ExecuteBytes_def fastPath_def idle_handler_def NewHandler_def answer_def)
  moreover have "\<not> slots_of_unknown idle_env idle_handler ''PING'' []" by (simp add: slots_of_unknown_def)
  ultimately show ?thesis using one_answer [OF cm, of idle_env idle_handler newConn "''PING''" "[]"] cm by blast
qed

section \<open>Writes on a node that is not the primary\<close>

lemma write_registered: "cmd \<in> writeCommands \<Longrightarrow> \<exists>fn. map_of registerAll cmd = Some fn" "cmd \<in> writeCommands \<Longrightarrow> cmd \<noteq> ''CLUSTER''"
  by (auto simp: writeCommands_def registerAll_def)

lemma MSET_write: "''MSET'' \<in> writeCommands" "''RESTORE'' \<in> writeCommands" "''RESTORE'' \<notin> keyCommands" "\<not> isMultiKeyCommand ''RESTORE''"
  by (auto simp: writeCommands_def keyCommands_def isMultiKeyCommand_def multiKeyCommands_def)

lemma ExecuteBytes_cluster:
  "newCmdMap registerAll = Some cm \<Longrightarrow> h_cluster h \<noteq> None \<Longrightarrow> map_of registerAll (map upperTable cmd) = Some fn \<Longrightarrow>
   map upperTable cmd \<noteq> ''CLUSTER'' \<Longrightarrow> ExecuteBytes cm E h c cmd args = runCommand E h c (map upperTable cmd) fn args"
  by (auto simp: ExecuteBytes_def ToUpperInPlace_def IsClusterCmd_upper Lookup_commands)

lemma first_key:
  "cmd \<in> keyCommands \<or> cmd = ''MSET'' \<and> rest \<noteq> [] \<Longrightarrow> h_cluster h = Some cl \<Longrightarrow>
   canAcceptWrite h cmd (key # rest) = CanAcceptWrite cl key"
proof (cases "map_of multiKeyCommands cmd")
  case None
  assume "cmd \<in> keyCommands \<or> cmd = ''MSET'' \<and> rest \<noteq> []" "h_cluster h = Some cl"
  moreover have "map_of multiKeyCommands ''MSET'' \<noteq> None" by (simp add: multiKeyCommands_def)
  ultimately show ?thesis using None by (auto simp: canAcceptWrite_def getKeysForCrossSlotCheck_def)
next
  case (Some ex)
  assume a: "cmd \<in> keyCommands \<or> cmd = ''MSET'' \<and> rest \<noteq> []" "h_cluster h = Some cl"
  then have "ex (key # rest) \<noteq> [] \<and> hd (ex (key # rest)) = key"
    using Some by (cases rest) (auto simp: multiKeyCommands_def keyCommands_def extractAllKeys_def extractMSetKeys_def split: if_splits)
  then obtain ks where "ex (key # rest) = key # ks" by (cases "ex (key # rest)") auto
  with a Some show ?thesis by (simp add: canAcceptWrite_def getKeysForCrossSlotCheck_def)
qed


section \<open>The flag of ASKING\<close>

lemma answer_flag: "answer h c rs = Some (h', c') \<Longrightarrow> cn_AskingFlag c' = cn_AskingFlag c"
  by (auto simp: answer_def)

lemma engineCall_flag: "engineCall h c f k = Some (h', c') \<Longrightarrow> cn_AskingFlag c' = cn_AskingFlag c"
  by (auto simp: engineCall_def answer_def elim!: bind_stepE)

lemma fastPath_flag: "fastPath E h c cmd args = Some r \<Longrightarrow> r = Some (h', c') \<Longrightarrow> cn_AskingFlag c' = cn_AskingFlag c"
  by (auto simp: fastPath_def fastSet_def fastGet_def fastIncr_def Let_def split: if_splits dest: answer_flag engineCall_flag)

lemma clusterCommand_flag: "clusterCommand E h c args = Some (h', c') \<Longrightarrow> cn_AskingFlag c' = cn_AskingFlag c"
  by (auto simp: clusterCommand_def split: option.splits elim!: bind_stepE dest!: answer_flag)

lemma runCommand_flag: "runCommand E h c cmd fn args = Some (h', c') \<Longrightarrow> \<not> cn_AskingFlag c'"
  by (auto simp: runCommand_def split: prod.splits bool.splits if_splits elim!: bind_stepE)

lemma ExecuteBytes_flag:
  "ExecuteBytes cm E h c cmd args = Some (h', c') \<Longrightarrow> \<not> cn_AskingFlag c \<Longrightarrow> \<not> cn_AskingFlag c'"
  by (auto simp: ExecuteBytes_def Let_def split: option.splits if_splits
      dest: answer_flag fastPath_flag clusterCommand_flag runCommand_flag)

lemma pipeline_flag: "pipeline cm E h c cmds = Some (h', c') \<Longrightarrow> \<not> cn_AskingFlag c \<Longrightarrow> \<not> cn_AskingFlag c'"
proof (induction cmds arbitrary: h c)
  case (Cons x cmds)
  show ?case
  proof (cases x)
    case Nil
    with Cons show ?thesis by simp
  next
    case (Cons cmd args)
    with Cons.prems obtain h1 c1 where *: "ExecuteBytes cm E h c cmd args = Some (h1, c1)" "pipeline cm E h1 c1 cmds = Some (h', c')"
      by (auto elim!: bind_stepE)
    from Cons.IH [OF *(2) ExecuteBytes_flag [OF *(1) Cons.prems(2)]] show ?thesis .
  qed
qed simp

lemma key_registered: "cmd \<in> keyCommands \<Longrightarrow> \<exists>fn. map_of registerAll cmd = Some fn" "cmd \<in> keyCommands \<Longrightarrow> cmd \<noteq> ''CLUSTER''"
  by (auto simp: keyCommands_def registerAll_def)

lemma redirected:
  fixes h :: "'n Handler"
  assumes cm: "newCmdMap registerAll = Some cm" and k: "map upperTable cmd \<in> keyCommands" "\<not> isMultiKeyCommand (map upperTable cmd)"
    and cl: "h_cluster h = Some cl" and r: "Route (Some cl) key (cn_AskingFlag c) = routeTo t slot addr"
  shows "ExecuteBytes cm E h c cmd (key # args) =
    Some (h, clearAskingFlag (writes [WError ((case t of RedirectMoved \<Rightarrow> ''MOVED '' | RedirectAsk \<Rightarrow> ''ASK '') @
      FormatInt (uint slot) @ '' '' @ addr)] c))"
proof -
  obtain fn :: "'n CommandFunc" where fn: "map_of registerAll (map upperTable cmd) = Some fn" using key_registered(1) [OF k(1)] by blast
  from ExecuteBytes_cluster [OF cm _ fn key_registered(2) [OF k(1)], of h E c "key # args"] cl k r show ?thesis
    by (simp add: runCommand_def routeCommand_def handleRouteResult_def routeTo_def)
qed

text \<open>
  C40: the flag of \<^verbatim>\<open>ASKING\<close> never reaches the next command, because the dispatcher clears it after \<^verbatim>\<open>ASKING\<close> itself:
  whatever a connection has sent, its flag is not set. So during a migration neither node executes a command for
  a key of the slot: the old owner answers every such command with \<^verbatim>\<open>ASK\<close>, and the importing node, also after
  \<^verbatim>\<open>ASKING\<close>, answers it with \<^verbatim>\<open>MOVED\<close> to the old owner.
\<close>

theorem asking_lost:
  assumes cm: "newCmdMap registerAll = Some cm" and run: "pipeline cm E h newConn cmds = Some (h', c')"
    and cmd: "map upperTable cmd \<in> keyCommands" "\<not> isMultiKeyCommand (map upperTable cmd)"
    and cl: "h_cluster h' = Some cl" "GetSlotInfo (c_slots cl) (KeySlot key) = Some info" "NodeID info \<noteq> []"
  shows "\<not> cn_AskingFlag c' \<and>
    (NodeID info \<noteq> nd_ID (c_self cl) \<longrightarrow> cl_GetSlotNode cl (KeySlot key) = Some owner \<longrightarrow>
       ExecuteBytes cm E h' c' cmd (key # args) =
         Some (h', clearAskingFlag (writes [WError (''MOVED '' @ FormatInt (uint (KeySlot key)) @ '' '' @ nd_Addr owner)] c'))) \<and>
    (NodeID info = nd_ID (c_self cl) \<longrightarrow> si_State info = SlotStateExporting \<longrightarrow> Exporting info \<noteq> [] \<longrightarrow>
       ExecuteBytes cm E h' c' cmd (key # args) =
         Some (h', clearAskingFlag (writes [WError (''ASK '' @ FormatInt (uint (KeySlot key)) @ '' '' @ getPeerAddr cl (Exporting info))] c')))"
proof -
  have flag: "\<not> cn_AskingFlag c'" by (rule pipeline_flag [OF run]) (simp add: newConn_def)
  have moved: "Route (Some cl) key (cn_AskingFlag c') = routeTo RedirectMoved (KeySlot key) (nd_Addr owner)"
    if "NodeID info \<noteq> nd_ID (c_self cl)" "cl_GetSlotNode cl (KeySlot key) = Some owner"
    using that cl(2,3) flag by (simp add: Route_def Let_def)
  have ask: "Route (Some cl) key (cn_AskingFlag c') = routeTo RedirectAsk (KeySlot key) (getPeerAddr cl (Exporting info))"
    if "NodeID info = nd_ID (c_self cl)" "si_State info = SlotStateExporting" "Exporting info \<noteq> []"
    using that cl(2,3) by (simp add: Route_def Let_def)
  show ?thesis
    using flag redirected [OF cm cmd cl(1) moved, of E args] redirected [OF cm cmd cl(1) ask, of E args] by auto
qed

text \<open>The importing node of the demonstration cluster.\<close>

definition importing :: "unit Handler" where
  "importing = SetCluster idle_handler (demo_net ''b:7'')"

lemma importing_view:
  "h_cluster importing = Some (demo_net ''b:7'')" "nd_ID (c_self (demo_net ''b:7'')) = ''n2''"
  "GetSlotInfo (c_slots (demo_net ''b:7'')) (KeySlot ''foo'') =
     Some ((owned_by ''n1'')\<lparr> si_State := SlotStateImporting, Importing := ''n1'' \<rparr>)"
  "NodeID (owned_by n) = n" "PrimaryID (owned_by n) = n"
  by (simp_all add: importing_def SetCluster_def demo_net_def demo_cluster_view GetSlotInfo_key slot_at_demo_slot owned_by_def)

lemma upper_words: "map upperTable ''GET'' = ''GET''" "map upperTable ''SET'' = ''SET''" "map upperTable ''ASKING'' = ''ASKING''"
  by (simp_all add: upperTable_def Let_def)

lemma get_set_commands: "''GET'' \<in> keyCommands" "''SET'' \<in> keyCommands" "''SET'' \<in> writeCommands" "\<not> isMultiKeyCommand ''GET''"
  by (simp_all add: keyCommands_def writeCommands_def isMultiKeyCommand_def multiKeyCommands_def)


theorem asking_lost_witness:
  "\<exists>cm c'. newCmdMap registerAll = Some cm \<and> pipeline cm idle_env importing newConn [[''ASKING'']] = Some (importing, c') \<and>
     ExecuteBytes cm idle_env importing c' ''GET'' [''foo''] =
       Some (importing, clearAskingFlag (writes [WError (''MOVED '' @ FormatInt (uint (KeySlot ''foo'')) @ '' a:7'')] c'))"
proof -
  obtain cm :: "unit CommandFunc cmdMap" where cm: "newCmdMap registerAll = Some cm" using table_exists by blast
  let ?c = "clearAskingFlag (writes [WString ''OK''] (newConn\<lparr> cn_AskingFlag := True \<rparr>))"
  have "map_of registerAll ''ASKING'' = Some (cmdAsking :: unit CommandFunc)" by (simp add: registerAll_def)
  with ExecuteBytes_cluster [OF cm, of importing "''ASKING''" cmdAsking idle_env newConn "[]", unfolded upper_words]
  have run: "pipeline cm idle_env importing newConn [[''ASKING'']] = Some (importing, ?c)"
    by (simp add: importing_view runCommand_def routeCommand_def cmdAsking_def answer_def recordHotspot_def)
  have owner: "cl_GetSlotNode (demo_net ''b:7'') (KeySlot ''foo'') = Some (gossipNodeToNode (demo_peer ''n1'' ''a''))"
    by (simp add: cl_GetSlotNode_def cl_GetNode_def GetNode_def GetSlotNode_key demo_net_def demo_cluster_view slot_at_demo_slot owned_by_def)
  have "nd_Addr (gossipNodeToNode (demo_peer ''n1'' ''a'')) = ''a:7''" using demo_peer_view(1) [of "''n1''" "''a''"] by (simp add: nd_Addr_node)
  with asking_lost [OF cm run, of "''GET''" "demo_net ''b:7''" "''foo''" _ "gossipNodeToNode (demo_peer ''n1'' ''a'')" "[]", unfolded upper_words]
    get_set_commands cm run owner importing_view show ?thesis by (intro exI [of _ cm] exI [of _ ?c]) simp
qed

section \<open>Replication of SET\<close>

abbreviation NUL :: char where "NUL \<equiv> CHR 0x00"

lemma splitNul_first: "\<exists>ps. splitNul s = takeWhile (\<lambda>ch. ch \<noteq> NUL) s # ps"
  by (induction s) auto

lemma splitNul_append: "NUL \<notin> set a \<Longrightarrow> splitNul (a @ NUL # b) = a # splitNul b"
  by (induction a) auto

lemma splitNul_plain: "NUL \<notin> set a \<Longrightarrow> splitNul a = [a]"
  by (induction a) auto

lemma takeWhile_join: "takeWhile (\<lambda>ch. ch \<noteq> NUL) (joinWith [NUL] (v # opts)) = takeWhile (\<lambda>ch. ch \<noteq> NUL) v"
  by (cases opts) (auto simp: takeWhile_append intro: takeWhile_eq_all_conv [THEN iffD2, symmetric])

lemma splitNul_join: "\<forall>a \<in> set args. NUL \<notin> set a \<Longrightarrow> args \<noteq> [] \<Longrightarrow> splitNul (joinWith [NUL] args) = args"
  by (induction "[NUL]" args rule: joinWith.induct) (auto simp: splitNul_append splitNul_plain)

text \<open>What the second field of the payload is for a replica: the value up to its first zero byte.\<close>

lemma payload_value:
  assumes "NUL \<notin> set k"
  shows "\<exists>ps. decodeReplicationPayload (encodeReplicationPayload (k # v # opts)) = k # takeWhile (\<lambda>ch. ch \<noteq> NUL) v # ps"
proof -
  have "encodeReplicationPayload (k # v # opts) = k @ NUL # joinWith [NUL] (v # opts)" by (simp add: encodeReplicationPayload_def)
  moreover from splitNul_first [of "joinWith [NUL] (v # opts)", unfolded takeWhile_join]
  obtain ps where "splitNul (joinWith [NUL] (v # opts)) = takeWhile (\<lambda>ch. ch \<noteq> NUL) v # ps" by blast
  ultimately show ?thesis using assms by (simp add: decodeReplicationPayload_def splitNul_append)
qed

lemma executeOp_SET:
  assumes "NUL \<notin> set k" "OpType op = ''SET''" "Payload op = encodeReplicationPayload (k # v # opts)" "op_Key op = k"
  shows "executeOp now mem op s = st_Set now mem s k (takeWhile (\<lambda>ch. ch \<noteq> NUL) v)
    (if ExpireAtNs op > 0 then max 0 (ExpireAtNs op - now) else 0)"
proof -
  from payload_value [OF assms(1), of v opts] obtain ps where
    "decodeReplicationPayload (Payload op) = k # takeWhile (\<lambda>ch. ch \<noteq> NUL) v # ps" using assms(3) by auto
  then show ?thesis by (simp add: executeOp_def assms(2,4) Let_def)
qed

text \<open>A write that succeeds leaves its operation at the end of the log of its slot, and sends it to the replicas.\<close>

lemma log_Append_last:
  assumes "log_Append l op = (l', Inr u)" "0 < ls_limit l"
  shows "\<exists>ops. mget0 [] (logs l') (op_Slot op) = ops @ [op]"
proof -
  let ?l = "mget0 [] (logs l) (op_Slot op) @ [op]"
  have "\<exists>ops. drop (length ?l - n) ?l = ops @ [op]" if "n > 0" for n
    using that by (intro exI [of _ "drop (length ?l - n) (mget0 [] (logs l) (op_Slot op))"]) simp
  moreover have "nat (ls_limit l) > 0" using assms(2) by simp
  ultimately show ?thesis using assms(1)
    by (auto simp: log_Append_def Let_def mget0_def mget_mput split: if_splits)
qed

lemma dispatch_sends: "dispatch wr resolve m op = (m', sent) \<Longrightarrow>
  rm_logs m' = rm_logs m \<and> sent = map (\<lambda>(k, c). (c, encodeReplicationApplyCommand op)) (filter (\<lambda>(k, c). wr c) (rm_conns m))"
  by (auto simp: dispatch_def repl_Broadcast_def Let_def split: option.splits)

lemma applyReplicationWrite_ok:
  assumes w: "applyReplicationWrite E h key t p e f = Some (h', Inr v)" and cl: "h_cluster h = Some cl"
    and room: "0 < ls_limit (rm_logs (c_replication cl))"
  shows "\<exists>cl' op ops. h_cluster h' = Some cl' \<and> mget0 [] (logs (rm_logs (c_replication cl'))) (KeySlot key) = ops @ [op] \<and>
    op_Slot op = KeySlot key \<and> OpType op = t \<and> op_Key op = key \<and> Payload op = p \<and> ExpireAtNs op = e \<and>
    h_sent h' = h_sent h @ map (\<lambda>(n, c). (c, encodeReplicationApplyCommand op)) (filter (\<lambda>(n, c). e_wr E c) (rm_conns (c_replication cl)))"
proof -
  let ?m = "c_replication cl"
  from w obtain s r where s: "f (h_engine h) = Some (s, r)" by (auto simp: applyReplicationWrite_def elim!: bind_stepE)
  obtain v' where r: "r = Inr v'"
    using w s cl by (cases r) (auto simp: applyReplicationWrite_def ApplyWrite_def Let_def)
  obtain sm a where a: "AllocateLSN (c_slots cl) (KeySlot key) = (sm, a)" by (metis prod.exhaust)
  obtain epoch lsn where e: "a = Inr (epoch, lsn)"
    using w s cl r a by (cases a) (auto simp: applyReplicationWrite_def ApplyWrite_def Let_def)
  define op where "op = \<lparr> op_Slot = KeySlot key, op_Epoch = epoch, op_LSN = lsn, OpType = t, op_Key = key, Payload = p, ExpireAtNs = e \<rparr>"
  obtain l u where l: "log_Append (rm_logs ?m) op = (l, u)" by (metis prod.exhaust)
  have u: "u = Inr ()"
    using w s cl r a e l by (cases u) (auto simp: applyReplicationWrite_def ApplyWrite_def Let_def op_def)
  obtain m' sent where d: "dispatch (e_wr E) (Some (replicationTargetsForSlot cl)) (?m\<lparr> rm_logs := l \<rparr>) op = (m', sent)"
    by (metis prod.exhaust)
  have h': "h_cluster h' = Some (cl\<lparr> c_slots := sm, c_replication := m' \<rparr>)" "h_sent h' = h_sent h @ sent"
    using w s cl r a e l u d by (auto simp: applyReplicationWrite_def ApplyWrite_def Let_def op_def)
  from log_Append_last [OF l [unfolded u] room] obtain ops where "mget0 [] (logs l) (KeySlot key) = ops @ [op]"
    by (auto simp: op_def)
  with h' dispatch_sends [OF d] show ?thesis by (intro exI [of _ "cl\<lparr> c_slots := sm, c_replication := m' \<rparr>"] exI [of _ op] exI [of _ ops])
      (simp add: op_def)
qed

lemma cmdSet_write:
  assumes run: "cmdSet E h c (k # v # opts) = Some (h', c')" and ok: "cn_out c' = cn_out c @ [WString ''OK'']"
  shows "\<exists>ttl nx xx. applyReplicationWrite E h k ''SET'' (encodeReplicationPayload (k # v # opts))
    (if ttl > 0 then i64 (e_now E + ttl) else 0) (setApply E k v ttl nx xx) = Some (h', Inr ())"
proof -
  obtain o' where o': "setOptions (strings_ToUpper (e_upper E)) opts (0, False, False) = o'" by blast
  show ?thesis
  proof (cases o')
    case (Inl e)
    with run ok o' have "e = WString ''OK''" by (simp add: cmdSet_def answer_def) auto
    with setOptions_WError [of "strings_ToUpper (e_upper E)" opts "(0, False, False)" e] Inl o' show ?thesis by auto
  next
    case (Inr q)
    obtain ttl nx xx where q: "q = (ttl, nx, xx)" by (cases q)
    show ?thesis
    proof (cases "nx \<and> xx")
      case True
      with run ok o' Inr q show ?thesis by (auto simp: cmdSet_def answer_def)
    next
      case False
      with run o' Inr q obtain r where r: "applyReplicationWrite E h k ''SET'' (encodeReplicationPayload (k # v # opts))
          (if ttl > 0 then i64 (e_now E + ttl) else 0) (setApply E k v ttl nx xx) = Some (h', r)"
        "c' = writes (if r = Inl errReplicationNoop then [WNull] else dataReply (\<lambda>_. [WString ''OK'']) r) c"
        by (auto simp: cmdSet_def answer_def Let_def simp del: if_splits elim!: bind_stepE)
      with ok have "r = Inr ()" by (cases r) (auto simp: dataReply_def writeDataError_def split: if_splits)
      with r(1) show ?thesis by blast
    qed
  qed
qed


text \<open>The owner of the slot of a key, with a small store.\<close>

definition owner_table :: SlotManager where
  "owner_table = fst (AssignSlot NewSlotManager (KeySlot ''k'') ''n1'')"

definition owner_node :: "unit Handler" where
  "owner_node = (SetCluster idle_handler (demo_cluster ''n1'' owner_table))\<lparr> h_engine := store_small [] \<rparr>"

lemma owner_table_slot: "slot_at owner_table (KeySlot ''k'') = owned_by ''n1''" "in_range (KeySlot ''k'')"
proof -
  have wf: "sm_wf NewSlotManager" using sm_ok_New by (simp add: sm_ok_def)
  show r: "in_range (KeySlot ''k'')" by (simp add: in_range_def KeySlot_less)
  show "slot_at owner_table (KeySlot ''k'') = owned_by ''n1''"
    using AssignSlot_view(1) [OF wf r, of "''n1''" "KeySlot ''k''"] slot_at_new [OF r]
    by (simp add: owner_table_def owned_by_def newSlotInfo_def)
qed

lemma owner_node_view:
  "h_cluster owner_node = Some (demo_cluster ''n1'' owner_table)" "h_engine owner_node = store_small []"
  "c_replication (demo_cluster ''n1'' owner_table) = NewReplManager (Some (NewLogStore 1024))"
  by (simp_all add: owner_node_def SetCluster_def demo_cluster_def NewCluster_def Let_def)

lemma owner_node_SET:
  "\<exists>h'. cmdSet idle_env owner_node newConn [''k'', [CHR ''a'', CHR 0x00, CHR ''b'']] = Some (h', writes [WString ''OK''] newConn)"
proof -
  let ?v = "[CHR ''a'', CHR 0x00, CHR ''b'']" and ?cl = "demo_cluster ''n1'' owner_table"
  have "\<exists>s1. st_Set 5 0 (store_small []) ''k'' ?v 0 = Some (s1, Inr ())"
  proof (rule st_Set_new [of "{''k''}"])
    show "st_ok {''k''} (store_small [])" by (simp add: store_small_free mwf_def)
    show "fits_in (st_cache (store_small [])) ''k'' ?v"
      by (simp add: store_small_def) (simp add: cache_small_def ring_small_def esize_def)
    show "absent (st_cache (store_small [])) ''k''" by (simp add: absent_def store_small_def) (simp add: cache_small_def)
  qed (simp_all add: store_small_def)
  then obtain s1 where s1: "st_Set 5 0 (store_small []) ''k'' ?v 0 = Some (s1, Inr ())" by blast
  have alloc: "\<exists>sm. AllocateLSN owner_table (KeySlot ''k'') = (sm, Inr (0, 1))"
    by (simp add: AllocateLSN_def owner_table_slot owned_by_def newSlotInfo_def)
  then obtain sm where sm: "AllocateLSN (c_slots ?cl) (KeySlot ''k'') = (sm, Inr (0, 1))" by (auto simp: demo_cluster_view)
  have "\<exists>h'. applyReplicationWrite idle_env owner_node ''k'' ''SET'' (encodeReplicationPayload [''k'', ?v]) 0
      (setApply idle_env ''k'' ?v 0 False False) = Some (h', Inr ())"
    using s1 sm by (simp add: applyReplicationWrite_def setApply_def owner_node_view idle_env_def ApplyWrite_def log_Append_def
        NewReplManager_def NewLogStore_def mget0_def Let_def split: prod.split)
  then show ?thesis by (auto simp: cmdSet_def Let_def answer_def dataReply_def errReplicationNoop_def)
qed


section \<open>WAIT\<close>

definition acks :: "ReplManager \<Rightarrow> 16 word \<Rightarrow> 64 word \<Rightarrow> int" where
  "acks m slot lsn = int (length (filter (\<lambda>ack. AppliedLSN ack \<ge> lsn) (ReplicaProgressSnapshot m slot)))"

lemma waitLoop_unfold:
  "waitLoop polls slot lsn required deadline i =
     (if acks (fst (polls i)) slot lsn \<ge> required \<or> snd (polls i) > deadline then Some (acks (fst (polls i)) slot lsn)
      else waitLoop polls slot lsn required deadline (Suc i))"
  by (cases "polls i") (subst waitLoop.simps, simp add: acks_def)

lemma waitLoop_returns:
  "i \<le> k \<Longrightarrow> snd (polls k) > deadline \<Longrightarrow>
   \<exists>j \<le> k. waitLoop polls slot lsn required deadline i = Some (acks (fst (polls j)) slot lsn) \<and>
     (acks (fst (polls j)) slot lsn \<ge> required \<or> snd (polls j) > deadline) \<and>
     (\<forall>l. i \<le> l \<and> l < j \<longrightarrow> acks (fst (polls l)) slot lsn < required)"
proof (induction "k - i" arbitrary: i)
  case 0
  then have "i = k" by simp
  with 0 waitLoop_unfold [of polls slot lsn required deadline k] show ?case by (intro exI [of _ k]) simp
next
  case (Suc d)
  show ?case
  proof (cases "acks (fst (polls i)) slot lsn \<ge> required \<or> snd (polls i) > deadline")
    case True
    with Suc.prems(1) waitLoop_unfold [of polls slot lsn required deadline i] show ?thesis by (intro exI [of _ i]) simp
  next
    case False
    then have step: "waitLoop polls slot lsn required deadline i = waitLoop polls slot lsn required deadline (Suc i)"
      using waitLoop_unfold [of polls slot lsn required deadline i] by simp
    from Suc.hyps(2) have *: "d = k - Suc i" "Suc i \<le> k" by auto
    from Suc.hyps(1) [OF *(1) *(2) Suc.prems(2)] obtain j where j: "j \<le> k"
      "waitLoop polls slot lsn required deadline (Suc i) = Some (acks (fst (polls j)) slot lsn)"
      "acks (fst (polls j)) slot lsn \<ge> required \<or> snd (polls j) > deadline"
      "\<forall>l. Suc i \<le> l \<and> l < j \<longrightarrow> acks (fst (polls l)) slot lsn < required" by blast
    have "acks (fst (polls l)) slot lsn < required" if "i \<le> l" "l < j" for l
    proof (cases "l = i")
      case True
      with False show ?thesis by simp
    next
      case False
      with that j(4) show ?thesis by simp
    qed
    with j step show ?thesis by metis
  qed
qed

text \<open>
  C25: \<^verbatim>\<open>WAIT\<close> returns as soon as the clock has passed its deadline, at the latest. It answers with the number of replicas
  that have acknowledged the last write of the node at the look at which it ends, and with fewer than required
  only after the deadline, when no earlier look had found enough.
\<close>

theorem wait_returns:
  assumes "ParseInt a = Some required" "0 < required" "ParseInt b = Some ms" "0 \<le> ms" "h_cluster h \<noteq> None" "h_lastWriteLSN h \<noteq> 0"
    and late: "snd (e_polls E k) > e_now E + millis ms"
  shows "\<exists>j \<le> k. cmdWait E h c [a, b] = Some (h, writes [WInt (acks (fst (e_polls E j)) (h_lastWriteSlot h) (h_lastWriteLSN h))] c) \<and>
    (acks (fst (e_polls E j)) (h_lastWriteSlot h) (h_lastWriteLSN h) \<ge> required \<or> snd (e_polls E j) > e_now E + millis ms) \<and>
    (\<forall>l < j. acks (fst (e_polls E l)) (h_lastWriteSlot h) (h_lastWriteLSN h) < required)"
proof -
  from waitLoop_returns [of 0 k "e_now E + millis ms" "e_polls E" "h_lastWriteSlot h" "h_lastWriteLSN h" required] late
  obtain j where j: "j \<le> k" "waitLoop (e_polls E) (h_lastWriteSlot h) (h_lastWriteLSN h) required (e_now E + millis ms) 0 =
      Some (acks (fst (e_polls E j)) (h_lastWriteSlot h) (h_lastWriteLSN h))"
    "acks (fst (e_polls E j)) (h_lastWriteSlot h) (h_lastWriteLSN h) \<ge> required \<or> snd (e_polls E j) > e_now E + millis ms"
    "\<forall>l < j. acks (fst (e_polls E l)) (h_lastWriteSlot h) (h_lastWriteLSN h) < required" by auto
  from j(2) assms(1-6) have "cmdWait E h c [a, b] =
      Some (h, writes [WInt (acks (fst (e_polls E j)) (h_lastWriteSlot h) (h_lastWriteLSN h))] c)"
    by (auto simp: cmdWait_def answer_def)
  with j show ?thesis by blast
qed

theorem wait_returns_witness:
  "cmdWait idle_env (importing\<lparr> h_lastWriteLSN := 1 \<rparr>) newConn [''1'', ''0''] =
     Some (importing\<lparr> h_lastWriteLSN := 1 \<rparr>, writes [WInt 0] newConn)"
proof -
  let ?h = "importing\<lparr> h_lastWriteLSN := 1 \<rparr>"
  have n: "ParseInt ''1'' = Some 1" "ParseInt ''0'' = Some 0" by code_simp+
  have acks: "acks (fst (e_polls idle_env j)) slot lsn = 0" for j slot lsn
    by (simp add: idle_env_def acks_def ReplicaProgressSnapshot_def ack_Snapshot_def mget0_def NewReplManager_def)
  have "snd (e_polls idle_env 6) > e_now idle_env + millis 0" by (simp add: idle_env_def millis_def i64_def)
  from wait_returns [OF n(1) _ n(2) _ _ _ this, of ?h newConn] show ?thesis by (auto simp: acks importing_view)
qed

end
