(* ===== verification/RespFmt.thy ===== *)
theory RespFmt
  imports GoFmt
begin

text \<open>
  The formatting of RESP values without allocation, \<^verbatim>\<open>internal/protocol/format.go\<close>, and the integer formatter of
  \<^verbatim>\<open>responses.go\<close>. The digits are written from the right into an array of 20 bytes; a write before its start is a
  panic, \<open>None\<close>. The reference is \<^verbatim>\<open>strconv.FormatInt\<close>.
\<close>

definition smallIntStrings :: "int \<Rightarrow> string" where
  "smallIntStrings i =
     (if i < 10 then [char_of (48 + nat i)] else [char_of (48 + nat i div 10), char_of (48 + nat i mod 10)])"

text \<open>The loop over the digits: \<open>i\<close> is the position in the array, \<open>acc\<close> what is written behind it.\<close>

fun digitLoop :: "nat \<Rightarrow> nat \<Rightarrow> string \<Rightarrow> string go" where
  "digitLoop 0 n acc = (if n > 0 then None else Some acc)"
| "digitLoop (Suc i) n acc = (if n > 0 then digitLoop i (n div 10) (char_of (n mod 10 + 48) # acc) else Some acc)"

definition appendUint :: "string \<Rightarrow> 64 word \<Rightarrow> string go" where
  "appendUint buf n = (if n = 0 then Some (buf @ ''0'') else do { ds \<leftarrow> digitLoop 20 (unat n) []; Some (buf @ ds) })"

definition rf_FormatInt :: "string \<Rightarrow> int \<Rightarrow> string go" where
  "rf_FormatInt buf n =
     (if n \<ge> 0 \<and> n < 100 then Some (buf @ smallIntStrings n)
      else if n < 0 then appendUint (buf @ ''-'') (word_of_int (i64 (- n)))
      else appendUint buf (word_of_int n))"

definition rf_FormatUint :: "string \<Rightarrow> 64 word \<Rightarrow> string go" where
  "rf_FormatUint buf n = (if n < 100 then Some (buf @ smallIntStrings (uint n)) else appendUint buf n)"

definition FormatIntRESP :: "string \<Rightarrow> int \<Rightarrow> string go" where
  "FormatIntRESP buf n = do { b \<leftarrow> rf_FormatInt (buf @ '':'') n; Some (b @ CRLF) }"

definition FormatBulkLen :: "string \<Rightarrow> int \<Rightarrow> string go" where
  "FormatBulkLen buf len = do { b \<leftarrow> rf_FormatInt (buf @ ''$'') len; Some (b @ CRLF) }"

definition FormatArrayLen :: "string \<Rightarrow> int \<Rightarrow> string go" where
  "FormatArrayLen buf len = do { b \<leftarrow> rf_FormatInt (buf @ ''*'') len; Some (b @ CRLF) }"

definition FormatBulkString :: "string \<Rightarrow> string \<Rightarrow> string go" where
  "FormatBulkString buf s = do { b \<leftarrow> FormatBulkLen buf (int (length s)); Some (b @ s @ CRLF) }"

text \<open>\<^verbatim>\<open>appendInt\<close> of \<^verbatim>\<open>responses.go\<close> negates in \<^verbatim>\<open>int64\<close> and loops while the number is positive.\<close>

definition appendInt :: "string \<Rightarrow> int \<Rightarrow> string go" where
  "appendInt buf n0 =
     (let buf1 = (if n0 < 0 then buf @ ''-'' else buf); n = (if n0 < 0 then i64 (- n0) else n0)
      in if n = 0 then Some (buf1 @ ''0'')
         else if n > 0 then do { ds \<leftarrow> digitLoop 20 (nat n) []; Some (buf1 @ ds) } else Some buf1)"

section \<open>Correctness\<close>

lemma digits [simp]: "digit_char 0 = CHR ''0''" "digit_char 7 = CHR ''7''"
  by code_simp+

lemma format_nat_small: "n < 10 \<Longrightarrow> format_nat n = [digit_char n]"
  by (simp add: format_nat.simps [of n])

lemma format_nat_large: "\<not> n < 10 \<Longrightarrow> format_nat n = format_nat (n div 10) @ [digit_char (n mod 10)]"
  by (simp add: format_nat.simps [of n])

lemma char_of_digit: "char_of (n + 48) = digit_char n" "char_of (48 + n) = digit_char n"
  by (simp_all add: digit_char_def add.commute)

lemma digitLoop_eq: "n < 10 ^ i \<Longrightarrow> digitLoop i n acc = Some (if n = 0 then acc else format_nat n @ acc)"
proof (induction i arbitrary: n acc)
  case (Suc i)
  then have *: "n div 10 < 10 ^ i" by (simp add: less_mult_imp_div_less mult.commute)
  show ?case
  proof (cases "n < 10")
    case True
    then show ?thesis using Suc.IH [of 0] by (simp add: char_of_digit format_nat_small)
  next
    case False
    then have "n div 10 \<noteq> 0" by auto
    with False Suc.IH [OF *] show ?thesis by (simp add: char_of_digit format_nat_large [OF False])
  qed
qed simp

lemma appendUint_eq: "appendUint buf n = Some (buf @ format_nat (unat n))"
proof -
  have "unat n < 2 ^ 64" using unsigned_less [of n] by simp
  then have "unat n < 10 ^ 20" by simp
  moreover have "''0'' = format_nat 0" by (simp add: format_nat_small)
  ultimately show ?thesis using unat_eq_zero [of n] by (simp add: appendUint_def digitLoop_eq)
qed

lemma smallIntStrings_eq: "0 \<le> n \<Longrightarrow> n < 100 \<Longrightarrow> smallIntStrings n = format_nat (nat n)"
proof -
  assume n: "0 \<le> n" "n < 100"
  then have "nat n div 10 < 10" "n < 10 \<longleftrightarrow> nat n < 10" by auto
  with n show ?thesis
    by (cases "n < 10") (simp_all add: smallIntStrings_def char_of_digit format_nat_small format_nat_large)
qed

lemma unat_i64: "0 \<le> n \<Longrightarrow> n \<le> 2 ^ 63 \<Longrightarrow> unat (word_of_int (i64 n) :: 64 word) = nat n"
proof (cases "n = 2 ^ 63")
  case True
  then have "i64 n = - (2 ^ 63)" by (simp add: i64_def)
  with True show ?thesis by simp
next
  case False
  assume n: "0 \<le> n" "n \<le> 2 ^ 63"
  with False have "i64 n = n" by (simp add: is_i64_def)
  with n show ?thesis by (simp add: unat_eq_nat_uint uint_word_of_int)
qed

lemma rf_FormatInt_eq: "is_i64 n \<Longrightarrow> rf_FormatInt buf n = Some (buf @ FormatInt n)"
proof -
  assume n: "is_i64 n"
  then have "unat (word_of_int n :: 64 word) = nat n" if "0 \<le> n" using unat_i64 [of n] that by (simp add: is_i64_def)
  moreover have "unat (word_of_int (i64 (- n)) :: 64 word) = nat (- n)" if "n < 0"
    using n unat_i64 [of "- n"] that by (simp add: is_i64_def)
  ultimately show ?thesis by (simp add: rf_FormatInt_def FormatInt_def smallIntStrings_eq appendUint_eq)
qed

lemma rf_FormatUint_eq: "rf_FormatUint buf n = Some (buf @ FormatUint n)"
proof (cases "n < 100")
  case True
  then have "uint n < uint (100 :: 64 word)" by (simp only: word_less_def)
  then have "smallIntStrings (uint n) = format_nat (unat n)" using smallIntStrings_eq [of "uint n"] by simp
  with True show ?thesis by (simp add: rf_FormatUint_def FormatUint_def)
qed (simp add: rf_FormatUint_def FormatUint_def appendUint_eq)

lemma appendInt_eq: "is_i64 n \<Longrightarrow> appendInt buf n = Some (buf @ (if n = - (2 ^ 63) then ''-'' else FormatInt n))"
proof -
  assume n: "is_i64 n"
  then have "nat n < 10 ^ 20" "nat (- n) < 10 ^ 20" by (auto simp: is_i64_def)
  moreover have "i64 (- n) = - n" if "n \<noteq> - (2 ^ 63)" using n that by (simp add: i64_def is_i64_def)
  moreover have "i64 (2 ^ 63) = - (2 ^ 63)" by (simp add: i64_def)
  ultimately show ?thesis
    by (auto simp: appendInt_def FormatInt_def digitLoop_eq format_nat_small)
qed

text \<open>
  C35: the formatters never run out of their array and give what \<^verbatim>\<open>strconv\<close> and the protocol ask for, for every 64-bit
  number, the least one included, and every string. The formatter of \<^verbatim>\<open>responses.go\<close> does so except for the least
  number, of which it writes only the sign.
\<close>

theorem formatters_correct:
  assumes "is_i64 n" "int (length s) < 2 ^ 63"
  shows "rf_FormatInt buf n = Some (buf @ FormatInt n) \<and> rf_FormatUint buf w = Some (buf @ FormatUint w) \<and>
    FormatIntRESP buf n = Some (buf @ '':'' @ FormatInt n @ CRLF) \<and> FormatBulkString buf s = Some (buf @ bulk s) \<and>
    FormatArrayLen buf n = Some (buf @ ''*'' @ FormatInt n @ CRLF) \<and>
    appendInt buf n = Some (buf @ (if n = - (2 ^ 63) then ''-'' else FormatInt n))"
proof -
  have "is_i64 (int (length s))" using assms(2) by (simp add: is_i64_def)
  with assms(1) show ?thesis
    by (simp add: rf_FormatInt_eq rf_FormatUint_eq appendInt_eq FormatIntRESP_def FormatBulkString_def FormatBulkLen_def
        FormatArrayLen_def bulk_def)
qed

theorem formatters_correct_witness:
  "rf_FormatInt ''x'' (-7) = Some ''x-7'' \<and> appendInt [] (- (2 ^ 63)) = Some ''-'' \<and> FormatBulkString [] ''ab'' = Some (bulk ''ab'')"
proof -
  have "FormatInt (-7) = ''-7''" by (simp add: FormatInt_def format_nat_small)
  with formatters_correct [of "-7" "[]" "''x''" 0] formatters_correct [of "- (2 ^ 63)" "''ab''" "[]" 0]
  show ?thesis by (simp add: is_i64_def)
qed

end
