(* ===== verification/Spec2Isabelle.thy ===== *)
theory Spec2Isabelle
  imports CollectionProps ReplicationProps StateFile GossipProps HandlerProps RespFmt
begin

text \<open>
  A verification library for autocache, a Redis-compatible distributed cache written in Go. The theories follow
  the packages of the repository; a definition has the name of the Go function or type it translates, with a
  prefix for its receiver where names would clash (\<open>st_\<close> the store, \<open>sc_\<close> the sharded cache, \<open>dict_\<close> the dictionary,
  \<open>sm_\<close> the slot table, \<open>cl_\<close> the cluster, \<open>nd_\<close>, \<open>gn_\<close> a node, \<open>rf_\<close> the formatters).

  \<^bold>\<open>The program.\<close> A node accepts connections that speak RESP (\<^verbatim>\<open>internal/protocol\<close>). The command handler looks a
  command up in a hash table, routes it (a key belongs to one of 16384 slots, a slot to one node), refuses writes
  on a node that is not the primary of the slot, and calls the in-memory engine (\<^verbatim>\<open>internal/engine/memory\<close>):
  strings are in a sharded cache of ring buffers, lists, hashes, sets and sorted sets in a sharded dictionary of
  objects. Writes of a cluster node are numbered per slot, logged and sent to replicas
  (\<^verbatim>\<open>internal/cluster/replication\<close>). The nodes exchange what they know of each other and of the owners of slots by
  gossip (\<^verbatim>\<open>internal/cluster/gossip\<close>); a slot moves to another node by migration or when a replica takes over
  (\<^verbatim>\<open>internal/cluster/cluster.go\<close>, \<^verbatim>\<open>slots.go\<close>, \<^verbatim>\<open>failover\<close>). The state of the cluster is saved to a file
  (\<^verbatim>\<open>internal/cluster/state\<close>).

  \<^bold>\<open>Conventions.\<close> A Go call is a function on the state it changes; \<open>'a go\<close> is its outcome, \<open>None\<close> for a panic or a
  recursion that does not end, and \<open>'a res\<close> is an error or a result. \<^verbatim>\<open>uint64\<close>, \<^verbatim>\<open>uint32\<close>, \<^verbatim>\<open>uint16\<close> and \<^verbatim>\<open>uint8\<close> are words;
  \<^verbatim>\<open>int64\<close> and \<^verbatim>\<open>int\<close> are integers that wrap with \<open>i64\<close> where the code can overflow. Strings and byte slices are lists of
  characters. A Go map is an association list without duplicate keys (\<open>mput\<close>, \<open>mdel\<close>, \<open>mwf\<close>); where the code
  depends on the order in which a map is traversed, the order is a parameter. A mutex is the atomicity of an
  operation, a goroutine an operation that runs later. Time is an argument. Loops are recursive functions with
  a termination proof; \<open>waitLoop\<close>, which waits for other nodes, is a partial function, and \<open>wait_returns\<close> proves when it
  returns. No fuel is used in the model; \<open>recordAccess\<close> is a partial function because the Go function recurses
  without end.

  \<^bold>\<open>Theories.\<close>

  \<^item> \<open>Prelude\<close>, \<open>GoLib\<close>, \<open>GoFmt\<close>: results, 64-bit integers, slices, maps, the contract \<open>kv_store\<close> of a keyed container;
    \<^verbatim>\<open>strconv\<close>, \<^verbatim>\<open>path.Match\<close>, \<^verbatim>\<open>utf8\<close>, \<^verbatim>\<open>fmt.Sscanf\<close> and the RESP encoding as the Go library documents them, with their
    round trips.
  \<^item> \<open>RingBuf\<close> (\<^verbatim>\<open>ringbuf.go\<close>): an append keeps the invariant and reads back; the buffer refines a log of entries from
    which appends evict the oldest. \<open>WriteWithEvict_overwrites_head\<close> shows the state in which it does not.
  \<^item> \<open>Sketch\<close> (\<^verbatim>\<open>tinylfu.go\<close>): the frequency estimate of the admission filter is never too low.
  \<^item> \<open>Dict\<close> (\<^verbatim>\<open>dict.go\<close>): the sharded dictionary implements one map with expiry times. \<open>sharded\<close> is the contract of a table
    split by a hash; the dictionary is an instance.
  \<^item> \<open>ShardCache\<close>, \<open>ShardCacheProps\<close>, \<open>CacheScan\<close> (\<^verbatim>\<open>shard.go\<close>): no operation panics without admission filter, what \<open>Set\<close>
    stores \<open>Get\<close> returns, and a complete \<open>Scan\<close> returns every key; with an admission filter every access diverges.
  \<^item> \<open>Codec\<close> (\<^verbatim>\<open>engine.go\<close>, \<^verbatim>\<open>entry_codec.go\<close>): serialised entries decode to the same data. \<^verbatim>\<open>encoding/json\<close> is the parameter
    \<open>Json\<close> with its documented behaviour as hypothesis; \<open>json_unary\<close> is an instance.
  \<^item> \<open>Store\<close>, \<open>Collections\<close>, \<open>StoreProps\<close>, \<open>CollectionProps\<close> (\<^verbatim>\<open>store.go\<close>, \<^verbatim>\<open>eviction.go\<close>, \<^verbatim>\<open>expiry.go\<close>, \<^verbatim>\<open>list.go\<close>, \<^verbatim>\<open>hash.go\<close>, \<^verbatim>\<open>set.go\<close>, \<^verbatim>\<open>zset.go\<close>):
    the locale \<open>typed_objects\<close> is the contract between the store and the collections; the collection operations
    refine mathematical lists, maps, sets and rankings, and refuse keys of another type; deletion and the active
    expiry cycle.
  \<^item> \<open>KeySlot\<close>, \<open>Slots\<close>, \<open>SlotsProps\<close> (\<^verbatim>\<open>crc16.go\<close>, \<^verbatim>\<open>slots.go\<close>, \<^verbatim>\<open>failover/manager.go\<close>, \<^verbatim>\<open>state/types.go\<close>): the slot of a key is that of the Redis
    specification; in every reachable table (\<open>slot_reach\<close>) the index and the owners agree; failover promotes a
    most up-to-date replica; the table survives a restart. \<open>lsn_source\<close> is the contract of the numbering of writes.
  \<^item> \<open>Replication\<close>, \<open>ReplicationProps\<close>: a replica executes what the master sent, in order and once; incremental replay is
    exact; what a write does when log and numbering disagree.
  \<^item> \<open>StateFile\<close> (\<^verbatim>\<open>state/manager.go\<close>): the save loop as a step relation; without a change during a save the last state is
    saved, with one it can be lost.
  \<^item> \<open>Gossip\<close>, \<open>GossipProps\<close>: no message breaks the tables of a node or moves a slot without a newer epoch; when a
    node is declared failed.
  \<^item> \<open>Cluster\<close>, \<open>ClusterProps\<close> (\<^verbatim>\<open>cluster.go\<close>, \<^verbatim>\<open>node.go\<close>, \<^verbatim>\<open>router.go\<close>): a client that follows redirections reaches the owner of its key;
    takeover of a failed master; a slot is given away only when it is empty. Sockets are the functions of the
    record \<open>Net\<close>.
  \<^item> \<open>CmdTable\<close>, \<open>ClusterCmd\<close>, \<open>Handler\<close>, \<open>HandlerProps\<close> (\<^verbatim>\<open>cmdmap.go\<close>, \<^verbatim>\<open>zerocopy.go\<close>, \<^verbatim>\<open>crossslot.go\<close>, \<^verbatim>\<open>connstate.go\<close>, \<^verbatim>\<open>commands/cluster.go\<close>,
    \<^verbatim>\<open>handler.go\<close>, \<^verbatim>\<open>server.go\<close>, \<^verbatim>\<open>snapshot.go\<close>): all commands and both dispatchers. The table is the map of the registered
    commands, the dispatchers agree, a command answers with exactly one value, writes are guarded, and what a
    replica makes of a \<^verbatim>\<open>SET\<close>. A command is a function from the surroundings of the node (\<open>Env\<close>), the handler, the
    connection and the arguments to the new handler and connection.
  \<^item> \<open>RespFmt\<close> (\<^verbatim>\<open>format.go\<close>, \<^verbatim>\<open>responses.go\<close>): the formatters without allocation agree with \<^verbatim>\<open>strconv\<close>.

  \<^bold>\<open>Flaws.\<close> Where the code does not do what it means to, the model has the behaviour of the code and a theorem
  states it: an append over the oldest entry, the recursion of \<open>recordAccess\<close>, values of 64 KiB and more, negative
  counters, expiry and eviction that never remove anything, state lost during a save, slots reverted by gossip,
  writes refused after a restart, the flag of \<^verbatim>\<open>ASKING\<close>, values cut at a zero byte on replicas.

  \<^bold>\<open>Not modelled.\<close> Sockets, files and goroutine scheduling appear only through their results. The tiered engine,
  BadgerDB and S3 stores, the write-behind log and the adapters to them; the hotspot detector and the rebalancing
  loop; the background migration workers, which no program starts; metrics; the Kubernetes operator, the admin
  console and the clipboard service, which are clients of the cache or of external services; command-line
  programs.
\<close>

end
